(* ===== verification/Prelude.thy ===== *)
theory Prelude
  imports Complex_Main "HOL-Library.Word"
begin

text \<open>
  Shared ground of the development: the machine types of the C and C++ sources, the
  collections of facts that the components feed and the component proofs use, and the
  generic lemmas on lists, words and iteration that more than one component needs.
\<close>

unbundle bit_operations_syntax

section \<open>Machine types\<close>

text \<open>
  \<open>uint8_t\<close>, \<open>uint16_t\<close> and \<open>uint32_t\<close> are words. An \<open>int16_t\<close> has the same 16 bits as a
  \<open>uint16_t\<close>: the casts between the two in the sources are the identity on the word, and
  the signed reading is \<open>sint\<close>. An \<open>int\<close> of the sources is an \<open>int\<close> of HOL wherever its
  values come from 16-bit registers or small constants; casts that can lose bits are
  written out.
\<close>

type_synonym u8 = "8 word"
type_synonym u16 = "16 word"
type_synonym u32 = "32 word"
type_synonym i16 = "16 word"

text \<open>\<open>static_cast<uint16_t>\<close> and \<open>static_cast<int>\<close> (32-bit two's complement) of an integer.\<close>

definition to_u16 :: "int \<Rightarrow> u16" where
  "to_u16 i = word_of_int i"

definition to_int32 :: "int \<Rightarrow> int" where
  "to_int32 i = sint (word_of_int i :: 32 word)"

section \<open>Collections of facts\<close>

named_theorems client_simps "equations of the device operations on their outcomes"
named_theorems queue_simps "equations of the ring buffers"
named_theorems fp_simps "exact results of floating-point operations"
named_theorems frame_simps "bytes of the protocol frames"

section \<open>Outcomes of fallible operations\<close>

text \<open>
  A C++ operation that may throw returns \<open>Inl\<close> of the exception or \<open>Inr\<close> of its result,
  paired with the state it leaves behind: state changes made before a throw are kept.
\<close>

type_synonym ('e, 'a, 's) outcome = "('e + 'a) \<times> 's"

section \<open>Generic lemmas\<close>

lemma foldl_inj_acc:
  assumes "\<And>x. inj (\<lambda>a. f a x)" and "foldl f a xs = foldl f b xs"
  shows "a = b"
  using assms(2)
proof (induction xs arbitrary: a b)
  case Nil
  then show ?case by simp
next
  case (Cons x xs)
  from Cons.prems have "f a x = f b x" by (auto intro: Cons.IH)
  then show ?case by (rule injD [OF assms(1)])
qed

lemma mod_Suc_neq: "1 < n \<Longrightarrow> i < n \<Longrightarrow> (i + 1) mod n \<noteq> (i::nat)"
  by (cases "i + 1 = n") auto

lemma xor_cancel_right: "(a :: 'a::len word) XOR b = c XOR b \<longleftrightarrow> a = c"
  by (metis xor.assoc xor.right_neutral xor_self_eq)

lemma xor_cancel_left: "(b :: 'a::len word) XOR a = b XOR c \<longleftrightarrow> a = c"
  by (metis xor.assoc xor.left_neutral xor_self_eq)

lemma ucast_u8_u16_inj:
  assumes "(ucast (b::u8) :: u16) = ucast c"
  shows "b = c"
proof (rule bit_word_eqI)
  fix n assume "n < LENGTH(8)"
  moreover have "bit (ucast b :: u16) n = bit (ucast c :: u16) n" by (simp add: assms)
  ultimately show "bit b n = bit c n" by (simp add: bit_ucast_iff)
qed

section \<open>Bytes of a 16-bit word\<close>

text \<open>\<open>(w >> 8) & 0xFF\<close> and \<open>w & 0xFF\<close>, stored into a \<open>uint8_t\<close>.\<close>

definition hi_byte :: "u16 \<Rightarrow> u8" where
  "hi_byte w = ucast ((drop_bit 8 w) AND 0xFF)"

definition lo_byte :: "u16 \<Rightarrow> u8" where
  "lo_byte w = ucast (w AND 0xFF)"

definition join_bytes :: "u8 \<Rightarrow> u8 \<Rightarrow> u16" where
  "join_bytes h l = (push_bit 8 (ucast h)) OR ucast l"

lemma and_0xFF: "(w::u16) AND 0xFF = take_bit 8 w"
  by (simp add: take_bit_eq_mask mask_eq_exp_minus_1)

lemma bit_hi_byte: "bit (hi_byte w) n = (n < 8 \<and> bit w (n + 8))"
  unfolding hi_byte_def and_0xFF
  by (auto simp: bit_ucast_iff bit_take_bit_iff bit_drop_bit_eq ac_simps)

lemma bit_lo_byte: "bit (lo_byte w) n = (n < 8 \<and> bit w n)"
  unfolding lo_byte_def and_0xFF
  by (auto simp: bit_ucast_iff bit_take_bit_iff)

lemma bit_join_bytes:
  "bit (join_bytes h l) n = (n < 16 \<and> (8 \<le> n \<and> bit h (n - 8) \<or> bit l n))"
  by (auto simp: join_bytes_def bit_or_iff bit_push_bit_iff bit_ucast_iff dest: bit_imp_le_length)

lemma join_hi_lo [simp]: "join_bytes (hi_byte w) (lo_byte w) = w"
  by (rule bit_word_eqI) (auto simp: bit_join_bytes bit_hi_byte bit_lo_byte)

lemma hi_join [simp]: "hi_byte (join_bytes h l) = h"
  by (rule bit_word_eqI) (auto simp: bit_join_bytes bit_hi_byte dest: bit_imp_le_length)

lemma lo_join [simp]: "lo_byte (join_bytes h l) = l"
  by (rule bit_word_eqI) (auto simp: bit_join_bytes bit_lo_byte)

lemma bytes_eq_iff: "w = v \<longleftrightarrow> hi_byte w = hi_byte v \<and> lo_byte w = lo_byte v"
  by (metis join_hi_lo)

end
