(* ===== verification/Ieee_Float.thy ===== *)
theory Ieee_Float
  imports Prelude
begin

text \<open>
  The binary floating-point arithmetic of the C++ sources: \<open>float\<close> is binary32 and
  \<open>double\<close> is binary64 of IEEE 754, every operation rounds its exact result to nearest,
  ties to even. A value is a rational number, an infinity or a NaN. The two zeros are one
  value: no operation of the sources divides by a zero or branches on the sign of one, but \<open>printf\<close> shows
  it, so where the sources print a negative zero as \<open>-0.0\<close> the texts here have \<open>0.0\<close>.
  The lemmas give what the components need: exactness on short numbers, monotonicity,
  and the size of the rounding error.
\<close>

section \<open>Rounding a rational number\<close>

text \<open>The binary exponent: \<open>2 powi ilog2 x \<le> x < 2 powi (ilog2 x + 1)\<close> for positive \<open>x\<close>.\<close>

function bit_length :: "int \<Rightarrow> int" where
  "bit_length n = (if n \<le> 0 then 0 else 1 + bit_length (n div 2))"
  by pat_completeness auto
termination
  by (relation "measure nat") auto

declare bit_length.simps [simp del]

definition ilog2 :: "rat \<Rightarrow> int" where
  "ilog2 x = (case quotient_of x of (p, q) \<Rightarrow>
     let d = bit_length p - bit_length q
     in if 2 powi d \<le> x then d else d - 1)"

text \<open>The nearest integer, ties to the even one.\<close>

definition round_even :: "rat \<Rightarrow> int" where
  "round_even x =
     (let f = \<lfloor>x\<rfloor>; r = x - of_int f
      in if r < 1/2 then f else if r > 1/2 then f + 1 else if even f then f else f + 1)"

text \<open>The weight of the last significand bit of a \<open>p\<close>-bit number near \<open>x\<close>, never below \<open>2 powi qmin\<close>.\<close>

definition ulp_exp :: "int \<Rightarrow> int \<Rightarrow> rat \<Rightarrow> int" where
  "ulp_exp p qmin x = max qmin (ilog2 \<bar>x\<bar> - p + 1)"

definition fround :: "int \<Rightarrow> int \<Rightarrow> rat \<Rightarrow> rat" where
  "fround p qmin x =
     (if x = 0 then 0
      else let q = ulp_exp p qmin x in of_int (round_even (x / 2 powi q)) * 2 powi q)"

subsection \<open>The exponent\<close>

lemma bit_length_nonneg: "0 \<le> bit_length n"
  by (induction n rule: bit_length.induct) (subst bit_length.simps, simp)

lemma bit_length_bounds:
  "0 < n \<Longrightarrow> 2 ^ nat (bit_length n - 1) \<le> n \<and> n < 2 ^ nat (bit_length n) \<and> 1 \<le> bit_length n"
proof (induction n rule: bit_length.induct)
  case (1 n)
  define b where "b = bit_length (n div 2)"
  have b: "bit_length n = 1 + b" "0 \<le> b"
    using "1.prems" by (simp_all add: bit_length.simps [of n] b_def bit_length_nonneg)
  show ?case
  proof (cases "n = 1")
    case True
    then have "b = 0" by (simp add: b_def bit_length.simps)
    with True b show ?thesis by simp
  next
    case False
    with "1" have IH: "2 ^ nat (b - 1) \<le> n div 2" "n div 2 < 2 ^ nat b" "1 \<le> b"
      by (auto simp: b_def)
    then have "2 ^ nat b = (2::int) * 2 ^ nat (b - 1)" by (simp add: nat_diff_distrib flip: power_Suc)
    moreover have "2 ^ nat (1 + b) = (2::int) * 2 ^ nat b" using IH(3) by (simp add: nat_add_distrib)
    ultimately show ?thesis using IH b by auto
  qed
qed

lemma bit_length_powi:
  assumes "0 < (p::int)"
  shows "2 powi (bit_length p - 1) \<le> (of_int p :: rat)"
    and "(of_int p :: rat) < 2 powi bit_length p"
proof -
  note * = bit_length_bounds [OF assms]
  from * have "(of_int (2 ^ nat (bit_length p - 1)) :: rat) \<le> of_int p"
      "(of_int p :: rat) < of_int (2 ^ nat (bit_length p))"
    by (simp_all only: of_int_le_iff of_int_less_iff)
  with * show "2 powi (bit_length p - 1) \<le> (of_int p :: rat)"
    and "(of_int p :: rat) < 2 powi bit_length p"
    by (simp_all add: power_int_def)
qed

lemma powi_quotient_bounds:
  fixes x y :: rat
  assumes "2 powi (a - 1) \<le> x" "x < 2 powi a" "2 powi (b - 1) \<le> y" "y < 2 powi b"
  shows "x / y < 2 powi (a - b + 1)" and "2 powi (a - b - 1) \<le> x / y"
proof -
  have y: "0 < y" using assms(3) by (rule less_le_trans [rotated]) simp
  have x: "0 < x" using assms(1) by (rule less_le_trans [rotated]) simp
  have "x / y < 2 powi a / 2 powi (b - 1)"
    using assms(2,3) x by (intro frac_less) auto
  then show "x / y < 2 powi (a - b + 1)" by (simp add: power_int_diff power_int_add)
  have "2 powi (a - 1) / 2 powi b \<le> x / y"
    using assms x y by (intro frac_le) auto
  then show "2 powi (a - b - 1) \<le> x / y" by (simp add: power_int_diff power_int_add field_simps)
qed

lemma ilog2_bounds:
  assumes "0 < x"
  shows "2 powi (ilog2 x) \<le> x" and "x < 2 powi (ilog2 x + 1)"
proof -
  obtain p q where pq: "quotient_of x = (p, q)" by force
  then have q: "0 < q" by (rule quotient_of_denom_pos)
  from pq have x: "x = of_int p / of_int q" by (rule quotient_of_div)
  with assms q have p: "0 < p" by (simp add: zero_less_divide_iff)
  note * = powi_quotient_bounds [OF bit_length_powi [OF p] bit_length_powi [OF q], folded x]
  show "2 powi (ilog2 x) \<le> x" and "x < 2 powi (ilog2 x + 1)"
    using * by (auto simp: ilog2_def pq Let_def algebra_simps)
qed

lemma powi_less_cancel: "(2::rat) powi a < 2 powi b \<Longrightarrow> a < b"
  by (metis less_irrefl linorder_not_less power_int_increasing not_less order.strict_trans1 one_le_numeral)

lemma ilog2_unique:
  assumes "2 powi e \<le> x" and "x < 2 powi (e + 1)"
  shows "ilog2 x = e"
proof -
  have x: "0 < x" using assms(1) by (rule less_le_trans [rotated]) simp
  have "e < ilog2 x + 1"
    by (rule powi_less_cancel) (rule le_less_trans [OF assms(1) ilog2_bounds(2) [OF x]])
  moreover have "ilog2 x < e + 1"
    by (rule powi_less_cancel) (rule le_less_trans [OF ilog2_bounds(1) [OF x] assms(2)])
  ultimately show ?thesis by simp
qed

lemma ilog2_mono: "0 < x \<Longrightarrow> x \<le> y \<Longrightarrow> ilog2 x \<le> ilog2 y"
proof -
  assume "0 < x" "x \<le> y"
  then have "2 powi ilog2 x < (2::rat) powi (ilog2 y + 1)"
    using ilog2_bounds [of x] ilog2_bounds [of y] by linarith
  then show ?thesis by (auto dest: powi_less_cancel)
qed

subsection \<open>The nearest integer\<close>

lemma round_even_of_int [simp]: "round_even (of_int n) = n"
  by (simp add: round_even_def)

lemma floor_parts:
  obtains f r where "x = of_int f + (r::rat)" "0 \<le> r" "r < 1" "\<lfloor>x\<rfloor> = f"
  by (rule that [of "\<lfloor>x\<rfloor>" "x - of_int \<lfloor>x\<rfloor>"]) (use floor_correct [of x] in auto)

lemma round_even_parts:
  "0 \<le> r \<Longrightarrow> r < 1 \<Longrightarrow> round_even (of_int f + r) =
     (if r < 1/2 then f else if r > 1/2 then f + 1 else if even f then f else f + 1)"
proof -
  assume "0 \<le> r" "r < 1"
  then have "\<lfloor>of_int f + r\<rfloor> = f" by (simp add: floor_eq_iff)
  then show ?thesis by (simp add: round_even_def Let_def)
qed

lemma round_even_error: "\<bar>of_int (round_even x) - x\<bar> \<le> 1/2"
proof -
  obtain f r where "x = of_int f + r" "0 \<le> r" "r < 1" by (rule floor_parts)
  then show ?thesis by (auto simp: round_even_parts)
qed

lemma round_even_mono: "x \<le> y \<Longrightarrow> round_even x \<le> round_even y"
proof -
  assume xy: "x \<le> y"
  then have "\<lfloor>x\<rfloor> \<le> \<lfloor>y\<rfloor>" by (rule floor_mono)
  then show ?thesis using xy by (cases "\<lfloor>x\<rfloor> = \<lfloor>y\<rfloor>") (auto simp: round_even_def Let_def)
qed

lemma round_even_near:
  assumes "\<bar>x - of_int n\<bar> < 1/2"
  shows "round_even x = n"
proof -
  have "\<bar>of_int (round_even x) - (of_int n :: rat)\<bar> < 1"
    using round_even_error [of x] assms by linarith
  then show ?thesis by linarith
qed

lemma round_even_minus: "round_even (- x) = - round_even x"
proof -
  obtain f r where x: "x = of_int f + r" "0 \<le> r" "r < 1" by (rule floor_parts)
  show ?thesis
  proof (cases "r = 0")
    case True
    then show ?thesis using x by (metis add.right_neutral of_int_minus round_even_of_int)
  next
    case False
    have "- x = of_int (- f - 1) + (1 - r)" using x by simp
    then have "round_even (- x) =
      (if 1 - r < 1/2 then - f - 1 else if 1 - r > 1/2 then - f - 1 + 1
       else if even (- f - 1) then - f - 1 else - f - 1 + 1)"
      using x False round_even_parts [of "1 - r" "- f - 1"] by (simp only:)
    then show ?thesis using x round_even_parts [of r f] by auto
  qed
qed

lemma round_even_tie:
  assumes "\<bar>x - of_int n\<bar> \<le> 1/2" and "even n"
  shows "round_even x = n"
proof -
  consider "\<bar>x - of_int n\<bar> < 1/2" | "x = of_int n + 1/2" | "x = of_int (n - 1) + 1/2"
    using assms(1) by (auto simp: abs_if split: if_splits) linarith+
  then show ?thesis
    using assms(2) round_even_parts [of "1/2" n] round_even_parts [of "1/2" "n - 1"]
    by cases (simp_all add: round_even_near)
qed

subsection \<open>The nearest short number\<close>

lemma fround_0 [simp]: "fround p qmin 0 = 0"
  by (simp add: fround_def)

lemma fround_minus: "fround p qmin (- x) = - fround p qmin x"
  by (simp add: fround_def ulp_exp_def Let_def round_even_minus)

lemma powi_integral:
  assumes "q \<le> e"
  obtains k where "2 powi e / 2 powi q = (of_int k :: rat)" "0 < k"
proof -
  have "2 powi e / 2 powi q = (2::rat) ^ nat (e - q)"
    using assms power_int_diff [of "2::rat" e q] by (simp add: power_int_def)
  then show thesis by (intro that [of "2 ^ nat (e - q)"]) simp_all
qed

lemma fround_eq:
  assumes "x \<noteq> 0" "ulp_exp p qmin x = q"
  shows "fround p qmin x = of_int (round_even (x / 2 powi q)) * 2 powi q"
  using assms by (simp add: fround_def Let_def)

text \<open>Numbers with a significand of fewer than \<open>p\<close> bits are their own rounding.\<close>

lemma fround_exact:
  assumes "x = of_int m * 2 powi q" "\<bar>of_int m\<bar> < (2::rat) powi p" "qmin \<le> q"
  shows "fround p qmin x = x"
proof (cases "x = 0")
  case False
  define q0 where "q0 = ulp_exp p qmin x"
  have "2 powi ilog2 \<bar>x\<bar> \<le> \<bar>x\<bar>" using False by (intro ilog2_bounds) simp
  also have "\<dots> < 2 powi (p + q)"
    using assms(1,2) by (simp add: abs_mult power_int_add)
  finally have "ilog2 \<bar>x\<bar> < p + q" by (rule powi_less_cancel)
  with assms(3) have "q0 \<le> q" by (simp add: q0_def ulp_exp_def)
  then obtain k where "2 powi q / 2 powi q0 = (of_int k :: rat)" by (rule powi_integral)
  then have k: "x / 2 powi q0 = of_int (m * k)"
    using assms(1) by (metis of_int_mult times_divide_eq_right)
  then have "fround p qmin x = of_int (m * k) * 2 powi q0"
    using False fround_eq [OF False q0_def [symmetric]] by (simp only: round_even_of_int)
  also have "\<dots> = x" unfolding k [symmetric] by simp
  finally show ?thesis .
qed simp

lemma fround_ge_powi:
  assumes "2 powi e \<le> x" "ulp_exp p qmin x \<le> e"
  shows "2 powi e \<le> fround p qmin x"
proof -
  have x: "0 < x" using assms(1) by (rule less_le_trans [rotated]) simp
  define q where "q = ulp_exp p qmin x"
  obtain k where k: "2 powi e / 2 powi q = (of_int k :: rat)"
    using assms(2) q_def powi_integral by metis
  have "(of_int k :: rat) \<le> x / 2 powi q"
    unfolding k [symmetric] using assms(1) by (intro divide_right_mono) auto
  then have "k \<le> round_even (x / 2 powi q)"
    using round_even_mono [of "of_int k"] by simp
  then have "of_int k * 2 powi q \<le> fround p qmin x"
    using x by (simp add: fround_eq [OF _ q_def [symmetric]])
  then show ?thesis by (simp flip: k)
qed

lemma fround_le_powi:
  assumes "0 < x" "x \<le> 2 powi e" "ulp_exp p qmin x \<le> e"
  shows "fround p qmin x \<le> 2 powi e"
proof -
  define q where "q = ulp_exp p qmin x"
  obtain k where k: "2 powi e / 2 powi q = (of_int k :: rat)"
    using assms(3) q_def powi_integral by metis
  have "x / 2 powi q \<le> (of_int k :: rat)"
    unfolding k [symmetric] using assms(2) by (intro divide_right_mono) auto
  then have "round_even (x / 2 powi q) \<le> k"
    using round_even_mono [of _ "of_int k"] by fastforce
  then have "fround p qmin x \<le> of_int k * 2 powi q"
    using assms(1) by (simp add: fround_eq [OF _ q_def [symmetric]])
  then show ?thesis by (simp flip: k)
qed

lemma fround_nonneg: "0 \<le> x \<Longrightarrow> 0 \<le> fround p qmin x"
  using round_even_mono [of 0 "x / 2 powi ulp_exp p qmin x"] round_even_of_int [of 0]
  by (simp add: fround_def Let_def)

lemma fround_mono_pos:
  assumes "0 < x" "x \<le> y" "1 \<le> p"
  shows "fround p qmin x \<le> fround p qmin y"
proof -
  define qx qy where "qx = ulp_exp p qmin x" and "qy = ulp_exp p qmin y"
  have le: "qx \<le> qy"
    using assms ilog2_mono [of x y] by (auto simp: qx_def qy_def ulp_exp_def)
  show ?thesis
  proof (cases "qx = qy")
    case True
    have "x / 2 powi qy \<le> y / 2 powi qy" using assms by (intro divide_right_mono) auto
    then have "round_even (x / 2 powi qy) \<le> round_even (y / 2 powi qy)" by (rule round_even_mono)
    then show ?thesis
      using assms True by (simp add: fround_eq [OF _ qx_def [symmetric]] fround_eq [OF _ qy_def [symmetric]])
  next
    case False
    define e where "e = ilog2 y"
    have qy: "qy = e - p + 1" "ilog2 x < e"
      using False le assms by (auto simp: qx_def qy_def ulp_exp_def e_def max_def split: if_splits)
    have "x < 2 powi (ilog2 x + 1)" using assms by (intro ilog2_bounds)
    also have "\<dots> \<le> (2::rat) powi e" using qy by (intro power_int_increasing) auto
    finally have "fround p qmin x \<le> 2 powi e"
      using assms le qy by (intro fround_le_powi) (auto simp: qx_def)
    also have "2 powi e \<le> fround p qmin y"
      using assms qy ilog2_bounds [of y] by (intro fround_ge_powi) (auto simp: qy_def e_def)
    finally show ?thesis .
  qed
qed

lemma fround_mono:
  assumes "x \<le> y" "1 \<le> p"
  shows "fround p qmin x \<le> fround p qmin y"
proof -
  consider "0 < x" | "x \<le> 0" "0 \<le> y" | "y < 0" by linarith
  then show ?thesis
  proof cases
    case 1
    then show ?thesis using assms by (intro fround_mono_pos)
  next
    case 2
    then have "0 \<le> fround p qmin (- x)" "0 \<le> fround p qmin y" by (auto intro: fround_nonneg)
    then show ?thesis by (simp add: fround_minus)
  next
    case 3
    then have "fround p qmin (- y) \<le> fround p qmin (- x)"
      using assms by (intro fround_mono_pos) auto
    then show ?thesis by (simp add: fround_minus)
  qed
qed

lemma fround_error:
  assumes "x \<noteq> 0"
  shows "\<bar>fround p qmin x - x\<bar> \<le> 2 powi ulp_exp p qmin x / 2"
proof -
  define q where "q = ulp_exp p qmin x"
  have "fround p qmin x - x = (of_int (round_even (x / 2 powi q)) - x / 2 powi q) * 2 powi q"
    using assms by (simp add: fround_eq [OF _ q_def [symmetric]] algebra_simps)
  then have "\<bar>fround p qmin x - x\<bar> = \<bar>of_int (round_even (x / 2 powi q)) - x / 2 powi q\<bar> * 2 powi q"
    by (simp add: abs_mult)
  also have "\<dots> \<le> 1/2 * 2 powi q" by (intro mult_right_mono round_even_error) simp
  finally show ?thesis by (simp add: q_def)
qed

subsection \<open>Dividing by ten and multiplying by ten\<close>

text \<open>
  Dividing an integer by ten and multiplying the result by ten, each time rounding to
  binary32, gives the integer back. The first rounding is off by at most half a unit, which
  the factor ten turns into at most five units; the result is an even number of units away,
  so at most four, which is at most half of the unit of the product.
\<close>

abbreviation "r32 \<equiv> fround 24 (- 149)"

lemma int_multiple_powi:
  assumes "q < 0"
  obtains N where "(of_int n :: rat) = of_int N * 2 powi q" "even N"
proof -
  have "(2::rat) ^ nat (- q) * 2 powi q = 1"
    using assms by (simp add: power_int_def field_simps)
  moreover have "even (n * 2 ^ nat (- q))" using assms by simp
  ultimately show thesis by (intro that [of "n * 2 ^ nat (- q)"]) simp_all
qed

lemma even_diff_le_4:
  assumes "\<bar>of_int (10 * k - 8 * N)\<bar> \<le> (5::rat)"
  shows "\<bar>of_int (10 * k - 8 * N)\<bar> \<le> (4::rat)"
proof -
  from assms have "\<bar>10 * k - 8 * N\<bar> \<le> 5" by linarith
  then have "\<bar>10 * k - 8 * N\<bar> \<le> 4" by presburger
  then show ?thesis by linarith
qed

lemma ilog2_times_ten:
  assumes "10 * 2 powi e \<le> y" "y \<le> 20 * 2 powi e"
  shows "ilog2 y = e + 3 \<or> ilog2 y = e + 4"
proof (cases "y < 2 powi (e + 4)")
  case True
  then have "ilog2 y = e + 3" using assms by (intro ilog2_unique) (auto simp: power_int_add)
  then show ?thesis ..
next
  case False
  have "(0::rat) < 2 powi e" by simp
  with assms(2) have "y < 32 * 2 powi e" by linarith
  with False have "ilog2 y = e + 4" by (intro ilog2_unique) (auto simp: power_int_add)
  then show ?thesis ..
qed

lemma ten_times_near:
  fixes u y :: rat
  assumes u: "u = 2 powi q" and y: "y = of_int k * u * 10" and err: "\<bar>y - of_int n\<bar> \<le> 5 * u"
    and q': "q' = q + 3 \<or> q' = q + 4" and n: "of_int n = (of_int N * 2 powi q' :: rat)"
  shows "\<bar>y / 2 powi q' - of_int N\<bar> \<le> 1/2"
  using q'
proof
  have pos: "u > 0" by (simp add: u)
  {
    assume "q' = q + 3"
    then have w: "2 powi q' = 8 * u" by (simp add: u power_int_add)
    have "y - of_int n = of_int (10 * k - 8 * N) * u" by (simp add: y n w algebra_simps)
    with err pos have "\<bar>of_int (10 * k - 8 * N)\<bar> \<le> (5::rat)" by (simp add: abs_mult)
    then have "\<bar>of_int (10 * k - 8 * N)\<bar> \<le> (4::rat)" by (rule even_diff_le_4)
    moreover have "y / 2 powi q' - of_int N = of_int (10 * k - 8 * N) / 8"
      using pos by (simp add: w y field_simps)
    ultimately show ?thesis by (simp only: abs_divide) simp
  next
    assume "q' = q + 4"
    then have w: "2 powi q' = 16 * u" by (simp add: u power_int_add)
    have "y / 2 powi q' - of_int N = (y - of_int n) / (16 * u)"
      using pos n by (simp add: w field_simps)
    moreover have "\<bar>(y - of_int n) / (16 * u)\<bar> \<le> 1/2"
      unfolding abs_divide using err pos by (simp add: pos_divide_le_eq)
    ultimately show ?thesis by simp
  }
qed

lemma tenth_exponent:
  fixes n :: int
  assumes "0 < n" "n < 2 ^ 20"
  shows "- 5 < ilog2 (of_int n / 10)" and "ilog2 (of_int n / 10) < 17"
proof -
  define x where "x = (of_int n :: rat) / 10"
  have x: "1/10 \<le> x" "x < 2 ^ 17" using assms by (auto simp: x_def)
  then have e: "2 powi ilog2 x \<le> x" "x < 2 powi (ilog2 x + 1)" using ilog2_bounds [of x] by auto
  have p: "(2::rat) powi (-4) = 1/16" "(2::rat) powi 17 = 2 ^ 17"
    by (simp_all add: power_int_def power_divide)
  have "(2::rat) powi (-4) < 2 powi (ilog2 x + 1)" unfolding p using x e by linarith
  from powi_less_cancel [OF this] show "- 5 < ilog2 (of_int n / 10)" by (simp add: x_def)
  have "(2::rat) powi ilog2 x < 2 powi 17" unfolding p using x e by linarith
  from powi_less_cancel [OF this] show "ilog2 (of_int n / 10) < 17" by (simp add: x_def)
qed

lemma r32_div_mult_10_pos:
  assumes "0 < n" "n < 2 ^ 20"
  shows "r32 (r32 (of_int n / 10) * 10) = of_int n"
proof -
  define x where "x = (of_int n :: rat) / 10"
  define e where "e = ilog2 x"
  define q where "q = e - 23"
  define u where "u = (2::rat) powi q"
  define y where "y = r32 x * 10"
  have x: "0 < x" using assms by (simp add: x_def)
  have e: "2 powi e \<le> x" "x < 2 powi (e + 1)" using x ilog2_bounds [of x] by (auto simp: e_def)
  have er: "-5 < e" "e < 17" using tenth_exponent [OF assms] by (auto simp: e_def x_def)
  have q: "ulp_exp 24 (-149) x = q" using x er by (simp add: ulp_exp_def q_def e_def)
  have y: "y = of_int (round_even (x / u)) * u * 10"
    using x fround_eq [OF _ q] by (simp add: u_def y_def)
  have bounds: "10 * 2 powi e \<le> y" "y \<le> 20 * 2 powi e"
    using fround_ge_powi [of e x 24 "-149"] fround_le_powi [of x "e + 1" 24 "-149"] e x er q
    by (auto simp: y_def q_def power_int_add)
  have "\<bar>r32 x - x\<bar> \<le> u / 2" using fround_error [of x 24 "-149"] x by (simp add: q u_def)
  then have err: "\<bar>y - of_int n\<bar> \<le> 5 * u" by (simp add: y_def x_def abs_if split: if_splits)
  have pos: "0 < y" using bounds(1) by (rule less_le_trans [rotated]) simp
  then obtain q' where q': "ulp_exp 24 (-149) y = q'" "q' = q + 3 \<or> q' = q + 4"
    using er ilog2_times_ten [OF bounds] by (auto simp: ulp_exp_def q_def)
  obtain N where N: "(of_int n :: rat) = of_int N * 2 powi q'" "even N"
    by (rule int_multiple_powi [of q' n]) (use q' er in \<open>auto simp: q_def\<close>)
  have "round_even (y / 2 powi q') = N"
    using ten_times_near [OF u_def y err q'(2) N(1)] N(2) by (rule round_even_tie)
  then have "r32 y = of_int n" using pos N(1) fround_eq [OF _ q'(1)] by simp
  then show ?thesis by (simp add: y_def x_def)
qed

lemma r32_div_mult_10:
  assumes "\<bar>n\<bar> < 2 ^ 20"
  shows "r32 (r32 (of_int n / 10) * 10) = of_int n"
proof -
  consider "0 < n" | "n = 0" | "0 < - n" by linarith
  then show ?thesis
  proof cases
    case 1
    then show ?thesis using assms by (intro r32_div_mult_10_pos) auto
  next
    case 2
    then show ?thesis by simp
  next
    case 3
    then have "r32 (r32 (of_int (- n) / 10) * 10) = of_int (- n)"
      using assms by (intro r32_div_mult_10_pos) auto
    then show ?thesis using fround_minus [of 24 "-149"] by simp
  qed
qed

section \<open>Values and operations\<close>

text \<open>\<open>Inf True\<close> is the negative infinity.\<close>

datatype fp = Fin rat | Inf bool | NaN

definition fp_round :: "int \<Rightarrow> int \<Rightarrow> int \<Rightarrow> rat \<Rightarrow> fp" where
  "fp_round p qmin emax x =
     (let r = fround p qmin x in if 2 powi emax \<le> \<bar>r\<bar> then Inf (r < 0) else Fin r)"

definition f32 :: "rat \<Rightarrow> fp" where
  "f32 = fp_round 24 (- 149) 128"

definition f64 :: "rat \<Rightarrow> fp" where
  "f64 = fp_round 53 (- 1074) 1024"

text \<open>The operations of either width, for the rounding \<open>R\<close> of that width.\<close>

fun fp_neg :: "fp \<Rightarrow> fp" where
  "fp_neg (Fin x) = Fin (- x)"
| "fp_neg (Inf s) = Inf (\<not> s)"
| "fp_neg NaN = NaN"

fun fp_add :: "(rat \<Rightarrow> fp) \<Rightarrow> fp \<Rightarrow> fp \<Rightarrow> fp" where
  "fp_add R (Fin x) (Fin y) = R (x + y)"
| "fp_add R (Inf s) (Inf t) = (if s = t then Inf s else NaN)"
| "fp_add R (Inf s) (Fin y) = Inf s"
| "fp_add R (Fin x) (Inf t) = Inf t"
| "fp_add R _ _ = NaN"

definition fp_sub :: "(rat \<Rightarrow> fp) \<Rightarrow> fp \<Rightarrow> fp \<Rightarrow> fp" where
  "fp_sub R a b = fp_add R a (fp_neg b)"

fun fp_mult :: "(rat \<Rightarrow> fp) \<Rightarrow> fp \<Rightarrow> fp \<Rightarrow> fp" where
  "fp_mult R (Fin x) (Fin y) = R (x * y)"
| "fp_mult R (Inf s) (Inf t) = Inf (s \<noteq> t)"
| "fp_mult R (Inf s) (Fin y) = (if y = 0 then NaN else Inf (s \<noteq> (y < 0)))"
| "fp_mult R (Fin x) (Inf t) = (if x = 0 then NaN else Inf (t \<noteq> (x < 0)))"
| "fp_mult R _ _ = NaN"

fun fp_div :: "(rat \<Rightarrow> fp) \<Rightarrow> fp \<Rightarrow> fp \<Rightarrow> fp" where
  "fp_div R (Fin x) (Fin y) =
     (if y = 0 then (if x = 0 then NaN else Inf (x < 0)) else R (x / y))"
| "fp_div R (Inf s) (Inf t) = NaN"
| "fp_div R (Inf s) (Fin y) = Inf (s \<noteq> (y < 0))"
| "fp_div R (Fin x) (Inf t) = Fin 0"
| "fp_div R _ _ = NaN"

fun fp_less :: "fp \<Rightarrow> fp \<Rightarrow> bool" where
  "fp_less (Fin x) (Fin y) = (x < y)"
| "fp_less (Inf s) (Inf t) = (s \<and> \<not> t)"
| "fp_less (Inf s) (Fin y) = s"
| "fp_less (Fin x) (Inf t) = (\<not> t)"
| "fp_less _ _ = False"

fun fp_abs :: "fp \<Rightarrow> fp" where
  "fp_abs (Fin x) = Fin \<bar>x\<bar>"
| "fp_abs (Inf s) = Inf False"
| "fp_abs NaN = NaN"

text \<open>\<open>static_cast<float>\<close> of a \<open>double\<close>, and of an integer.\<close>

fun fp_to_f32 :: "fp \<Rightarrow> fp" where
  "fp_to_f32 (Fin x) = f32 x"
| "fp_to_f32 (Inf s) = Inf s"
| "fp_to_f32 NaN = NaN"

definition f32_of_int :: "int \<Rightarrow> fp" where
  "f32_of_int i = f32 (of_int i)"

text \<open>
  \<open>static_cast<int16_t>\<close> of a floating-point value drops the fraction; where the integer part
  does not fit (or there is none) the C++ standard leaves the behaviour undefined: \<open>None\<close>.
\<close>

definition truncate :: "rat \<Rightarrow> int" where
  "truncate x = (if 0 \<le> x then \<lfloor>x\<rfloor> else \<lceil>x\<rceil>)"

fun fp_to_i16 :: "fp \<Rightarrow> i16 option" where
  "fp_to_i16 (Fin x) =
     (let i = truncate x in if - 32768 \<le> i \<and> i \<le> 32767 then Some (word_of_int i) else None)"
| "fp_to_i16 (Inf s) = None"
| "fp_to_i16 NaN = None"

text \<open>The same conversion to \<open>uint16_t\<close>.\<close>

fun fp_to_u16 :: "fp \<Rightarrow> u16 option" where
  "fp_to_u16 (Fin x) = (let i = truncate x in if 0 \<le> i \<and> i \<le> 65535 then Some (word_of_int i) else None)"
| "fp_to_u16 (Inf s) = None"
| "fp_to_u16 NaN = None"

subsection \<open>Exact results\<close>

lemma short_int: "\<bar>m\<bar> < 2 ^ 24 \<Longrightarrow> \<bar>of_int m\<bar> < (2::rat) powi 24"
  by (simp flip: of_int_abs)

lemma f32_exact:
  assumes "x = of_int m * 2 powi q" "\<bar>m\<bar> < 2 ^ 24" "- 149 \<le> q" "q \<le> 100"
  shows "f32 x = Fin x"
proof -
  have m: "\<bar>of_int m\<bar> < (2::rat) powi 24" using assms(2) by (rule short_int)
  then have r: "r32 x = x" using assms by (intro fround_exact) auto
  have "\<bar>x\<bar> < 2 powi 24 * 2 powi q" using m assms(1) by (simp add: abs_mult)
  also have "\<dots> \<le> (2::rat) powi 128"
    using assms(4) power_int_increasing [of "24 + q" 128 "2::rat"] by (simp add: power_int_add)
  finally show ?thesis by (simp add: f32_def fp_round_def Let_def r)
qed

lemma f32_of_short_int [fp_simps]: "\<bar>n\<bar> < 2 ^ 24 \<Longrightarrow> f32 (of_int n) = Fin (of_int n)"
  by (rule f32_exact [where m = n and q = 0]) auto

lemma f32_numeral [fp_simps]: "numeral k < (2::int) ^ 24 \<Longrightarrow> f32 (numeral k) = Fin (numeral k)"
  using f32_of_short_int [of "numeral k"] by simp

text \<open>Rounding stays between two short numbers.\<close>

lemma f32_between:
  assumes "of_int a \<le> x" "x \<le> of_int b" "\<bar>a\<bar> < 2 ^ 24" "\<bar>b\<bar> < 2 ^ 24"
  obtains y where "f32 x = Fin y" "of_int a \<le> y" "y \<le> of_int b" "y = r32 x"
proof -
  have ex: "r32 (of_int c) = of_int c" if "\<bar>c\<bar> < 2 ^ 24" for c
    using that by (intro fround_exact [where m = c and q = 0] short_int) auto
  have "of_int a \<le> r32 x" "r32 x \<le> of_int b"
    using fround_mono [OF assms(1), of 24 "-149"] fround_mono [OF assms(2), of 24 "-149"]
      ex [OF assms(3)] ex [OF assms(4)] by auto
  moreover have "\<bar>r32 x\<bar> < 2 powi 128"
  proof -
    have "of_int a > (- 16777216 :: rat)" "of_int b < (16777216 :: rat)" using assms(3,4) by auto
    with calculation show ?thesis by (simp add: abs_less_iff)
  qed
  ultimately show thesis by (intro that [of "r32 x"]) (auto simp: f32_def fp_round_def Let_def)
qed

lemma truncate_between: "of_int a \<le> x \<Longrightarrow> x \<le> of_int b \<Longrightarrow> 0 \<le> a \<Longrightarrow> a \<le> truncate x \<and> truncate x \<le> b"
  by (auto simp: truncate_def le_floor_iff floor_le_iff)

lemma truncate_of_int [simp]: "truncate (of_int n) = n"
  by (simp add: truncate_def)

text \<open>Results of moderate size do not overflow a \<open>double\<close>.\<close>

lemma f64_eq:
  assumes "fround 53 (- 1074) x = y" "\<bar>y\<bar> < 2 ^ 100"
  shows "f64 x = Fin y"
proof -
  have "(2::rat) powi 100 \<le> 2 powi 1024" by (rule power_int_increasing) auto
  with assms show ?thesis by (simp add: f64_def fp_round_def Let_def)
qed

end
