(* ===== verification/Device.thy ===== *)
theory Device
  imports Ieee_Float
begin

text \<open>
  The device seen by the program: the constants of \<open>include/config.h\<close>, the temperature
  scaling of the registers, the client interface of \<open>include/modbus/IModbusClient.hpp\<close> as a
  record of operations on a client state, and the contract of a client that reaches a
  working device, as a locale.
\<close>

section \<open>Constants\<close>

abbreviation MODBUS_SLAVE_ID :: u8 where "MODBUS_SLAVE_ID \<equiv> 11"
abbreviation DHW_TEMP_MIN :: fp where "DHW_TEMP_MIN \<equiv> Fin 40"
abbreviation DHW_TEMP_MAX :: fp where "DHW_TEMP_MAX \<equiv> Fin 63"
abbreviation HEATING_TEMP_MIN :: fp where "HEATING_TEMP_MIN \<equiv> Fin 25"
abbreviation HEATING_TEMP_MAX :: fp where "HEATING_TEMP_MAX \<equiv> Fin 63"
abbreviation MODBUS_MAX_RETRIES :: nat where "MODBUS_MAX_RETRIES \<equiv> 3"

definition ESTIMATED_POWER_FACTOR :: fp where
  "ESTIMATED_POWER_FACTOR = f32 (9 / 10)"

abbreviation MODE_SET_OFF :: int where "MODE_SET_OFF \<equiv> 0"
abbreviation MODE_SET_COOL_DHW :: int where "MODE_SET_COOL_DHW \<equiv> 1"
abbreviation MODE_SET_HEAT_DHW :: int where "MODE_SET_HEAT_DHW \<equiv> 2"

abbreviation MODE_STATUS_OFF :: int where "MODE_STATUS_OFF \<equiv> 0"
abbreviation MODE_STATUS_COOL :: int where "MODE_STATUS_COOL \<equiv> 1"
abbreviation MODE_STATUS_HEAT :: int where "MODE_STATUS_HEAT \<equiv> 2"
abbreviation MODE_STATUS_DHW :: int where "MODE_STATUS_DHW \<equiv> 4"
abbreviation MODE_STATUS_DEFROST :: int where "MODE_STATUS_DEFROST \<equiv> 7"
abbreviation MODE_STATUS_ANTIFREEZE :: int where "MODE_STATUS_ANTIFREEZE \<equiv> 20"

abbreviation REG_OUTDOOR_TEMP :: u16 where "REG_OUTDOOR_TEMP \<equiv> 0x0001"
abbreviation REG_INDOOR_TEMP :: u16 where "REG_INDOOR_TEMP \<equiv> 0x0002"
abbreviation REG_ENTERING_WATER_TEMP :: u16 where "REG_ENTERING_WATER_TEMP \<equiv> 0x0003"
abbreviation REG_LEAVING_WATER_TEMP :: u16 where "REG_LEAVING_WATER_TEMP \<equiv> 0x0004"
abbreviation REG_RUNNING_STATUS :: u16 where "REG_RUNNING_STATUS \<equiv> 0x002D"
abbreviation REG_DHW_MODE_STATUS :: u16 where "REG_DHW_MODE_STATUS \<equiv> 0x00C9"
abbreviation REG_DHW_PRIORITY :: u16 where "REG_DHW_PRIORITY \<equiv> 0x02BF"
abbreviation REG_RUNNING_MODE :: u16 where "REG_RUNNING_MODE \<equiv> 0x002C"
abbreviation REG_HEATING_TARGET :: u16 where "REG_HEATING_TARGET \<equiv> 0x0191"
abbreviation REG_DHW_TARGET :: u16 where "REG_DHW_TARGET \<equiv> 0x0194"
abbreviation REG_DHW_VALVE_STATUS :: u16 where "REG_DHW_VALVE_STATUS \<equiv> 0x00D2"
abbreviation REG_OCCUPANCY_MODE :: u16 where "REG_OCCUPANCY_MODE \<equiv> 0x0029"
abbreviation REG_AC_CURRENT :: u16 where "REG_AC_CURRENT \<equiv> 0x1014"
abbreviation REG_DC_CURRENT :: u16 where "REG_DC_CURRENT \<equiv> 0x1015"
abbreviation REG_AC_VOLTAGE :: u16 where "REG_AC_VOLTAGE \<equiv> 0x1016"
abbreviation REG_DC_VOLTAGE :: u16 where "REG_DC_VOLTAGE \<equiv> 0x1017"
abbreviation REG_UNIT_CAPACITY :: u16 where "REG_UNIT_CAPACITY \<equiv> 0x1006"
abbreviation REG_DEVICE_TYPE :: u16 where "REG_DEVICE_TYPE \<equiv> REG_UNIT_CAPACITY"
abbreviation REG_COMPRESSOR_FREQ :: u16 where "REG_COMPRESSOR_FREQ \<equiv> 0x0017"
abbreviation REG_WATER_FLOW :: u16 where "REG_WATER_FLOW \<equiv> 0x102A"
abbreviation REG_ACTUAL_CAPACITY_OUTPUT :: u16 where "REG_ACTUAL_CAPACITY_OUTPUT \<equiv> 0x1004"
abbreviation REG_ODU_INPUT_STATUS :: u16 where "REG_ODU_INPUT_STATUS \<equiv> 0x101F"
abbreviation REG_COMPRESSOR_RUNTIME :: u16 where "REG_COMPRESSOR_RUNTIME \<equiv> 0x0174"
abbreviation REG_PUMP_RUNTIME :: u16 where "REG_PUMP_RUNTIME \<equiv> 0x0176"
abbreviation REG_DHW_TANK_TEMP :: u16 where "REG_DHW_TANK_TEMP \<equiv> 0x00CE"

abbreviation SELFTEST_DHW_TARGET_TEMP :: fp where "SELFTEST_DHW_TARGET_TEMP \<equiv> Fin 45"
abbreviation DHW_TARGET_MIN :: fp where "DHW_TARGET_MIN \<equiv> Fin 40"
abbreviation HEATING_TARGET_MIN :: fp where "HEATING_TARGET_MIN \<equiv> Fin 25"

section \<open>Temperatures in tenths of a degree\<close>

definition raw_to_temp :: "i16 \<Rightarrow> fp" where
  "raw_to_temp raw = fp_div f32 (f32_of_int (sint raw)) (Fin 10)"

text \<open>\<open>None\<close>: the value does not fit an \<open>int16_t\<close> and the conversion is undefined behaviour.\<close>

definition temp_to_raw :: "fp \<Rightarrow> i16 option" where
  "temp_to_raw temp = fp_to_i16 (fp_mult f32 temp (Fin 10))"

lemma sint_i16_range: "- 32768 \<le> sint (w::i16)" "sint (w::i16) \<le> 32767"
  using sint_greater_eq [of w] sint_less [of w] by simp_all

lemma word_of_sint: "word_of_int (sint w) = (w::i16)"
  by simp

lemma raw_to_temp_eq: "raw_to_temp raw = Fin (r32 (of_int (sint raw) / 10))"
proof -
  define n where "n = sint raw"
  have n: "- 32768 \<le> n" "n \<le> 32767" using sint_i16_range [of raw] by (auto simp: n_def)
  then have i: "\<bar>n\<bar> < 2 ^ 24" by auto
  have "of_int (- 32768) \<le> (of_int n :: rat)" "of_int n \<le> (of_int 32767 :: rat)"
    using n by (simp_all only: of_int_le_iff)
  then have "of_int (- 32768) \<le> (of_int n / 10 :: rat)" "of_int n / 10 \<le> (of_int 32767 :: rat)"
    by auto
  then obtain y where "f32 (of_int n / 10) = Fin y" "y = r32 (of_int n / 10)"
    by (rule f32_between) auto
  then show ?thesis by (simp add: raw_to_temp_def f32_of_int_def f32_of_short_int [OF i] flip: n_def)
qed

lemma temp_to_raw_raw_to_temp: "temp_to_raw (raw_to_temp raw) = Some raw"
proof -
  define n where "n = sint raw"
  have n: "- 32768 \<le> n" "n \<le> 32767" using sint_i16_range [of raw] by (auto simp: n_def)
  have r: "r32 (r32 (of_int n / 10) * 10) = of_int n" using n by (intro r32_div_mult_10) auto
  then have "f32 (r32 (of_int n / 10) * 10) = Fin (of_int n)"
    using n by (simp add: f32_def fp_round_def Let_def abs_if)
  then show ?thesis
    using n by (simp add: temp_to_raw_def raw_to_temp_eq n_def [symmetric] Let_def)
      (simp add: n_def)
qed

text \<open>A setpoint between whole degrees \<open>a\<close> and \<open>b\<close> becomes a raw value between \<open>10 a\<close> and \<open>10 b\<close>.\<close>

lemma temp_to_raw_between:
  assumes "of_int a \<le> x" "x \<le> of_int b" "0 \<le> a" "b \<le> 3000"
  obtains w where "temp_to_raw (Fin x) = Some w" "10 * a \<le> sint w" "sint w \<le> 10 * b"
proof -
  have ab: "a \<le> b" using assms by (metis of_int_le_iff order_trans)
  have "of_int (10 * a) \<le> x * 10" "x * 10 \<le> of_int (10 * b)" using assms by auto
  then obtain y where y: "f32 (x * 10) = Fin y" "of_int (10 * a) \<le> y" "y \<le> of_int (10 * b)"
    by (rule f32_between) (use assms ab in auto)
  then have t: "10 * a \<le> truncate y" "truncate y \<le> 10 * b"
    using truncate_between [of "10 * a" y "10 * b"] assms by auto
  then have "temp_to_raw (Fin x) = Some (word_of_int (truncate y))"
    using assms ab y(1) by (simp add: temp_to_raw_def Let_def)
  moreover have "sint (word_of_int (truncate y) :: i16) = truncate y"
    using t assms ab by (simp add: sint_sbintrunc' signed_take_bit_int_eq_self)
  ultimately show thesis using t by (intro that) auto
qed

section \<open>The client interface\<close>

datatype ModbusException = ModbusException string

text \<open>
  \<open>IModbusClient\<close>: the virtual member functions as operations on the state \<open>'c\<close> of a client
  and of whatever it talks to. A throwing call returns \<open>Inl\<close>.
\<close>

record 'c IModbusClient =
  m_connect :: "'c \<Rightarrow> bool \<times> 'c"
  m_disconnect :: "'c \<Rightarrow> 'c"
  m_isConnected :: "'c \<Rightarrow> bool"
  m_readRegister :: "u16 \<Rightarrow> 'c \<Rightarrow> (ModbusException, i16, 'c) outcome"
  m_writeRegister :: "u16 \<Rightarrow> u16 \<Rightarrow> 'c \<Rightarrow> (ModbusException, unit, 'c) outcome"
  m_flushBuffer :: "'c \<Rightarrow> 'c"
  m_getLastError :: "'c \<Rightarrow> string"

text \<open>
  The contract of a client in a good state (\<open>ready\<close>) with a device whose registers in \<open>held\<close>
  change only when written: reads of \<open>readable\<close> registers succeed, reads of held registers
  give the stored value, writes to held registers succeed and store the value.
\<close>

locale held_registers =
  fixes ops :: "'c IModbusClient"
    and ready :: "'c \<Rightarrow> bool"
    and reg :: "'c \<Rightarrow> u16 \<Rightarrow> i16"
    and held :: "u16 set"
    and readable :: "u16 set"
  assumes connected: "ready c \<Longrightarrow> m_isConnected ops c"
    and read_ok: "ready c \<Longrightarrow> a \<in> readable \<Longrightarrow> \<exists>v c'. m_readRegister ops a c = (Inr v, c')"
    and read_keeps:
      "ready c \<Longrightarrow> m_readRegister ops a c = (r, c') \<Longrightarrow> ready c' \<and> (\<forall>s \<in> held. reg c' s = reg c s)"
    and read_held:
      "ready c \<Longrightarrow> a \<in> held \<Longrightarrow> m_readRegister ops a c = (Inr v, c') \<Longrightarrow> v = reg c a"
    and write_held:
      "ready c \<Longrightarrow> a \<in> held \<Longrightarrow>
         \<exists>c'. m_writeRegister ops a v c = (Inr (), c') \<and> ready c' \<and>
              (\<forall>s \<in> held. reg c' s = ((reg c)(a := v)) s)"


section \<open>Recording what a client is asked to do\<close>

text \<open>
  A client together with the calls made to it, the newest first. The registers and values it
  is asked to write, and the values it has reported, are read off this record.
\<close>

datatype client_event =
    Ev_connect bool | Ev_disconnect | Ev_flush
  | Ev_read u16 "ModbusException + i16" | Ev_write u16 u16

definition logged :: "'c IModbusClient \<Rightarrow> ('c \<times> client_event list) IModbusClient" where
  "logged ops =
     \<lparr>m_connect = (\<lambda>(c, l). case m_connect ops c of (b, c') \<Rightarrow> (b, (c', Ev_connect b # l))),
      m_disconnect = (\<lambda>(c, l). (m_disconnect ops c, Ev_disconnect # l)),
      m_isConnected = (\<lambda>(c, l). m_isConnected ops c),
      m_readRegister = (\<lambda>a (c, l). case m_readRegister ops a c of (r, c') \<Rightarrow> (r, (c', Ev_read a r # l))),
      m_writeRegister = (\<lambda>a v (c, l). case m_writeRegister ops a v c of (r, c') \<Rightarrow> (r, (c', Ev_write a v # l))),
      m_flushBuffer = (\<lambda>(c, l). (m_flushBuffer ops c, Ev_flush # l)),
      m_getLastError = (\<lambda>(c, l). m_getLastError ops c)\<rparr>"

definition reported :: "client_event list \<Rightarrow> u16 \<Rightarrow> i16 set" where
  "reported l a =
     set (concat (map (\<lambda>e. case e of Ev_read b (Inr v) \<Rightarrow> if b = a then [v] else [] | _ \<Rightarrow> []) l))"

text \<open>
  The values the controller may ask the device to store: mode off or heating with hot water,
  setpoints in the range of the device's specification or ones the device itself reported,
  the two priorities and the three occupancy modes.
\<close>

definition safe_write :: "(u16 \<Rightarrow> i16 set) \<Rightarrow> u16 \<Rightarrow> u16 \<Rightarrow> bool" where
  "safe_write seen a v \<longleftrightarrow>
     a = REG_RUNNING_MODE \<and> v \<in> {0, 2} \<or>
     a = REG_DHW_TARGET \<and> (400 \<le> sint v \<and> sint v \<le> 630 \<or> v \<in> seen a) \<or>
     a = REG_HEATING_TARGET \<and> (250 \<le> sint v \<and> sint v \<le> 630 \<or> v \<in> seen a) \<or>
     a = REG_DHW_PRIORITY \<and> v \<in> {0, 1} \<or>
     a = REG_OCCUPANCY_MODE \<and> v \<in> {0, 1, 2}"

fun writes_ok :: "client_event list \<Rightarrow> bool" where
  "writes_ok [] = True"
| "writes_ok (Ev_write a v # l) = (safe_write (reported l) a v \<and> writes_ok l)"
| "writes_ok (_ # l) = writes_ok l"

lemma reported_Nil [simp]: "reported [] a = {}"
  by (simp add: reported_def)

lemma reported_Cons [simp]:
  "reported (e # l) a = (case e of Ev_read b (Inr v) \<Rightarrow> if b = a then insert v (reported l a) else reported l a
     | _ \<Rightarrow> reported l a)"
  by (auto simp: reported_def split: client_event.split sum.split)

text \<open>
  The contract of a client whose invariant survives every call as long as the values written
  are safe, \<open>seen\<close> being the values it has reported.
\<close>

locale write_guard =
  fixes ops :: "'c IModbusClient"
    and good :: "'c \<Rightarrow> bool"
    and seen :: "'c \<Rightarrow> u16 \<Rightarrow> i16 set"
  assumes connect_inv: "good c \<Longrightarrow> m_connect ops c = (b, c') \<Longrightarrow> good c' \<and> seen c \<le> seen c'"
    and read_inv: "good c \<Longrightarrow> m_readRegister ops a c = (r, c') \<Longrightarrow> good c' \<and> seen c \<le> seen c'"
    and read_seen: "good c \<Longrightarrow> m_readRegister ops a c = (Inr v, c') \<Longrightarrow> v \<in> seen c' a"
    and write_inv:
      "good c \<Longrightarrow> safe_write (seen c) a v \<Longrightarrow> m_writeRegister ops a v c = (w, c') \<Longrightarrow>
         good c' \<and> seen c \<le> seen c'"

locale closing_guard = write_guard ops good seen
  for ops :: "'c IModbusClient" and good :: "'c \<Rightarrow> bool" and seen :: "'c \<Rightarrow> u16 \<Rightarrow> i16 set" +
  assumes disconnect_inv: "good c \<Longrightarrow> good (m_disconnect ops c)"

interpretation lg: closing_guard "logged ops" "\<lambda>c. writes_ok (snd c)" "\<lambda>c. reported (snd c)"
  for ops :: "'c IModbusClient"
  by unfold_locales (auto simp: logged_def le_fun_def split: prod.splits sum.split)


text \<open>A plain bank of registers, always connected: the client of the concrete runs.\<close>

definition bank_ops :: "(u16 \<Rightarrow> i16) IModbusClient" where
  "bank_ops =
     \<lparr>m_connect = (\<lambda>r. (True, r)), m_disconnect = (\<lambda>r. r), m_isConnected = (\<lambda>r. True),
      m_readRegister = (\<lambda>a r. (Inr (r a), r)), m_writeRegister = (\<lambda>a v r. (Inr (), r(a := v))),
      m_flushBuffer = (\<lambda>r. r), m_getLastError = (\<lambda>r. [])\<rparr>"

section \<open>Properties\<close>

text \<open>
  A temperature register value converted to \<open>float\<close> degrees and back is the same register
  value, for every one of the 65536 values: what the loop reads as a target and restores later
  is written back unchanged.
\<close>

theorem temperature_roundtrip: "temp_to_raw (raw_to_temp raw) = Some raw"
  by (rule temp_to_raw_raw_to_temp)

text \<open>
  A setpoint in the range the web interface accepts, any \<open>float\<close> between whole degrees \<open>lo\<close>
  and \<open>hi\<close> with \<open>0 \<le> lo\<close> and \<open>hi \<le> 3000\<close>, converts without undefined behaviour to a register
  value between \<open>10 lo\<close> and \<open>10 hi\<close>.
\<close>

theorem setpoint_in_range:
  assumes "of_int lo \<le> x" "x \<le> of_int hi" "0 \<le> lo" "hi \<le> 3000"
  shows "\<exists>w. temp_to_raw (Fin x) = Some w \<and> 10 * lo \<le> sint w \<and> sint w \<le> 10 * hi"
  using assms by (rule temp_to_raw_between) auto

theorem setpoint_in_range_witness:
  "\<exists>w. temp_to_raw (Fin (91 / 2)) = Some w \<and> 10 * 40 \<le> sint w \<and> sint w \<le> 10 * 63"
  by (rule setpoint_in_range) simp_all

end
