(* ===== verification/Ring.thy ===== *)
theory Ring
  imports Prelude
begin

text \<open>
  What the ring buffers of the sources share: the list that a ring of \<open>N\<close> slots holds
  between its head and its tail index, how storing and fetching change it, and the contract
  of a bounded first-in-first-out queue as a locale, with the facts its clients use.
\<close>

section \<open>The contents of a ring\<close>

definition ring_len :: "nat \<Rightarrow> nat \<Rightarrow> nat \<Rightarrow> nat" where
  "ring_len N h t = (if h \<le> t then t - h else t + N - h)"

definition ring_list :: "nat \<Rightarrow> 'a list \<Rightarrow> nat \<Rightarrow> nat \<Rightarrow> 'a list" where
  "ring_list N buf h t = map (\<lambda>i. buf ! ((h + i) mod N)) [0..<ring_len N h t]"

lemma length_ring_list [simp]: "length (ring_list N buf h t) = ring_len N h t"
  by (simp add: ring_list_def)

lemma ring_len_bound: "h < N \<Longrightarrow> t < N \<Longrightarrow> ring_len N h t < N"
  by (auto simp: ring_len_def)

lemma ring_len_0: "h < N \<Longrightarrow> t < N \<Longrightarrow> ring_len N h t = 0 \<longleftrightarrow> h = t"
  by (auto simp: ring_len_def)

lemma ring_list_Nil [simp]: "ring_list N buf h h = []"
  by (simp add: ring_list_def ring_len_def)

definition next_idx :: "nat \<Rightarrow> nat \<Rightarrow> nat" where
  "next_idx N i = (i + 1) mod N"

lemma next_idx_if: "i < N \<Longrightarrow> next_idx N i = (if i + 1 = N then 0 else i + 1)"
  by (auto simp: next_idx_def)

lemma next_idx_less: "0 < N \<Longrightarrow> next_idx N i < N"
  by (simp add: next_idx_def)

lemma ring_len_tail:
  "h < N \<Longrightarrow> t < N \<Longrightarrow> next_idx N t \<noteq> h \<Longrightarrow> ring_len N h (next_idx N t) = Suc (ring_len N h t)"
  by (auto simp: ring_len_def next_idx_if split: if_splits)

lemma ring_len_head:
  "h < N \<Longrightarrow> t < N \<Longrightarrow> h \<noteq> t \<Longrightarrow> ring_len N h t = Suc (ring_len N (next_idx N h) t)"
  by (auto simp: ring_len_def next_idx_if split: if_splits)

lemma ring_full_iff:
  "h < N \<Longrightarrow> t < N \<Longrightarrow> next_idx N t = h \<longleftrightarrow> ring_len N h t = N - 1"
  by (auto simp: ring_len_def next_idx_if split: if_splits)

lemma mod_wrap: "h < N \<Longrightarrow> i < N \<Longrightarrow> (h + i) mod N = (if h + i < N then h + i else h + i - (N::nat))"
  by (simp add: mod_if)

lemma ring_slot:
  assumes "h < N" "t < N" "i \<le> ring_len N h t"
  shows "(h + i) mod N = t \<longleftrightarrow> i = ring_len N h t"
proof -
  have "i < N" using assms ring_len_bound [of h N t] by simp
  then show ?thesis using assms by (auto simp: mod_wrap ring_len_def split: if_splits)
qed

lemma ring_list_store_other:
  assumes "h < N" "t < N"
  shows "ring_list N (buf[t := x]) h t = ring_list N buf h t"
proof -
  have "t \<noteq> (h + i) mod N" if "i < ring_len N h t" for i
    using that assms ring_slot [of h N t i] by auto
  then show ?thesis by (simp add: ring_list_def)
qed

lemma ring_list_extend:
  assumes "h < N" "t < N" "next_idx N t \<noteq> h"
  shows "ring_list N buf h (next_idx N t) = ring_list N buf h t @ [buf ! t]"
proof -
  have "(h + ring_len N h t) mod N = t"
    using assms ring_slot [of h N t "ring_len N h t"] by simp
  then show ?thesis using assms by (simp add: ring_list_def ring_len_tail)
qed

lemma ring_list_push:
  assumes "length buf = N" "h < N" "t < N" "next_idx N t \<noteq> h"
  shows "ring_list N (buf[t := x]) h (next_idx N t) = ring_list N buf h t @ [x]"
  using assms by (simp add: ring_list_extend ring_list_store_other)

lemma ring_list_pop:
  assumes "h < N" "t < N" "h \<noteq> t"
  shows "ring_list N buf h t = buf ! h # ring_list N buf (next_idx N h) t"
proof -
  have "ring_list N buf h t
      = map (\<lambda>i. buf ! ((h + i) mod N)) (0 # map Suc [0..<ring_len N (next_idx N h) t])"
    using assms by (simp add: ring_list_def ring_len_head upt_conv_Cons map_Suc_upt del: upt_Suc)
  also have "\<dots> = buf ! h # ring_list N buf (next_idx N h) t"
    using assms by (simp add: ring_list_def next_idx_def mod_add_left_eq)
  finally show ?thesis .
qed

section \<open>Bounded queues\<close>

text \<open>
  The contract that the producer and the consumer of a bounded queue rely on. \<open>push\<close> says
  whether it stored the item; \<open>pop\<close> gives the oldest item or nothing. The lemmas proved from
  the contract alone are the ones the control loop and the web server use.
\<close>

datatype 'a queue_op = Push 'a | Pop

datatype 'a queue_out = Pushed bool | Popped "'a option"

primrec run_ops :: "('a \<Rightarrow> 'q \<Rightarrow> bool \<times> 'q) \<Rightarrow> ('q \<Rightarrow> 'a option \<times> 'q) \<Rightarrow> 'a queue_op list \<Rightarrow> 'q \<Rightarrow> 'a queue_out list \<times> 'q" where
  "run_ops push pop [] q = ([], q)"
| "run_ops push pop (op # ops) q =
     (case op of
        Push x \<Rightarrow> (case push x q of (b, q) \<Rightarrow> case run_ops push pop ops q of (outs, q) \<Rightarrow> (Pushed b # outs, q))
      | Pop \<Rightarrow> (case pop q of (r, q) \<Rightarrow> case run_ops push pop ops q of (outs, q) \<Rightarrow> (Popped r # outs, q)))"

text \<open>\<open>fifo_run\<close>: what a list of at most \<open>cap\<close> items answers to the same calls.\<close>

fun fifo_run :: "nat \<Rightarrow> 'a queue_op list \<Rightarrow> 'a list \<Rightarrow> 'a queue_out list" where
  "fifo_run cap [] xs = []"
| "fifo_run cap (Push x # ops) xs =
     (if length xs < cap then Pushed True # fifo_run cap ops (xs @ [x]) else Pushed False # fifo_run cap ops xs)"
| "fifo_run cap (Pop # ops) [] = Popped None # fifo_run cap ops []"
| "fifo_run cap (Pop # ops) (x # xs) = Popped (Some x) # fifo_run cap ops xs"

locale bounded_fifo =
  fixes push :: "'a \<Rightarrow> 'q \<Rightarrow> bool \<times> 'q"
    and pop :: "'q \<Rightarrow> 'a option \<times> 'q"
    and contents :: "'q \<Rightarrow> 'a list"
    and invar :: "'q \<Rightarrow> bool"
    and cap :: nat
  assumes push_ok:
      "invar q \<Longrightarrow> length (contents q) < cap \<Longrightarrow>
         \<exists>q'. push x q = (True, q') \<and> contents q' = contents q @ [x] \<and> invar q'"
    and push_full: "invar q \<Longrightarrow> cap \<le> length (contents q) \<Longrightarrow> push x q = (False, q)"
    and pop_empty: "invar q \<Longrightarrow> contents q = [] \<Longrightarrow> pop q = (None, q)"
    and pop_some:
      "invar q \<Longrightarrow> contents q = x # xs \<Longrightarrow>
         \<exists>q'. pop q = (Some x, q') \<and> contents q' = xs \<and> invar q'"
    and contents_cap: "invar q \<Longrightarrow> length (contents q) \<le> cap"
begin

lemma push_cases:
  assumes "invar q"
  obtains (stored) q' where "push x q = (True, q')" "contents q' = contents q @ [x]" "invar q'"
      "length (contents q) < cap"
    | (full) "push x q = (False, q)" "length (contents q) = cap"
  using push_ok [OF assms, of x] push_full [OF assms, of x] contents_cap [OF assms]
  by (metis le_antisym not_le)

lemma pop_cases:
  assumes "invar q"
  obtains (some) x xs q' where "pop q = (Some x, q')" "contents q = x # xs" "contents q' = xs" "invar q'"
    | (none) "pop q = (None, q)" "contents q = []"
  using pop_empty [OF assms] pop_some [OF assms] by (cases "contents q") auto

lemma push_invar: "invar q \<Longrightarrow> push x q = (b, q') \<Longrightarrow> invar q'"
  by (rule push_cases [of q x]) auto

lemma pop_invar: "invar q \<Longrightarrow> pop q = (r, q') \<Longrightarrow> invar q'"
  by (rule pop_cases [of q]) auto

lemma push_true_iff: "invar q \<Longrightarrow> fst (push x q) \<longleftrightarrow> length (contents q) < cap"
  by (erule push_cases [of q x]) auto

lemma pop_none_iff: "invar q \<Longrightarrow> fst (pop q) = None \<longleftrightarrow> contents q = []"
  by (erule pop_cases) auto

text \<open>A run of pushes that fits keeps the order, and the pops give it back.\<close>

lemma push_all:
  assumes "invar q" "length (contents q) + length xs \<le> cap"
  shows "\<exists>q'. fold (\<lambda>x q. snd (push x q)) xs q = q' \<and> contents q' = contents q @ xs \<and> invar q'"
  using assms
proof (induction xs arbitrary: q)
  case Nil
  then show ?case by simp
next
  case (Cons x xs)
  from Cons.prems push_ok [of q x] obtain q1
    where q1: "push x q = (True, q1)" "contents q1 = contents q @ [x]" "invar q1" by auto
  with Cons.prems Cons.IH [of q1] show ?case by simp
qed

text \<open>Clients that only push and pop see the list, whatever the queue is made of.\<close>

lemma run_ops_fifo:
  assumes "invar q"
  shows "fst (run_ops push pop ops q) = fifo_run cap ops (contents q) \<and> invar (snd (run_ops push pop ops q))"
  using assms
proof (induction ops arbitrary: q)
  case Nil
  then show ?case by simp
next
  case (Cons op ops)
  show ?case
  proof (cases op)
    case (Push x)
    from Cons.prems show ?thesis
      by (rule push_cases [of q x]) (use Push Cons.prems Cons.IH in \<open>auto simp: split_beta\<close>)
  next
    case Pop
    from Cons.prems show ?thesis
      by (rule pop_cases [of q]) (use Pop Cons.prems Cons.IH in \<open>auto simp: split_beta\<close>)
  qed
qed

end

end
