(* ===== verification/Cmd_Queue.thy ===== *)
theory Cmd_Queue
  imports Ring Ieee_Float
begin

text \<open>
  The command queue between the web server (producer) and the control loop (consumer):
  \<open>CmdQueue\<close> of \<open>include/core/ControlLoop.hpp\<close> and \<open>src/core/ControlLoop.cpp\<close>. First the
  operations as whole calls and their contract as a bounded queue of 15 commands; then the
  two threads running at the same time, one atomic access per step.
\<close>

section \<open>Commands\<close>

text \<open>
  \<open>enum class CommandType : uint8_t\<close>. A value of that type can be any byte; the bytes that
  name no command reach the \<open>default\<close> branch of the command loop.
\<close>

datatype CommandType =
    CMD_SET_DHW_TEMP
  | CMD_SET_HEATING_TEMP
  | CMD_SET_PRIORITY
  | CMD_SET_RUNNING_MODE
  | CMD_SET_OCCUPANCY_MODE
  | CMD_OTHER u8

record Command =
  cmd_type :: CommandType
  float_val :: fp
  int_val :: int

section \<open>The queue\<close>

record 'a CmdQueue =
  cq_buf :: "'a list"
  cq_head :: u32
  cq_tail :: u32

abbreviation CMD_CAPACITY :: u32 where
  "CMD_CAPACITY \<equiv> 16"

definition CmdQueue_init :: "'a list \<Rightarrow> 'a CmdQueue" where
  "CmdQueue_init storage = \<lparr>cq_buf = storage, cq_head = 0, cq_tail = 0\<rparr>"

definition CmdQueue_push :: "'a \<Rightarrow> 'a CmdQueue \<Rightarrow> bool \<times> 'a CmdQueue" where
  "CmdQueue_push cmd q =
     (let current_tail = cq_tail q;
          next_tail = (current_tail + 1) mod CMD_CAPACITY
      in if next_tail = cq_head q then (False, q)
         else (True, q\<lparr>cq_buf := (cq_buf q)[unat current_tail := cmd], cq_tail := next_tail\<rparr>))"

definition CmdQueue_pop :: "'a CmdQueue \<Rightarrow> 'a option \<times> 'a CmdQueue" where
  "CmdQueue_pop q =
     (let current_head = cq_head q
      in if current_head = cq_tail q then (None, q)
         else (Some (cq_buf q ! unat current_head),
               q\<lparr>cq_head := (current_head + 1) mod CMD_CAPACITY\<rparr>))"

definition CmdQueue_empty :: "'a CmdQueue \<Rightarrow> bool" where
  "CmdQueue_empty q \<longleftrightarrow> cq_head q = cq_tail q"

subsection \<open>Invariant and contents\<close>

definition cq_inv :: "'a CmdQueue \<Rightarrow> bool" where
  "cq_inv q \<longleftrightarrow> length (cq_buf q) = 16 \<and> cq_head q < 16 \<and> cq_tail q < 16"

definition cq_list :: "'a CmdQueue \<Rightarrow> 'a list" where
  "cq_list q = ring_list 16 (cq_buf q) (unat (cq_head q)) (unat (cq_tail q))"

lemma unat_index: "(i::u32) < 16 \<longleftrightarrow> unat i < 16"
  by (simp add: word_less_nat_alt)

lemma unat_next_index:
  assumes "(i::u32) < 16"
  shows "unat ((i + 1) mod 16) = next_idx 16 (unat i)"
proof -
  have "unat (i + 1) = unat i + 1"
    using assms by (intro unat_plus_simple [THEN iffD1, THEN trans]) (auto simp: unat_index unat_arith_simps)
  then show ?thesis by (simp add: unat_mod next_idx_def)
qed

lemma next_index_less: "((i::u32) + 1) mod 16 < 16"
  by (simp add: unat_index unat_mod)

lemmas index_simps = unat_index unat_next_index next_index_less next_idx_less

lemma cq_inv_init: "length storage = 16 \<Longrightarrow> cq_inv (CmdQueue_init storage)"
  by (simp add: cq_inv_def CmdQueue_init_def)

lemma cq_list_init [simp]: "cq_list (CmdQueue_init storage) = []"
  by (simp add: cq_list_def CmdQueue_init_def)

lemma CmdQueue_empty_iff: "cq_inv q \<Longrightarrow> CmdQueue_empty q \<longleftrightarrow> cq_list q = []"
proof -
  assume "cq_inv q"
  then have "(cq_list q = []) = (ring_len 16 (unat (cq_head q)) (unat (cq_tail q)) = 0)"
    by (metis cq_list_def length_0_conv length_ring_list)
  with \<open>cq_inv q\<close> show ?thesis
    by (simp add: CmdQueue_empty_def cq_inv_def unat_index ring_len_0 word_unat_eq_iff)
qed

lemma cq_full_iff:
  assumes "cq_inv q"
  shows "(cq_tail q + 1) mod CMD_CAPACITY = cq_head q \<longleftrightarrow> length (cq_list q) = 15"
proof -
  have "(cq_tail q + 1) mod CMD_CAPACITY = cq_head q \<longleftrightarrow> next_idx 16 (unat (cq_tail q)) = unat (cq_head q)"
    using assms by (metis cq_inv_def unat_next_index word_unat_eq_iff)
  then show ?thesis
    using assms by (simp add: cq_inv_def unat_index cq_list_def ring_full_iff)
qed

lemma CmdQueue_push_room:
  assumes "cq_inv q" "length (cq_list q) \<noteq> 15"
  shows "\<exists>q'. CmdQueue_push x q = (True, q') \<and> cq_list q' = cq_list q @ [x] \<and> cq_inv q'"
proof -
  have room: "(cq_tail q + 1) mod CMD_CAPACITY \<noteq> cq_head q" using assms cq_full_iff by blast
  then have "next_idx 16 (unat (cq_tail q)) \<noteq> unat (cq_head q)"
    using assms by (metis cq_inv_def unat_next_index word_unat_eq_iff)
  with assms room show ?thesis
    by (auto simp: CmdQueue_push_def Let_def cq_inv_def cq_list_def unat_next_index next_index_less
        unat_index ring_list_push next_idx_less)
qed

lemma CmdQueue_pop_some:
  assumes "cq_inv q" "cq_list q = x # xs"
  shows "\<exists>q'. CmdQueue_pop q = (Some x, q') \<and> cq_list q' = xs \<and> cq_inv q'"
proof -
  have ne: "cq_head q \<noteq> cq_tail q" using assms CmdQueue_empty_iff [of q] by (simp add: CmdQueue_empty_def)
  then have "unat (cq_head q) \<noteq> unat (cq_tail q)" by (simp add: word_unat_eq_iff)
  then have "cq_list q = cq_buf q ! unat (cq_head q) #
      ring_list 16 (cq_buf q) (next_idx 16 (unat (cq_head q))) (unat (cq_tail q))"
    using assms(1) by (simp add: cq_list_def cq_inv_def unat_index ring_list_pop)
  with assms ne show ?thesis
    by (auto simp: CmdQueue_pop_def Let_def cq_inv_def cq_list_def unat_next_index next_index_less)
qed

interpretation cq: bounded_fifo CmdQueue_push CmdQueue_pop cq_list cq_inv 15
proof unfold_locales
  fix q :: "'a CmdQueue" and x :: 'a and xs
  assume inv: "cq_inv q"
  show le: "length (cq_list q) \<le> 15"
    using inv ring_len_bound [of "unat (cq_head q)" 16 "unat (cq_tail q)"]
    by (simp add: cq_list_def cq_inv_def unat_index)
  show "length (cq_list q) < 15 \<Longrightarrow>
      \<exists>q'. CmdQueue_push x q = (True, q') \<and> cq_list q' = cq_list q @ [x] \<and> cq_inv q'"
    using CmdQueue_push_room [OF inv] by auto
  show "15 \<le> length (cq_list q) \<Longrightarrow> CmdQueue_push x q = (False, q)"
    using cq_full_iff [OF inv] le by (simp add: CmdQueue_push_def)
  show "cq_list q = [] \<Longrightarrow> CmdQueue_pop q = (None, q)"
    using CmdQueue_empty_iff [OF inv] by (simp add: CmdQueue_pop_def CmdQueue_empty_def)
  show "cq_list q = x # xs \<Longrightarrow>
      \<exists>q'. CmdQueue_pop q = (Some x, q') \<and> cq_list q' = xs \<and> cq_inv q'"
    by (rule CmdQueue_pop_some [OF inv])
qed

section \<open>Producer and consumer at the same time\<close>

text \<open>
  The web server's thread runs \<open>push\<close> while the control loop's thread runs \<open>pop\<close>. Each thread
  is between two of its accesses to the shared queue; a step is one access. The program
  counters carry what the thread holds in its local variables. \<open>sent\<close> and \<open>received\<close> record the
  items of the completed calls. Steps interleave freely; an access is seen by the other
  thread from the next step on, which is what the acquire and release orders of the two
  indices give for the buffer accesses between them.
\<close>

datatype 'a push_pc =
    P_Idle
  | P_Tail 'a u32     \<comment> \<open>\<open>tail_\<close> read\<close>
  | P_Room 'a u32     \<comment> \<open>\<open>head_\<close> read, not full\<close>
  | P_Stored 'a u32   \<comment> \<open>item copied into the buffer\<close>

datatype 'a pop_pc =
    C_Idle
  | C_Head u32        \<comment> \<open>\<open>head_\<close> read\<close>
  | C_Some u32        \<comment> \<open>\<open>tail_\<close> read, not empty\<close>
  | C_Read u32 'a     \<comment> \<open>item copied out of the buffer\<close>

record 'a spsc =
  shared :: "'a CmdQueue"
  producer :: "'a push_pc"
  consumer :: "'a pop_pc"
  sent :: "'a list"
  received :: "'a list"

inductive spsc_step :: "'a spsc \<Rightarrow> 'a spsc \<Rightarrow> bool" where
  push_load_tail:
    "producer s = P_Idle \<Longrightarrow> spsc_step s (s\<lparr>producer := P_Tail x (cq_tail (shared s))\<rparr>)"
| push_full:
    "producer s = P_Tail x t \<Longrightarrow> (t + 1) mod CMD_CAPACITY = cq_head (shared s) \<Longrightarrow>
     spsc_step s (s\<lparr>producer := P_Idle\<rparr>)"
| push_room:
    "producer s = P_Tail x t \<Longrightarrow> (t + 1) mod CMD_CAPACITY \<noteq> cq_head (shared s) \<Longrightarrow>
     spsc_step s (s\<lparr>producer := P_Room x t\<rparr>)"
| push_store_item:
    "producer s = P_Room x t \<Longrightarrow>
     spsc_step s (s\<lparr>producer := P_Stored x t,
                    shared := (shared s)\<lparr>cq_buf := (cq_buf (shared s))[unat t := x]\<rparr>\<rparr>)"
| push_store_tail:
    "producer s = P_Stored x t \<Longrightarrow>
     spsc_step s (s\<lparr>producer := P_Idle, sent := sent s @ [x],
                    shared := (shared s)\<lparr>cq_tail := (t + 1) mod CMD_CAPACITY\<rparr>\<rparr>)"
| pop_load_head:
    "consumer s = C_Idle \<Longrightarrow> spsc_step s (s\<lparr>consumer := C_Head (cq_head (shared s))\<rparr>)"
| pop_empty:
    "consumer s = C_Head h \<Longrightarrow> h = cq_tail (shared s) \<Longrightarrow> spsc_step s (s\<lparr>consumer := C_Idle\<rparr>)"
| pop_some:
    "consumer s = C_Head h \<Longrightarrow> h \<noteq> cq_tail (shared s) \<Longrightarrow> spsc_step s (s\<lparr>consumer := C_Some h\<rparr>)"
| pop_load_item:
    "consumer s = C_Some h \<Longrightarrow>
     spsc_step s (s\<lparr>consumer := C_Read h (cq_buf (shared s) ! unat h)\<rparr>)"
| pop_store_head:
    "consumer s = C_Read h v \<Longrightarrow>
     spsc_step s (s\<lparr>consumer := C_Idle, received := received s @ [v],
                    shared := (shared s)\<lparr>cq_head := (h + 1) mod CMD_CAPACITY\<rparr>\<rparr>)"

definition spsc_init :: "'a list \<Rightarrow> 'a spsc" where
  "spsc_init storage = \<lparr>shared = CmdQueue_init storage, producer = P_Idle, consumer = C_Idle,
     sent = [], received = []\<rparr>"

inductive spsc_reachable :: "'a list \<Rightarrow> 'a spsc \<Rightarrow> bool" for storage where
  spsc_start: "spsc_reachable storage (spsc_init storage)"
| spsc_next: "spsc_reachable storage s \<Longrightarrow> spsc_step s s' \<Longrightarrow> spsc_reachable storage s'"

subsection \<open>The invariant of the interleaving\<close>

text \<open>What each thread may still rely on, whatever the other one did since it looked.\<close>

fun producer_ok :: "'a CmdQueue \<Rightarrow> 'a push_pc \<Rightarrow> bool" where
  "producer_ok q P_Idle = True"
| "producer_ok q (P_Tail x t) = (t = cq_tail q)"
| "producer_ok q (P_Room x t) = (t = cq_tail q \<and> (t + 1) mod CMD_CAPACITY \<noteq> cq_head q)"
| "producer_ok q (P_Stored x t) =
     (t = cq_tail q \<and> (t + 1) mod CMD_CAPACITY \<noteq> cq_head q \<and> cq_buf q ! unat t = x)"

fun consumer_ok :: "'a CmdQueue \<Rightarrow> 'a pop_pc \<Rightarrow> bool" where
  "consumer_ok q C_Idle = True"
| "consumer_ok q (C_Head h) = (h = cq_head q)"
| "consumer_ok q (C_Some h) = (h = cq_head q \<and> h \<noteq> cq_tail q)"
| "consumer_ok q (C_Read h v) = (h = cq_head q \<and> h \<noteq> cq_tail q \<and> v = cq_buf q ! unat h)"

definition spsc_inv :: "'a spsc \<Rightarrow> bool" where
  "spsc_inv s \<longleftrightarrow> cq_inv (shared s) \<and> producer_ok (shared s) (producer s) \<and>
     consumer_ok (shared s) (consumer s) \<and> received s @ cq_list (shared s) = sent s"

lemma next_index_inj:
  assumes "(i::u32) < 16" "j < 16" "(i + 1) mod 16 = (j + 1) mod 16"
  shows "i = j"
proof -
  have "next_idx 16 (unat i) = next_idx 16 (unat j)" using assms by (metis unat_next_index)
  then have "unat i = unat j"
    using assms by (auto simp: unat_index next_idx_if split: if_splits)
  then show ?thesis by (simp add: word_unat_eq_iff)
qed

lemma store_item_keeps:
  assumes "cq_inv q" "t = cq_tail q"
  shows "cq_inv (q\<lparr>cq_buf := (cq_buf q)[unat t := x]\<rparr>)"
    and "cq_list (q\<lparr>cq_buf := (cq_buf q)[unat t := x]\<rparr>) = cq_list q"
    and "consumer_ok q c \<Longrightarrow> consumer_ok (q\<lparr>cq_buf := (cq_buf q)[unat t := x]\<rparr>) c"
  using assms
  by (auto simp: cq_inv_def cq_list_def unat_index ring_list_store_other word_unat_eq_iff
      elim!: consumer_ok.elims)

lemma store_tail_keeps:
  assumes "cq_inv q" "producer_ok q (P_Stored x t)"
  shows "cq_inv (q\<lparr>cq_tail := (t + 1) mod CMD_CAPACITY\<rparr>)"
    and "cq_list (q\<lparr>cq_tail := (t + 1) mod CMD_CAPACITY\<rparr>) = cq_list q @ [x]"
    and "consumer_ok q c \<Longrightarrow> consumer_ok (q\<lparr>cq_tail := (t + 1) mod CMD_CAPACITY\<rparr>) c"
proof -
  have ne: "next_idx 16 (unat t) \<noteq> unat (cq_head q)"
    using assms by (metis cq_inv_def producer_ok.simps(4) unat_next_index word_unat_eq_iff)
  show "cq_inv (q\<lparr>cq_tail := (t + 1) mod CMD_CAPACITY\<rparr>)"
    using assms by (simp add: cq_inv_def next_index_less)
  show "cq_list (q\<lparr>cq_tail := (t + 1) mod CMD_CAPACITY\<rparr>) = cq_list q @ [x]"
    using assms ne by (auto simp: cq_list_def cq_inv_def unat_next_index unat_index ring_list_extend)
  show "consumer_ok q c \<Longrightarrow> consumer_ok (q\<lparr>cq_tail := (t + 1) mod CMD_CAPACITY\<rparr>) c"
    using assms by (cases c) auto
qed

lemma store_head_keeps:
  assumes "cq_inv q" "consumer_ok q (C_Read h v)"
  shows "cq_inv (q\<lparr>cq_head := (h + 1) mod CMD_CAPACITY\<rparr>)"
    and "v # cq_list (q\<lparr>cq_head := (h + 1) mod CMD_CAPACITY\<rparr>) = cq_list q"
    and "producer_ok q p \<Longrightarrow> producer_ok (q\<lparr>cq_head := (h + 1) mod CMD_CAPACITY\<rparr>) p"
proof -
  show "cq_inv (q\<lparr>cq_head := (h + 1) mod CMD_CAPACITY\<rparr>)"
    using assms by (simp add: cq_inv_def next_index_less)
  have "unat (cq_head q) \<noteq> unat (cq_tail q)" using assms by (simp add: word_unat_eq_iff)
  then show "v # cq_list (q\<lparr>cq_head := (h + 1) mod CMD_CAPACITY\<rparr>) = cq_list q"
    using assms by (auto simp: cq_list_def cq_inv_def unat_next_index unat_index ring_list_pop)
  show "producer_ok q p \<Longrightarrow> producer_ok (q\<lparr>cq_head := (h + 1) mod CMD_CAPACITY\<rparr>) p"
    using assms next_index_inj by (cases p) (auto simp: cq_inv_def)
qed

lemma spsc_step_inv: "spsc_step s s' \<Longrightarrow> spsc_inv s \<Longrightarrow> spsc_inv s'"
proof (induction rule: spsc_step.induct)
  case (push_store_item s x t)
  then show ?case
    using store_item_keeps [where q = "shared s" and t = t and x = x]
    by (auto simp: spsc_inv_def cq_inv_def unat_index)
next
  case (push_store_tail s x t)
  then show ?case
    using store_tail_keeps [where q = "shared s" and t = t and x = x] by (auto simp: spsc_inv_def)
next
  case (pop_store_head s h v)
  then show ?case
    using store_head_keeps [where q = "shared s" and h = h and v = v] by (auto simp: spsc_inv_def)
qed (auto simp: spsc_inv_def)

lemma spsc_init_inv: "length storage = 16 \<Longrightarrow> spsc_inv (spsc_init storage)"
  by (simp add: spsc_inv_def spsc_init_def cq_inv_init)

lemma spsc_reachable_inv:
  assumes "spsc_reachable storage s" "length storage = 16"
  shows "spsc_inv s"
  using assms by (induction rule: spsc_reachable.induct) (auto intro: spsc_init_inv spsc_step_inv)

subsection \<open>A call without interruption is the whole operation\<close>

lemma push_steps:
  assumes "producer s = P_Idle" "CmdQueue_push x (shared s) = (b, q')"
  shows "spsc_step\<^sup>*\<^sup>* s (s\<lparr>shared := q', sent := sent s @ (if b then [x] else [])\<rparr>)"
proof -
  define t where "t = cq_tail (shared s)"
  define s1 where "s1 = s\<lparr>producer := P_Tail x t\<rparr>"
  have step1: "spsc_step s s1" using assms(1) by (simp add: s1_def t_def spsc_step.push_load_tail)
  show ?thesis
  proof (cases "(t + 1) mod CMD_CAPACITY = cq_head (shared s)")
    case True
    have "spsc_step s1 (s1\<lparr>producer := P_Idle\<rparr>)"
      by (rule spsc_step.push_full [of _ x t]) (simp_all add: s1_def True)
    moreover have "s1\<lparr>producer := P_Idle\<rparr> = s\<lparr>shared := q', sent := sent s @ (if b then [x] else [])\<rparr>"
      using assms True by (auto simp: s1_def t_def CmdQueue_push_def Let_def)
    ultimately show ?thesis using step1 by (metis converse_rtranclp_into_rtranclp r_into_rtranclp)
  next
    case False
    define s2 where "s2 = s1\<lparr>producer := P_Room x t\<rparr>"
    define s3 where "s3 = s2\<lparr>producer := P_Stored x t,
      shared := (shared s2)\<lparr>cq_buf := (cq_buf (shared s2))[unat t := x]\<rparr>\<rparr>"
    define s4 where "s4 = s3\<lparr>producer := P_Idle, sent := sent s3 @ [x],
      shared := (shared s3)\<lparr>cq_tail := (t + 1) mod CMD_CAPACITY\<rparr>\<rparr>"
    have "spsc_step s1 s2"
      unfolding s2_def by (rule spsc_step.push_room [of _ x t]) (simp_all add: s1_def False)
    moreover have "spsc_step s2 s3"
      unfolding s3_def by (rule spsc_step.push_store_item) (simp add: s2_def)
    moreover have "spsc_step s3 s4"
      unfolding s4_def by (rule spsc_step.push_store_tail) (simp add: s3_def)
    moreover have "s4 = s\<lparr>shared := q', sent := sent s @ (if b then [x] else [])\<rparr>"
      using assms False by (auto simp: s4_def s3_def s2_def s1_def t_def CmdQueue_push_def Let_def)
    ultimately show ?thesis using step1 by (metis converse_rtranclp_into_rtranclp r_into_rtranclp)
  qed
qed

lemma pop_steps:
  assumes "consumer s = C_Idle" "CmdQueue_pop (shared s) = (r, q')"
  shows "spsc_step\<^sup>*\<^sup>* s (s\<lparr>shared := q', received := received s @ (case r of None \<Rightarrow> [] | Some v \<Rightarrow> [v])\<rparr>)"
proof -
  define h where "h = cq_head (shared s)"
  define s1 where "s1 = s\<lparr>consumer := C_Head h\<rparr>"
  have step1: "spsc_step s s1" using assms(1) by (simp add: s1_def h_def spsc_step.pop_load_head)
  show ?thesis
  proof (cases "h = cq_tail (shared s)")
    case True
    have "spsc_step s1 (s1\<lparr>consumer := C_Idle\<rparr>)"
      by (rule spsc_step.pop_empty [of _ h]) (simp_all add: s1_def True)
    moreover have "s1\<lparr>consumer := C_Idle\<rparr>
        = s\<lparr>shared := q', received := received s @ (case r of None \<Rightarrow> [] | Some v \<Rightarrow> [v])\<rparr>"
      using assms True by (auto simp: s1_def h_def CmdQueue_pop_def Let_def)
    ultimately show ?thesis using step1 by (metis converse_rtranclp_into_rtranclp r_into_rtranclp)
  next
    case False
    define v where "v = cq_buf (shared s) ! unat h"
    define s2 where "s2 = s1\<lparr>consumer := C_Some h\<rparr>"
    define s3 where "s3 = s2\<lparr>consumer := C_Read h v\<rparr>"
    define s4 where "s4 = s3\<lparr>consumer := C_Idle, received := received s3 @ [v],
      shared := (shared s3)\<lparr>cq_head := (h + 1) mod CMD_CAPACITY\<rparr>\<rparr>"
    have "spsc_step s1 s2"
      unfolding s2_def by (rule spsc_step.pop_some [of _ h]) (simp_all add: s1_def False)
    moreover have "spsc_step s2 s3"
      using spsc_step.pop_load_item [of s2 h] by (simp add: s3_def s2_def s1_def v_def)
    moreover have "spsc_step s3 s4"
      unfolding s4_def by (rule spsc_step.pop_store_head) (simp add: s3_def)
    moreover have "s4 = s\<lparr>shared := q', received := received s @ (case r of None \<Rightarrow> [] | Some v \<Rightarrow> [v])\<rparr>"
      using assms False
      by (auto simp: s4_def s3_def s2_def s1_def h_def v_def CmdQueue_pop_def Let_def)
    ultimately show ?thesis using step1 by (metis converse_rtranclp_into_rtranclp r_into_rtranclp)
  qed
qed

section \<open>Properties\<close>

text \<open>
  C26. The command queue is a first-in-first-out queue of at most 15 commands: a push succeeds
  exactly when fewer than 15 are stored and then appends the command, a failed push changes
  nothing, and a pop takes the oldest one or reports that there is none.
\<close>

theorem CmdQueue_is_fifo:
  assumes "cq_inv q"
  shows "(case CmdQueue_push x q of (stored, q') \<Rightarrow>
            cq_inv q' \<and> stored = (length (cq_list q) < 15) \<and>
            cq_list q' = cq_list q @ (if stored then [x] else [])) \<and>
         (case CmdQueue_pop q of (r, q') \<Rightarrow>
            cq_inv q' \<and> cq_list q = (case r of None \<Rightarrow> [] | Some c \<Rightarrow> c # cq_list q') \<and>
            (r = None \<longrightarrow> q' = q)) \<and>
         CmdQueue_empty q = (cq_list q = [])"
proof (intro conjI)
  show "case CmdQueue_push x q of (stored, q') \<Rightarrow> cq_inv q' \<and> stored = (length (cq_list q) < 15) \<and>
      cq_list q' = cq_list q @ (if stored then [x] else [])"
    using assms by (rule cq.push_cases [of q x]) (use assms in auto)
  show "case CmdQueue_pop q of (r, q') \<Rightarrow> cq_inv q' \<and>
      cq_list q = (case r of None \<Rightarrow> [] | Some c \<Rightarrow> c # cq_list q') \<and> (r = None \<longrightarrow> q' = q)"
    using assms by (rule cq.pop_cases [of q]) (use assms in auto)
  show "CmdQueue_empty q = (cq_list q = [])" using assms by (rule CmdQueue_empty_iff)
qed

theorem CmdQueue_is_fifo_witness:
  "case CmdQueue_push (7 :: nat) (CmdQueue_init (replicate 16 0)) of (stored, q') \<Rightarrow>
     cq_inv q' \<and> stored \<and> cq_list q' = [7]"
  using CmdQueue_is_fifo [of "CmdQueue_init (replicate 16 (0 :: nat))" 7]
  by (auto simp: cq_inv_init split: prod.splits)

text \<open>
  C7. While one thread pushes and another pops, with their accesses to the shared indices and
  slots interleaved in any order, the commands received, followed by those still in the queue,
  are exactly the commands sent, in order: none is lost, repeated, reordered or torn.
\<close>

theorem CmdQueue_concurrent_fifo:
  assumes "length storage = 16" "spsc_reachable storage s"
  shows "received s @ cq_list (shared s) = sent s \<and> length (cq_list (shared s)) \<le> 15"
  using spsc_reachable_inv [OF assms(2,1)] cq.contents_cap [of "shared s"] by (simp add: spsc_inv_def)

theorem CmdQueue_concurrent_fifo_witness:
  "received ((spsc_init (replicate 16 0))\<lparr>producer := P_Tail (5 :: nat) 0\<rparr>) @
     cq_list (shared ((spsc_init (replicate 16 0))\<lparr>producer := P_Tail 5 0\<rparr>))
   = sent ((spsc_init (replicate 16 0))\<lparr>producer := P_Tail 5 0\<rparr>) \<and>
   length (cq_list (shared ((spsc_init (replicate 16 0))\<lparr>producer := P_Tail (5 :: nat) 0\<rparr>))) \<le> 15"
proof (rule CmdQueue_concurrent_fifo)
  show "length (replicate 16 (0 :: nat)) = 16" by simp
  show "spsc_reachable (replicate 16 0) ((spsc_init (replicate 16 0))\<lparr>producer := P_Tail (5 :: nat) 0\<rparr>)"
    using spsc_next [OF spsc_start spsc_step.push_load_tail, of "replicate 16 0" 5]
    by (simp add: spsc_init_def CmdQueue_init_def)
qed

text \<open>
  A push or a pop that is not interrupted is, access by access, the whole operation of the
  sequential queue.
\<close>

theorem CmdQueue_steps_refine:
  assumes "producer s = P_Idle" "consumer s = C_Idle"
  shows "(case CmdQueue_push x (shared s) of (b, q') \<Rightarrow>
            spsc_step\<^sup>*\<^sup>* s (s\<lparr>shared := q', sent := sent s @ (if b then [x] else [])\<rparr>)) \<and>
         (case CmdQueue_pop (shared s) of (r, q') \<Rightarrow>
            spsc_step\<^sup>*\<^sup>* s (s\<lparr>shared := q',
              received := received s @ (case r of None \<Rightarrow> [] | Some v \<Rightarrow> [v])\<rparr>))"
  using push_steps [OF assms(1)] pop_steps [OF assms(2)] by (auto split: prod.split)

theorem CmdQueue_steps_refine_witness:
  "case CmdQueue_push (5 :: nat) (CmdQueue_init (replicate 16 0)) of (b, q') \<Rightarrow>
     spsc_step\<^sup>*\<^sup>* (spsc_init (replicate 16 0))
       ((spsc_init (replicate 16 0))\<lparr>shared := q', sent := (if b then [5] else [])\<rparr>)"
  using CmdQueue_steps_refine [of "spsc_init (replicate 16 (0 :: nat))" 5]
  by (simp add: spsc_init_def split: prod.splits)

end
