(* ===== verification/Status_Queue.thy ===== *)
theory Status_Queue
  imports Ring
begin

text \<open>
  The status queue between the control loop (producer) and the web server (consumer):
  \<open>StatusQueue\<close> of \<open>src/core/ControlLoop.cpp\<close>, a ring of 32 slots that overwrites its oldest
  entries. The indices are 32-bit counters that are never reduced, so the lemmas separate
  the runs of fewer than \<open>2 ^ 32\<close> pushes, where the queue keeps the 31 latest snapshots,
  from the moment the counters wrap around.
\<close>

record 'a StatusQueue =
  sq_buf :: "'a list"
  sq_head :: u32
  sq_tail :: u32
  sq_write_index :: u32

abbreviation STATUS_CAPACITY :: u32 where
  "STATUS_CAPACITY \<equiv> 32"

definition StatusQueue_init :: "'a list \<Rightarrow> 'a StatusQueue" where
  "StatusQueue_init storage =
     \<lparr>sq_buf = storage, sq_head = 0, sq_tail = 0, sq_write_index = 0\<rparr>"

definition StatusQueue_push :: "'a \<Rightarrow> 'a StatusQueue \<Rightarrow> bool \<times> 'a StatusQueue" where
  "StatusQueue_push item q =
     (let write_idx = sq_write_index q;
          q = q\<lparr>sq_write_index := write_idx + 1\<rparr>;
          buf_idx = write_idx mod STATUS_CAPACITY;
          q = q\<lparr>sq_buf := (sq_buf q)[unat buf_idx := item]\<rparr>;
          q = q\<lparr>sq_tail := write_idx + 1\<rparr>;
          current_head = sq_head q;
          current_tail = write_idx + 1;
          q = (if current_tail - current_head > STATUS_CAPACITY - 1
               then q\<lparr>sq_head := current_tail - (STATUS_CAPACITY - 1)\<rparr> else q)
      in (True, q))"

definition StatusQueue_pop :: "'a StatusQueue \<Rightarrow> 'a option \<times> 'a StatusQueue" where
  "StatusQueue_pop q =
     (let current_head = sq_head q; current_tail = sq_tail q
      in if current_head \<ge> current_tail then (None, q)
         else let buf_idx = current_head mod STATUS_CAPACITY
              in (Some (sq_buf q ! unat buf_idx), q\<lparr>sq_head := current_head + 1\<rparr>))"

definition StatusQueue_latest :: "'a StatusQueue \<Rightarrow> 'a option" where
  "StatusQueue_latest q =
     (let current_tail = sq_tail q; current_head = sq_head q
      in if current_head \<ge> current_tail then None
         else let last_idx = current_tail - 1;
                  buf_idx = last_idx mod STATUS_CAPACITY
              in Some (sq_buf q ! unat buf_idx))"

section \<open>Before the counters wrap around\<close>

text \<open>
  \<open>sq_holds q hs\<close>: \<open>q\<close> is what the pushes of the snapshots \<open>hs\<close>, in this order, leave behind
  (with any pops in between), fewer than \<open>2 ^ 32\<close> of them.
\<close>

definition sq_holds :: "'a StatusQueue \<Rightarrow> 'a list \<Rightarrow> bool" where
  "sq_holds q hs \<longleftrightarrow>
     length (sq_buf q) = 32 \<and> length hs < 2 ^ 32 \<and>
     sq_write_index q = sq_tail q \<and> unat (sq_tail q) = length hs \<and>
     sq_head q \<le> sq_tail q \<and> unat (sq_tail q) - unat (sq_head q) \<le> 31 \<and>
     (\<forall>i. i < length hs \<and> length hs \<le> i + 32 \<longrightarrow> sq_buf q ! (i mod 32) = hs ! i)"

definition sq_list :: "'a StatusQueue \<Rightarrow> 'a list \<Rightarrow> 'a list" where
  "sq_list q hs = drop (unat (sq_head q)) hs"

lemma sq_holds_init: "length storage = 32 \<Longrightarrow> sq_holds (StatusQueue_init storage) []"
  by (simp add: sq_holds_def StatusQueue_init_def)

lemma unat_Suc_word: "unat (w::u32) + 1 < 2 ^ 32 \<Longrightarrow> unat (w + 1) = unat w + 1"
  by (simp add: unat_word_ariths)

lemma slot_differs:
  assumes "i < n" "n < i + 32"
  shows "i mod 32 \<noteq> n mod (32::nat)"
proof
  assume "i mod 32 = n mod 32"
  then have "32 dvd n - i" using assms mod_eq_dvd_iff_nat [of i n 32] by simp
  then show False using assms by (auto dest: dvd_imp_le)
qed

text \<open>What one push does to the four members, in terms of the counters as numbers.\<close>

lemma StatusQueue_push_eq:
  assumes "sq_holds q hs" "length hs + 1 < 2 ^ 32"
  obtains h' where
    "StatusQueue_push x q = (True, \<lparr>sq_buf = (sq_buf q)[length hs mod 32 := x], sq_head = h',
       sq_tail = sq_tail q + 1, sq_write_index = sq_tail q + 1\<rparr>)"
    "unat h' = max (unat (sq_head q)) (length hs + 1 - 31)"
proof -
  define w h where "w = sq_tail q" and "h = sq_head q"
  have q: "sq_write_index q = w" "unat w = length hs" "unat h \<le> unat w" "unat w - unat h \<le> 31"
    using assms(1) by (auto simp: sq_holds_def w_def h_def word_le_nat_alt)
  have w1: "unat (w + 1) = length hs + 1" using assms(2) q(2) by (simp add: unat_Suc_word)
  then have diff: "unat (w + 1 - h) = length hs + 1 - unat h"
    using q by (subst unat_sub) (auto simp: word_le_nat_alt)
  have big: "(w + 1 - h > STATUS_CAPACITY - 1) = (31 < length hs + 1 - unat h)"
    by (simp add: word_less_nat_alt diff)
  have rewind: "unat (w + 1 - (STATUS_CAPACITY - 1)) = length hs + 1 - 31" if "31 < length hs + 1 - unat h"
    using that w1 by (subst unat_sub) (auto simp: word_le_nat_alt)
  define h' where h'_def: "h' = (if w + 1 - h > STATUS_CAPACITY - 1 then w + 1 - (STATUS_CAPACITY - 1) else h)"
  have "unat h' = max (unat h) (length hs + 1 - 31)"
    using q big rewind by (auto simp: h'_def)
  moreover have "StatusQueue_push x q = (True, \<lparr>sq_buf = (sq_buf q)[length hs mod 32 := x],
      sq_head = h', sq_tail = w + 1, sq_write_index = w + 1\<rparr>)"
    by (simp add: StatusQueue_push_def Let_def q w_def [symmetric] h_def [symmetric] h'_def unat_mod)
  ultimately show thesis using that by (simp add: w_def h_def)
qed

lemma sq_holds_push:
  assumes "sq_holds q hs" "length hs + 1 < 2 ^ 32"
  shows "\<exists>q'. StatusQueue_push x q = (True, q') \<and> sq_holds q' (hs @ [x]) \<and>
    unat (sq_head q') = max (unat (sq_head q)) (length hs + 1 - 31)"
proof -
  obtain h' where push: "StatusQueue_push x q = (True, \<lparr>sq_buf = (sq_buf q)[length hs mod 32 := x],
      sq_head = h', sq_tail = sq_tail q + 1, sq_write_index = sq_tail q + 1\<rparr>)"
    and h': "unat h' = max (unat (sq_head q)) (length hs + 1 - 31)"
    using StatusQueue_push_eq [OF assms] by blast
  have q: "length (sq_buf q) = 32" "unat (sq_tail q) = length hs" "unat (sq_head q) \<le> length hs"
      "length hs - unat (sq_head q) \<le> 31"
      "\<And>i. i < length hs \<Longrightarrow> length hs \<le> i + 32 \<Longrightarrow> sq_buf q ! (i mod 32) = hs ! i"
    using assms(1) by (auto simp: sq_holds_def word_le_nat_alt)
  have "unat (sq_tail q + 1) = length hs + 1" using assms(2) q(2) by (simp add: unat_Suc_word)
  moreover have "(sq_buf q)[length hs mod 32 := x] ! (i mod 32) = (hs @ [x]) ! i"
    if "i < length hs + 1" "length hs + 1 \<le> i + 32" for i
    using that q(1,5) slot_differs [of i "length hs"]
    by (cases "i = length hs") (auto simp: nth_append nth_list_update)
  ultimately have "sq_holds (snd (StatusQueue_push x q)) (hs @ [x])"
    using push h' q assms(2) by (auto simp: sq_holds_def word_le_nat_alt)
  with push h' show ?thesis by auto
qed

lemma sq_list_push:
  assumes "sq_holds q hs" "length hs + 1 < 2 ^ 32" "StatusQueue_push x q = (b, q')"
  shows "sq_list q' (hs @ [x]) = (let l = sq_list q hs @ [x] in drop (length l - 31) l)"
proof -
  have h: "unat (sq_head q') = max (unat (sq_head q)) (length hs + 1 - 31)"
    using sq_holds_push [OF assms(1,2), of x] assms(3) by auto
  have "unat (sq_head q) \<le> length hs"
    using assms(1) by (auto simp: sq_holds_def word_le_nat_alt)
  then have "length hs - 30 = length hs - (unat (sq_head q) + 30) + unat (sq_head q) \<or>
      length hs - 30 < unat (sq_head q)"
    by arith
  with \<open>unat (sq_head q) \<le> length hs\<close> show ?thesis by (auto simp: sq_list_def h Let_def max_def)
qed

lemma StatusQueue_latest_eq:
  assumes "sq_holds q hs"
  shows "StatusQueue_latest q = (if sq_list q hs = [] then None else Some (last hs))"
proof (cases "unat (sq_head q) < length hs")
  case True
  have q: "unat (sq_tail q) = length hs"
      "\<And>i. i < length hs \<Longrightarrow> length hs \<le> i + 32 \<Longrightarrow> sq_buf q ! (i mod 32) = hs ! i"
    using assms by (auto simp: sq_holds_def)
  have "unat (sq_tail q - 1) = length hs - 1"
    using True q(1) by (subst unat_sub) (auto simp: word_le_nat_alt)
  then have "StatusQueue_latest q = Some (sq_buf q ! ((length hs - 1) mod 32))"
    using True q(1) by (simp add: StatusQueue_latest_def Let_def word_le_nat_alt unat_mod)
  moreover have "sq_buf q ! ((length hs - 1) mod 32) = hs ! (length hs - 1)"
    using True by (intro q(2)) auto
  moreover have "hs \<noteq> []" using True by auto
  ultimately show ?thesis using True by (auto simp: sq_list_def last_conv_nth)
next
  case False
  then show ?thesis
    using assms by (auto simp: StatusQueue_latest_def sq_list_def sq_holds_def word_le_nat_alt Let_def)
qed

lemma StatusQueue_pop_eq:
  assumes "sq_holds q hs"
  shows "case sq_list q hs of
      [] \<Rightarrow> StatusQueue_pop q = (None, q)
    | x # xs \<Rightarrow> \<exists>q'. StatusQueue_pop q = (Some x, q') \<and> sq_holds q' hs \<and> sq_list q' hs = xs"
proof (cases "unat (sq_head q) < length hs")
  case True
  define h where "h = unat (sq_head q)"
  have q: "length (sq_buf q) = 32" "unat (sq_tail q) = length hs" "h \<le> length hs"
      "length hs - h \<le> 31" "length hs < 2 ^ 32" "sq_write_index q = sq_tail q"
      "\<And>i. i < length hs \<Longrightarrow> length hs \<le> i + 32 \<Longrightarrow> sq_buf q ! (i mod 32) = hs ! i"
    using assms by (auto simp: sq_holds_def h_def word_le_nat_alt)
  have h1: "unat (sq_head q + 1) = h + 1" using True q(5) by (simp add: h_def unat_Suc_word)
  have "sq_buf q ! (h mod 32) = hs ! h" using True q(4) by (intro q(7)) (auto simp: h_def)
  then have pop: "StatusQueue_pop q = (Some (hs ! h), q\<lparr>sq_head := sq_head q + 1\<rparr>)"
    using True q(2) by (simp add: StatusQueue_pop_def Let_def word_le_nat_alt unat_mod h_def)
  have "sq_holds (q\<lparr>sq_head := sq_head q + 1\<rparr>) hs"
    using True q h1 by (auto simp: sq_holds_def word_le_nat_alt h_def)
  moreover have "sq_list q hs = hs ! h # drop (h + 1) hs"
    using True by (simp add: sq_list_def h_def Cons_nth_drop_Suc)
  ultimately show ?thesis using pop h1 by (simp add: sq_list_def)
next
  case False
  then show ?thesis
    using assms by (auto simp: StatusQueue_pop_def sq_list_def sq_holds_def word_le_nat_alt Let_def)
qed

section \<open>When the counters wrap around\<close>

primrec sq_push_n :: "nat \<Rightarrow> (nat \<Rightarrow> 'a) \<Rightarrow> 'a StatusQueue \<Rightarrow> 'a StatusQueue" where
  "sq_push_n 0 f q = q"
| "sq_push_n (Suc n) f q = snd (StatusQueue_push (f n) (sq_push_n n f q))"

lemma sq_push_n_members:
  "sq_tail (sq_push_n n f (StatusQueue_init storage)) = of_nat n \<and>
   sq_write_index (sq_push_n n f (StatusQueue_init storage)) = of_nat n \<and>
   sq_head (sq_push_n n f (StatusQueue_init storage)) = of_nat (n - 31)"
proof (induction n)
  case 0
  then show ?case by (simp add: StatusQueue_init_def)
next
  case (Suc n)
  define q where "q = sq_push_n n f (StatusQueue_init storage)"
  have q: "sq_write_index q = of_nat n" "sq_head q = of_nat (n - 31)" using Suc.IH by (simp_all add: q_def)
  have "of_nat n + 1 - of_nat (n - 31) = (if n < 31 then of_nat (n + 1) else (32 :: u32))"
    by (auto simp: of_nat_diff)
  moreover have "\<not> of_nat (n + 1) > (31 :: u32)" if "n < 31"
    using that by (simp add: word_less_nat_alt unat_of_nat del: of_nat_add of_nat_Suc)
  ultimately show ?case
    by (auto simp: q_def [symmetric] StatusQueue_push_def Let_def q of_nat_diff)
qed

section \<open>Properties\<close>

text \<open>\<open>sq_push_all\<close>: a run of pushes, in order.\<close>

definition sq_push_all :: "'a list \<Rightarrow> 'a StatusQueue \<Rightarrow> 'a StatusQueue" where
  "sq_push_all xs q = fold (\<lambda>x q. snd (StatusQueue_push x q)) xs q"

lemma sq_push_all_holds:
  assumes "sq_holds q hs" "length hs + length xs < 2 ^ 32"
  shows "sq_holds (sq_push_all xs q) (hs @ xs) \<and>
    unat (sq_head (sq_push_all xs q)) = max (unat (sq_head q)) (length hs + length xs - 31)"
  using assms
proof (induction xs arbitrary: q hs)
  case Nil
  then show ?case by (auto simp: sq_push_all_def sq_holds_def)
next
  case (Cons x xs)
  obtain q1 where q1: "StatusQueue_push x q = (True, q1)" "sq_holds q1 (hs @ [x])"
      "unat (sq_head q1) = max (unat (sq_head q)) (length hs + 1 - 31)"
    using sq_holds_push [OF Cons.prems(1), of x] Cons.prems(2) by auto
  with Cons.IH [OF q1(2)] Cons.prems(2) show ?case by (auto simp: sq_push_all_def)
qed

text \<open>
  C27. After any run of fewer than \<open>2 ^ 32\<close> pushes into a new status queue without a pop, the
  latest snapshot is the one pushed last, and the queue holds exactly the 31 most recent ones (or
  all, if there were fewer) with the oldest of these next to pop.
\<close>

theorem StatusQueue_keeps_latest:
  assumes "length storage = 32" "length xs < 2 ^ 32" "xs \<noteq> []"
    and "q = sq_push_all xs (StatusQueue_init storage)"
  shows "StatusQueue_latest q = Some (last xs) \<and>
    fst (StatusQueue_pop q) = Some (hd (drop (length xs - 31) xs)) \<and>
    sq_list q xs = drop (length xs - 31) xs"
proof -
  have h: "sq_holds q xs" "unat (sq_head q) = length xs - 31"
    using sq_push_all_holds [OF sq_holds_init [OF assms(1)], of xs] assms(2,4)
    by (auto simp: StatusQueue_init_def)
  have l: "sq_list q xs = drop (length xs - 31) xs" using h(2) by (simp add: sq_list_def)
  then have "sq_list q xs \<noteq> []" using assms(3) by (simp flip: length_greater_0_conv)
  then obtain y ys where y: "sq_list q xs = y # ys" by (meson neq_Nil_conv)
  show ?thesis
    using StatusQueue_latest_eq [OF h(1)] StatusQueue_pop_eq [OF h(1)] y l by auto
qed

theorem StatusQueue_keeps_latest_witness:
  "StatusQueue_latest (sq_push_all [1, 2, 3 :: nat] (StatusQueue_init (replicate 32 0))) = Some (last [1, 2, 3]) \<and>
   fst (StatusQueue_pop (sq_push_all [1, 2, 3 :: nat] (StatusQueue_init (replicate 32 0)))) = Some (hd (drop (length [1, 2, 3 :: nat] - 31) [1, 2, 3])) \<and>
   sq_list (sq_push_all [1, 2, 3] (StatusQueue_init (replicate 32 0))) [1, 2, 3 :: nat] = drop (length [1, 2, 3 :: nat] - 31) [1, 2, 3]"
  by (rule StatusQueue_keeps_latest) simp_all

text \<open>
  C30. The counters are 32 bits wide and compared without regard to wrap-around: after exactly
  \<open>2 ^ 32\<close> pushes the queue reports that it is empty, although 31 snapshots are stored.
\<close>

theorem StatusQueue_wraps_to_empty:
  "StatusQueue_latest (sq_push_n (2 ^ 32) f (StatusQueue_init storage)) = None \<and>
   StatusQueue_pop (sq_push_n (2 ^ 32) f (StatusQueue_init storage))
     = (None, sq_push_n (2 ^ 32) f (StatusQueue_init storage))"
proof -
  have e: "StatusQueue_latest q = None \<and> StatusQueue_pop q = (None, q)" if "sq_tail q = 0" for q :: "'a StatusQueue"
    using that by (simp add: StatusQueue_latest_def StatusQueue_pop_def)
  show ?thesis by (rule e) (use sq_push_n_members [of "2 ^ 32" f storage] in simp)
qed

end
