(* ===== verification/Control_Loop.thy ===== *)
theory Control_Loop
  imports Device Cmd_Queue Status_Queue "HOL-Library.Monad_Syntax"
begin

text \<open>
  The operations of \<open>include/core/ControlLoop.hpp\<close> and \<open>src/core/ControlLoop.cpp\<close>. The
  member variables are a record; the client that \<open>modbus_client_\<close> points to is the state
  \<open>'c\<close> in it, worked on by the operations \<open>ops\<close> of its class, and a null pointer is \<open>None\<close>.
  The calls of the settings callback are recorded in \<open>settings_calls\<close>. An operation that can
  run into undefined behaviour (a null pointer that is followed, a \<open>float\<close> that does not fit
  an \<open>int16_t\<close>) has an \<open>option\<close> result, \<open>None\<close> being that behaviour. The log output is left out.
\<close>

section \<open>Data\<close>

datatype OccupancyMode = Away | Sleep | Home

record StatusSnapshot =
  outdoor_temp :: fp
  indoor_temp :: fp
  leaving_water_temp :: fp
  entering_water_temp :: fp
  dhw_tank_temp :: fp
  dhw_target :: fp
  heating_target :: fp
  running_mode :: int
  running_status :: int
  dhw_priority :: bool
  is_running :: bool
  device_online :: bool
  ac_current :: fp
  dc_current :: fp
  ac_voltage :: fp
  dc_voltage :: fp
  ac_power_va :: fp
  ac_power_w :: fp
  power_valid :: bool
  compressor_freq :: fp
  water_flow :: fp
  unit_capacity_kw :: int
  actual_capacity_output :: int
  dhw_valve_status :: int
  dhw_mode_status :: int
  odu_input_status :: int
  compressor_runtime_h :: int
  pump_runtime_h :: int
  heat_output_w :: fp
  cop :: fp
  cop_valid :: bool
  working_mode :: int
  occupancy_mode :: int

definition StatusSnapshot_default :: StatusSnapshot where
  "StatusSnapshot_default =
     \<lparr>outdoor_temp = Fin 0, indoor_temp = Fin 0, leaving_water_temp = Fin 0,
      entering_water_temp = Fin 0, dhw_tank_temp = Fin 0, dhw_target = Fin 0,
      heating_target = Fin 0, running_mode = 0, running_status = 0, dhw_priority = False,
      is_running = False, device_online = False, ac_current = Fin 0, dc_current = Fin 0,
      ac_voltage = Fin 0, dc_voltage = Fin 0, ac_power_va = Fin 0, ac_power_w = Fin 0,
      power_valid = False, compressor_freq = Fin 0, water_flow = Fin 0, unit_capacity_kw = 0,
      actual_capacity_output = 0, dhw_valve_status = - 1, dhw_mode_status = - 1,
      odu_input_status = 0, compressor_runtime_h = 0, pump_runtime_h = 0,
      heat_output_w = Fin 0, cop = Fin 0, cop_valid = False, working_mode = 0,
      occupancy_mode = 2\<rparr>"

datatype PriorityMode = Dhw | Heating

type_synonym settings = "int \<times> string \<times> fp \<times> fp"

record 'c ControlLoop =
  modbus_client :: "'c option"
  cmd_queue :: "Command CmdQueue option"
  status_queue :: "StatusSnapshot StatusQueue option"
  running :: bool
  stop_requested :: bool
  kick_generation :: "64 word"
  current_priority :: PriorityMode
  current_mode :: int
  desired_working_mode :: int
  last_heating_target :: fp
  saved_dhw_target :: fp
  saved_heating_target :: fp
  saved_targets_initialized :: bool
  settings_callback :: bool
  settings_calls :: "settings list"
  mDhwTarget :: fp
  mHeatingTarget :: fp

definition ControlLoop_init :: "'c ControlLoop" where
  "ControlLoop_init =
     \<lparr>modbus_client = None, cmd_queue = None, status_queue = None, running = False,
      stop_requested = False, kick_generation = 0, current_priority = Dhw,
      current_mode = MODE_SET_HEAT_DHW, desired_working_mode = 3,
      last_heating_target = Fin 45, saved_dhw_target = Fin 46, saved_heating_target = Fin 45,
      saved_targets_initialized = False, settings_callback = False, settings_calls = [],
      mDhwTarget = Fin 45, mHeatingTarget = Fin 40\<rparr>"

section \<open>Settings\<close>

definition setInitialSettings ::
    "int \<Rightarrow> string \<Rightarrow> fp \<Rightarrow> fp \<Rightarrow> 'c ControlLoop \<Rightarrow> 'c ControlLoop" where
  "setInitialSettings wmode priority dhw heating s =
     s\<lparr>desired_working_mode := wmode,
       current_priority := (if priority = ''heating'' then Heating else Dhw),
       mDhwTarget := dhw, mHeatingTarget := heating\<rparr>"

definition setSettingsCallback :: "'c ControlLoop \<Rightarrow> 'c ControlLoop" where
  "setSettingsCallback s = s\<lparr>settings_callback := True\<rparr>"

fun priorityToString :: "PriorityMode \<Rightarrow> string" where
  "priorityToString Heating = ''heating''"
| "priorityToString Dhw = ''dhw''"

definition fireSettingsCallback :: "'c ControlLoop \<Rightarrow> 'c ControlLoop" where
  "fireSettingsCallback s =
     (if settings_callback s
      then s\<lparr>settings_calls := settings_calls s @
               [(desired_working_mode s, priorityToString (current_priority s),
                 mDhwTarget s, mHeatingTarget s)]\<rparr>
      else s)"

section \<open>Starting, stopping and waking\<close>

text \<open>\<open>start\<close>: the flag beside the new state says whether a thread was created.\<close>

definition start ::
    "'c option \<Rightarrow> Command CmdQueue option \<Rightarrow> StatusSnapshot StatusQueue option \<Rightarrow>
     'c ControlLoop \<Rightarrow> bool \<times> bool \<times> 'c ControlLoop" where
  "start client cmds stats s =
     (if running s then (True, False, s)
      else (True, True, s\<lparr>modbus_client := client, cmd_queue := cmds, status_queue := stats,
                          stop_requested := False, running := True\<rparr>))"

definition kick :: "'c ControlLoop \<Rightarrow> 'c ControlLoop" where
  "kick s = s\<lparr>kick_generation := kick_generation s + 1\<rparr>"

text \<open>\<open>stop\<close> up to the point where it joins the thread.\<close>

definition request_stop :: "'c ControlLoop \<Rightarrow> 'c ControlLoop" where
  "request_stop s =
     (if \<not> running s then s else kick (s\<lparr>stop_requested := True, running := False\<rparr>))"

definition isRunning :: "'c ControlLoop \<Rightarrow> bool" where
  "isRunning s = running s"

section \<open>Register writes\<close>

definition setRunningMode ::
    "'c IModbusClient \<Rightarrow> int \<Rightarrow> 'c ControlLoop \<Rightarrow> int \<times> 'c ControlLoop" where
  "setRunningMode ops mode s =
     (case modbus_client s of
        None \<Rightarrow> (- 1, s)
      | Some c \<Rightarrow>
          if mode < 0 \<or> mode > 2 then (- 1, s)
          else case m_writeRegister ops REG_RUNNING_MODE (to_u16 mode) c of
                 (Inr _, c') \<Rightarrow> (0, s\<lparr>modbus_client := Some c'\<rparr>)
               | (Inl _, c') \<Rightarrow> (- 1, s\<lparr>modbus_client := Some c'\<rparr>))"

definition setDhwTarget ::
    "'c IModbusClient \<Rightarrow> fp \<Rightarrow> 'c ControlLoop \<Rightarrow> (int \<times> 'c ControlLoop) option" where
  "setDhwTarget ops temp s =
     (case modbus_client s of
        None \<Rightarrow> Some (- 1, s)
      | Some c \<Rightarrow> do {
          raw_temp \<leftarrow> temp_to_raw temp;
          case m_writeRegister ops REG_DHW_TARGET raw_temp c of
            (Inr _, c') \<Rightarrow>
              Some (0, fireSettingsCallback (s\<lparr>modbus_client := Some c', mDhwTarget := temp\<rparr>))
          | (Inl _, c') \<Rightarrow> Some (- 1, s\<lparr>modbus_client := Some c'\<rparr>) })"

definition setHeatingTarget ::
    "'c IModbusClient \<Rightarrow> fp \<Rightarrow> 'c ControlLoop \<Rightarrow> (int \<times> 'c ControlLoop) option" where
  "setHeatingTarget ops temp s =
     (case modbus_client s of
        None \<Rightarrow> Some (- 1, s)
      | Some c \<Rightarrow> do {
          raw_temp \<leftarrow> temp_to_raw temp;
          case m_writeRegister ops REG_HEATING_TARGET raw_temp c of
            (Inr _, c') \<Rightarrow>
              Some (0, fireSettingsCallback (s\<lparr>modbus_client := Some c', mHeatingTarget := temp\<rparr>))
          | (Inl _, c') \<Rightarrow> Some (- 1, s\<lparr>modbus_client := Some c'\<rparr>) })"

text \<open>\<open>modbus_client_->writeRegister\<close> without a check of the pointer.\<close>

definition client_write ::
    "'c IModbusClient \<Rightarrow> u16 \<Rightarrow> u16 \<Rightarrow> 'c ControlLoop
     \<Rightarrow> ((ModbusException + unit) \<times> 'c ControlLoop) option" where
  "client_write ops a v s =
     (case modbus_client s of
        None \<Rightarrow> None
      | Some c \<Rightarrow> (case m_writeRegister ops a v c of
                    (r, c') \<Rightarrow> Some (r, s\<lparr>modbus_client := Some c'\<rparr>)))"

text \<open>The \<open>try\<close> block that writes the priority register and then remembers the priority.\<close>

definition write_priority ::
    "'c IModbusClient \<Rightarrow> u16 \<Rightarrow> PriorityMode \<Rightarrow> 'c ControlLoop \<Rightarrow> 'c ControlLoop option" where
  "write_priority ops v p s = do {
     (r, s) \<leftarrow> client_write ops REG_DHW_PRIORITY v s;
     case r of Inr _ \<Rightarrow> Some (s\<lparr>current_priority := p\<rparr>) | Inl _ \<Rightarrow> Some s }"

section \<open>Commands\<close>

definition device_mode :: "int \<Rightarrow> int" where
  "device_mode wmode =
     (if wmode = 0 then MODE_SET_OFF
      else if wmode = 1 then MODE_SET_HEAT_DHW
      else if wmode = 2 then MODE_SET_HEAT_DHW
      else if wmode = 3 then MODE_SET_HEAT_DHW
      else MODE_SET_HEAT_DHW)"

text \<open>\<open>CMD_SET_RUNNING_MODE\<close>: the overrides of targets and priority once the mode is written.\<close>

definition mode_overrides ::
    "'c IModbusClient \<Rightarrow> int \<Rightarrow> 'c ControlLoop \<Rightarrow> 'c ControlLoop option" where
  "mode_overrides ops wmode s =
     (if wmode = 1 then do {
        (_, s) \<leftarrow> setHeatingTarget ops HEATING_TARGET_MIN s;
        write_priority ops 1 Dhw s }
      else if wmode = 2 then do {
        (_, s) \<leftarrow> setDhwTarget ops DHW_TARGET_MIN s;
        write_priority ops 0 Heating s }
      else if wmode = 3 then do {
        (_, s) \<leftarrow> setDhwTarget ops (saved_dhw_target s) s;
        (_, s) \<leftarrow> setHeatingTarget ops (saved_heating_target s) s;
        write_priority ops 1 Dhw s }
      else Some s)"

definition set_working_mode ::
    "'c IModbusClient \<Rightarrow> int \<Rightarrow> 'c ControlLoop \<Rightarrow> 'c ControlLoop option" where
  "set_working_mode ops wmode s =
     (let s = fireSettingsCallback (s\<lparr>desired_working_mode := wmode\<rparr>);
          target_device_mode = device_mode wmode;
          (rc, s) = setRunningMode ops target_device_mode s
      in if rc = 0 then mode_overrides ops wmode (s\<lparr>current_mode := target_device_mode\<rparr>)
         else Some s)"

definition exec_command ::
    "'c IModbusClient \<Rightarrow> Command \<Rightarrow> 'c ControlLoop \<Rightarrow> 'c ControlLoop option" where
  "exec_command ops cmd s =
     (case cmd_type cmd of
        CMD_SET_DHW_TEMP \<Rightarrow> do {
          (_, s) \<leftarrow> setDhwTarget ops (float_val cmd) s;
          Some (s\<lparr>saved_dhw_target := float_val cmd\<rparr>) }
      | CMD_SET_HEATING_TEMP \<Rightarrow> do {
          (_, s) \<leftarrow> setHeatingTarget ops (float_val cmd) s;
          Some (s\<lparr>last_heating_target := float_val cmd, saved_heating_target := float_val cmd\<rparr>) }
      | CMD_SET_PRIORITY \<Rightarrow> do {
          (r, s) \<leftarrow> client_write ops REG_DHW_PRIORITY (to_u16 (int_val cmd)) s;
          case r of
            Inr _ \<Rightarrow> Some (fireSettingsCallback
                      (s\<lparr>current_priority := (if int_val cmd = 1 then Dhw else Heating)\<rparr>))
          | Inl _ \<Rightarrow> Some s }
      | CMD_SET_OCCUPANCY_MODE \<Rightarrow> do {
          (_, s) \<leftarrow> client_write ops REG_OCCUPANCY_MODE (to_u16 (int_val cmd)) s;
          Some s }
      | CMD_SET_RUNNING_MODE \<Rightarrow> set_working_mode ops (int_val cmd) s
      | CMD_OTHER _ \<Rightarrow> Some s)"

text \<open>The loop of \<open>processCommands\<close>; \<open>None\<close> also stands for a loop that does not end.\<close>

partial_function (option) process_queue ::
    "'c IModbusClient \<Rightarrow> Command CmdQueue \<Rightarrow> 'c ControlLoop \<Rightarrow> (Command CmdQueue \<times> 'c ControlLoop) option"
  where
  "process_queue ops q s =
     (case CmdQueue_pop q of
        (None, q') \<Rightarrow> Some (q', s)
      | (Some cmd, q') \<Rightarrow> Option.bind (exec_command ops cmd s) (process_queue ops q'))"

declare process_queue.simps [code]

definition processCommands :: "'c IModbusClient \<Rightarrow> 'c ControlLoop \<Rightarrow> 'c ControlLoop option" where
  "processCommands ops s =
     (case cmd_queue s of
        None \<Rightarrow> Some s
      | Some q \<Rightarrow> do {
          (q', s') \<leftarrow> process_queue ops q s;
          Some (s'\<lparr>cmd_queue := Some q'\<rparr>) })"


section \<open>Reading the status\<close>

text \<open>
  The local state of \<open>readStatus\<close>: the object and the snapshot it fills, \<open>ok\<close>, and the local
  variables of the power block. The client is threaded beside it.
\<close>

record 'c read_state =
  self :: "'c ControlLoop"
  status :: StatusSnapshot
  ok :: bool
  l_ac_current :: fp
  l_ac_voltage :: fp
  got_current :: bool
  got_voltage :: bool

type_synonym 'c try_block = "u16 \<times> (i16 \<Rightarrow> 'c read_state \<Rightarrow> 'c read_state) \<times> ('c read_state \<Rightarrow> 'c read_state)"

text \<open>\<open>try { raw = modbus_client_->readRegister(a); good } catch (ModbusException) { bad }\<close>\<close>

definition try_read ::
    "'c IModbusClient \<Rightarrow> 'c try_block \<Rightarrow> 'c \<times> 'c read_state \<Rightarrow> 'c \<times> 'c read_state" where
  "try_read ops b cx =
     (case b of (a, good, bad) \<Rightarrow> case cx of (c, x) \<Rightarrow>
        (case m_readRegister ops a c of
           (Inr raw, c') \<Rightarrow> (c', good raw x)
         | (Inl _, c') \<Rightarrow> (c', bad x)))"

abbreviation set_status :: "(StatusSnapshot \<Rightarrow> StatusSnapshot) \<Rightarrow> 'c read_state \<Rightarrow> 'c read_state" where
  "set_status f x \<equiv> x\<lparr>status := f (status x)\<rparr>"

abbreviation failed :: "'c read_state \<Rightarrow> 'c read_state" where
  "failed x \<equiv> x\<lparr>ok := False\<rparr>"

definition got_running_mode :: "i16 \<Rightarrow> 'c read_state \<Rightarrow> 'c read_state" where
  "got_running_mode raw x =
     (let x = set_status (running_mode_update (\<lambda>_. sint raw)) x
      in if sint raw = 0 \<or> sint raw = 1 \<or> sint raw = 2
         then x\<lparr>self := (self x)\<lparr>current_mode := sint raw\<rparr>\<rparr> else x)"

definition got_dhw_target :: "i16 \<Rightarrow> 'c read_state \<Rightarrow> 'c read_state" where
  "got_dhw_target raw x =
     (let x = set_status (dhw_target_update (\<lambda>_. raw_to_temp raw)) x
      in if \<not> saved_targets_initialized (self x)
         then x\<lparr>self := (self x)\<lparr>saved_dhw_target := dhw_target (status x)\<rparr>\<rparr> else x)"

definition got_heating_target :: "i16 \<Rightarrow> 'c read_state \<Rightarrow> 'c read_state" where
  "got_heating_target raw x =
     (let x = set_status (heating_target_update (\<lambda>_. raw_to_temp raw)) x;
          x = x\<lparr>self := (self x)\<lparr>last_heating_target := heating_target (status x)\<rparr>\<rparr>
      in if \<not> saved_targets_initialized (self x)
         then x\<lparr>self := (self x)\<lparr>saved_heating_target := heating_target (status x)\<rparr>\<rparr> else x)"

definition main_blocks :: "'c try_block list" where
  "main_blocks =
     [(REG_OUTDOOR_TEMP, \<lambda>raw. set_status (outdoor_temp_update (\<lambda>_. raw_to_temp raw)), failed),
      (REG_INDOOR_TEMP, \<lambda>raw. set_status (indoor_temp_update (\<lambda>_. raw_to_temp raw)), \<lambda>x. x),
      (REG_LEAVING_WATER_TEMP, \<lambda>raw. set_status (leaving_water_temp_update (\<lambda>_. raw_to_temp raw)), failed),
      (REG_ENTERING_WATER_TEMP, \<lambda>raw. set_status (entering_water_temp_update (\<lambda>_. raw_to_temp raw)), \<lambda>x. x),
      (REG_DHW_TANK_TEMP, \<lambda>raw. set_status (dhw_tank_temp_update (\<lambda>_. raw_to_temp raw)), failed),
      (REG_RUNNING_MODE, got_running_mode, failed),
      (REG_RUNNING_STATUS,
        \<lambda>raw. set_status (\<lambda>st. st\<lparr>running_status := sint raw, is_running := sint raw \<noteq> MODE_STATUS_OFF\<rparr>), failed),
      (REG_DHW_TARGET, got_dhw_target, failed),
      (REG_HEATING_TARGET, got_heating_target,
        \<lambda>x. set_status (heating_target_update (\<lambda>_. last_heating_target (self x))) x),
      (REG_DHW_PRIORITY, \<lambda>raw. set_status (dhw_priority_update (\<lambda>_. sint raw \<noteq> 0)), failed),
      (REG_OCCUPANCY_MODE, \<lambda>raw. set_status (occupancy_mode_update (\<lambda>_. sint raw)), \<lambda>x. x)]"

definition got_ac_current :: "i16 \<Rightarrow> 'c read_state \<Rightarrow> 'c read_state" where
  "got_ac_current raw x =
     (let x = set_status (ac_current_update (\<lambda>_. fp_mult f32 (f32_of_int (sint raw)) (Fin 2))) x
      in x\<lparr>l_ac_current := ac_current (status x), got_current := True\<rparr>)"

definition got_ac_voltage :: "i16 \<Rightarrow> 'c read_state \<Rightarrow> 'c read_state" where
  "got_ac_voltage raw x =
     (let x = set_status (ac_voltage_update (\<lambda>_. f32_of_int (sint raw))) x
      in x\<lparr>l_ac_voltage := ac_voltage (status x), got_voltage := True\<rparr>)"

definition power_blocks :: "'c try_block list" where
  "power_blocks =
     [(REG_AC_CURRENT, got_ac_current, set_status (ac_current_update (\<lambda>_. Fin 0))),
      (REG_DC_CURRENT, \<lambda>raw. set_status (dc_current_update (\<lambda>_. fp_mult f32 (f32_of_int (sint raw)) (Fin 4))),
        set_status (dc_current_update (\<lambda>_. Fin 0))),
      (REG_AC_VOLTAGE, got_ac_voltage, set_status (ac_voltage_update (\<lambda>_. Fin 0))),
      (REG_DC_VOLTAGE, \<lambda>raw. set_status (dc_voltage_update (\<lambda>_. fp_div f32 (f32_of_int (sint raw)) (Fin 2))),
        set_status (dc_voltage_update (\<lambda>_. Fin 0)))]"

definition compute_power :: "'c read_state \<Rightarrow> 'c read_state" where
  "compute_power x =
     (if got_current x \<and> got_voltage x
      then set_status (\<lambda>st.
             let va = fp_mult f32 (l_ac_voltage x) (l_ac_current x)
             in st\<lparr>ac_power_va := va, ac_power_w := fp_mult f32 va ESTIMATED_POWER_FACTOR,
                   power_valid := True\<rparr>) x
      else set_status (\<lambda>st. st\<lparr>ac_power_va := Fin 0, ac_power_w := Fin 0, power_valid := False\<rparr>) x)"

definition diagnostic_blocks :: "'c try_block list" where
  "diagnostic_blocks =
     [(REG_UNIT_CAPACITY, \<lambda>raw. set_status (unit_capacity_kw_update (\<lambda>_. sint raw)),
        set_status (unit_capacity_kw_update (\<lambda>_. 0))),
      (REG_COMPRESSOR_FREQ, \<lambda>raw. set_status (compressor_freq_update (\<lambda>_. f32_of_int (sint raw))),
        set_status (compressor_freq_update (\<lambda>_. Fin 0))),
      (REG_WATER_FLOW, \<lambda>raw. set_status (water_flow_update (\<lambda>_. fp_div f32 (f32_of_int (sint raw)) (Fin 100))),
        set_status (water_flow_update (\<lambda>_. Fin 0))),
      (REG_ACTUAL_CAPACITY_OUTPUT, \<lambda>raw. set_status (actual_capacity_output_update (\<lambda>_. sint raw)),
        set_status (actual_capacity_output_update (\<lambda>_. 0))),
      (REG_DHW_VALVE_STATUS, \<lambda>raw. set_status (dhw_valve_status_update (\<lambda>_. sint raw)),
        set_status (dhw_valve_status_update (\<lambda>_. - 1))),
      (REG_DHW_MODE_STATUS, \<lambda>raw. set_status (dhw_mode_status_update (\<lambda>_. sint raw)),
        set_status (dhw_mode_status_update (\<lambda>_. - 1))),
      (REG_ODU_INPUT_STATUS, \<lambda>raw. set_status (odu_input_status_update (\<lambda>_. sint raw)),
        set_status (odu_input_status_update (\<lambda>_. 0))),
      (REG_COMPRESSOR_RUNTIME, \<lambda>raw. set_status (compressor_runtime_h_update (\<lambda>_. sint raw)),
        set_status (compressor_runtime_h_update (\<lambda>_. 0))),
      (REG_PUMP_RUNTIME, \<lambda>raw. set_status (pump_runtime_h_update (\<lambda>_. sint raw)),
        set_status (pump_runtime_h_update (\<lambda>_. 0)))]"

definition compute_cop :: "StatusSnapshot \<Rightarrow> StatusSnapshot" where
  "compute_cop st =
     (let st = st\<lparr>heat_output_w := Fin 0, cop := Fin 0, cop_valid := False\<rparr>
      in if fp_less (f32 (1 / 100)) (water_flow st) \<and> power_valid st \<and>
            fp_less (Fin 0) (leaving_water_temp st) \<and> fp_less (Fin (- 50)) (entering_water_temp st)
         then let delta_t = fp_sub f32 (leaving_water_temp st) (entering_water_temp st)
              in if fp_less (f32 (1 / 10)) delta_t
                 then let flow_kg_s = fp_div f32 (fp_mult f32 (water_flow st) (Fin 1000)) (Fin 3600);
                          st = st\<lparr>heat_output_w := fp_mult f32 (fp_mult f32 flow_kg_s (Fin 4186)) delta_t\<rparr>
                      in if fp_less (Fin 0) (ac_power_w st)
                         then st\<lparr>cop := fp_div f32 (heat_output_w st) (ac_power_w st), cop_valid := True\<rparr>
                         else st
                 else st
         else st)"

definition readStatus ::
    "'c IModbusClient \<Rightarrow> StatusSnapshot \<Rightarrow> 'c ControlLoop \<Rightarrow> bool \<times> StatusSnapshot \<times> 'c ControlLoop" where
  "readStatus ops st s =
     (case modbus_client s of
        None \<Rightarrow> (False, st, s)
      | Some c \<Rightarrow>
          let x = \<lparr>self = s, status = st, ok = True, l_ac_current = Fin 0, l_ac_voltage = Fin 0,
                   got_current = False, got_voltage = False\<rparr>;
              (c, x) = fold (try_read ops) main_blocks (c, x);
              (c, x) = fold (try_read ops) power_blocks (c, x);
              x = compute_power x;
              (c, x) = fold (try_read ops) diagnostic_blocks (c, x);
              st = (compute_cop (status x))\<lparr>device_online := ok x\<rparr>;
              s = (self x)\<lparr>modbus_client := Some c\<rparr>;
              s = (if ok x then s\<lparr>saved_targets_initialized := True\<rparr> else s)
          in (ok x, st, s))"

section \<open>Control logic\<close>

definition correct_mode :: "'c IModbusClient \<Rightarrow> 'c ControlLoop \<Rightarrow> 'c ControlLoop" where
  "correct_mode ops s =
     (let desired_device_mode = device_mode (desired_working_mode s)
      in if current_mode s \<noteq> desired_device_mode
         then case setRunningMode ops desired_device_mode s of
                (rc, s) \<Rightarrow> if rc = 0 then s\<lparr>current_mode := desired_device_mode\<rparr> else s
         else s)"

definition enforce_targets ::
    "'c IModbusClient \<Rightarrow> StatusSnapshot \<Rightarrow> 'c ControlLoop \<Rightarrow> 'c ControlLoop option" where
  "enforce_targets ops st s =
     (if desired_working_mode s = 1 then
        (if fp_less (fp_add f32 HEATING_TARGET_MIN (Fin (1 / 2))) (heating_target st)
         then map_option snd (setHeatingTarget ops HEATING_TARGET_MIN s) else Some s)
      else if desired_working_mode s = 2 then
        (if fp_less (fp_add f32 DHW_TARGET_MIN (Fin (1 / 2))) (dhw_target st)
         then map_option snd (setDhwTarget ops DHW_TARGET_MIN s) else Some s)
      else if desired_working_mode s = 3 then do {
        s \<leftarrow> (if fp_less (Fin (1 / 2)) (fp_abs (fp_sub f32 (dhw_target st) (saved_dhw_target s)))
              then map_option snd (setDhwTarget ops (saved_dhw_target s) s) else Some s);
        (if fp_less (Fin (1 / 2)) (fp_abs (fp_sub f32 (heating_target st) (saved_heating_target s)))
         then map_option snd (setHeatingTarget ops (saved_heating_target s) s) else Some s) }
      else Some s)"

definition enforce_priority :: "'c IModbusClient \<Rightarrow> 'c ControlLoop \<Rightarrow> 'c ControlLoop option" where
  "enforce_priority ops s =
     (if desired_working_mode s = 1 \<or> desired_working_mode s = 3 then
        (if current_priority s \<noteq> Dhw then write_priority ops 1 Dhw s else Some s)
      else if desired_working_mode s = 2 then
        (if current_priority s \<noteq> Heating then write_priority ops 0 Heating s else Some s)
      else Some s)"

definition applyControlLogic ::
    "'c IModbusClient \<Rightarrow> StatusSnapshot \<Rightarrow> 'c ControlLoop \<Rightarrow> 'c ControlLoop option" where
  "applyControlLogic ops st s = do {
     s \<leftarrow> enforce_targets ops st (correct_mode ops s);
     enforce_priority ops s }"

section \<open>The thread\<close>

text \<open>The inner reconnection loop: \<open>stops n\<close> is what \<open>stop_requested_\<close> reads at its \<open>n\<close>-th test.\<close>

function reconnect ::
    "'c IModbusClient \<Rightarrow> (nat \<Rightarrow> bool) \<Rightarrow> nat \<Rightarrow> 'c \<Rightarrow> nat \<times> 'c" where
  "reconnect ops stops retries c =
     (if \<not> stops retries \<and> retries < MODBUS_MAX_RETRIES
      then case m_connect ops c of
             (True, c') \<Rightarrow> (retries, c')
           | (False, c') \<Rightarrow> reconnect ops stops (retries + 1) c'
      else (retries, c))"
  by pat_completeness auto
termination
  by (relation "measure (\<lambda>(ops, stops, retries, c). MODBUS_MAX_RETRIES - retries)") auto

declare reconnect.simps [simp del]

text \<open>
  The head of an iteration: \<open>Some (True, s)\<close> when the commands are processed next, and
  \<open>Some (False, s)\<close> when it ends with \<open>continue\<close>.
\<close>

definition ensure_connected ::
    "'c IModbusClient \<Rightarrow> (nat \<Rightarrow> bool) \<Rightarrow> 'c ControlLoop \<Rightarrow> (bool \<times> 'c ControlLoop) option" where
  "ensure_connected ops stops s =
     (case modbus_client s of
        None \<Rightarrow> if \<not> stops 0 then None else Some (True, s)
      | Some c \<Rightarrow>
          if \<not> m_isConnected ops c
          then case reconnect ops stops 0 c of
                 (retries, c') \<Rightarrow> Some (\<not> MODBUS_MAX_RETRIES \<le> retries, s\<lparr>modbus_client := Some c'\<rparr>)
          else Some (True, s))"

definition publish :: "StatusSnapshot \<Rightarrow> 'c ControlLoop \<Rightarrow> 'c ControlLoop" where
  "publish st s =
     (case status_queue s of
        None \<Rightarrow> s
      | Some q \<Rightarrow> s\<lparr>status_queue := Some (snd (StatusQueue_push st q))\<rparr>)"

definition publish_initial :: "'c IModbusClient \<Rightarrow> 'c ControlLoop \<Rightarrow> 'c ControlLoop" where
  "publish_initial ops s =
     (case readStatus ops StatusSnapshot_default s of
        (True, st, s) \<Rightarrow>
          publish (st\<lparr>device_online := True, working_mode := desired_working_mode s\<rparr>) s
      | (False, st, s) \<Rightarrow> s)"

definition read_and_control :: "'c IModbusClient \<Rightarrow> 'c ControlLoop \<Rightarrow> 'c ControlLoop option" where
  "read_and_control ops s =
     (case readStatus ops StatusSnapshot_default s of
        (True, st, s) \<Rightarrow> do {
          s \<leftarrow> applyControlLogic ops st s;
          Some (publish (st\<lparr>working_mode := desired_working_mode s\<rparr>) s) }
      | (False, st, s) \<Rightarrow>
          Some (publish (st\<lparr>device_online := False, working_mode := desired_working_mode s\<rparr>) s))"

definition loop_iteration ::
    "'c IModbusClient \<Rightarrow> (nat \<Rightarrow> bool) \<Rightarrow> 'c ControlLoop \<Rightarrow> 'c ControlLoop option" where
  "loop_iteration ops stops s = do {
     (go, s) \<leftarrow> ensure_connected ops stops s;
     if \<not> go then Some s
     else do {
       s \<leftarrow> processCommands ops s;
       read_and_control ops s } }"

text \<open>The time an iteration sleeps, and the predicate that ends the sleep early.\<close>

definition sleep_ms :: "int \<Rightarrow> int" where
  "sleep_ms elapsed_ms = 30 * 1000 - elapsed_ms"

definition wakes :: "64 word \<Rightarrow> 'c ControlLoop \<Rightarrow> bool" where
  "wakes observed_generation s \<longleftrightarrow>
     stop_requested s \<or> kick_generation s \<noteq> observed_generation \<or>
     (case cmd_queue s of None \<Rightarrow> False | Some q \<Rightarrow> \<not> CmdQueue_empty q)"

definition thread_exit :: "'c IModbusClient \<Rightarrow> 'c ControlLoop \<Rightarrow> 'c ControlLoop" where
  "thread_exit ops s = s\<lparr>modbus_client := map_option (m_disconnect ops) (modbus_client s), running := False\<rparr>"

end
