(* ===== verification/Control_Safety.thy ===== *)
theory Control_Safety
  imports Control_Loop
begin

text \<open>
  What every operation of the control loop keeps, whatever the client does: the members that
  other threads use, and, for a client that guards its writes, the invariant under which no
  operation runs into undefined behaviour and every write is a safe one.
\<close>

section \<open>Members the operations leave alone\<close>

definition frame :: "'c ControlLoop \<Rightarrow> Command CmdQueue option \<times> bool \<times> bool \<times> 64 word" where
  "frame s = (cmd_queue s, stop_requested s, running s, kick_generation s)"

lemma frame_update [simp]:
  "frame (s\<lparr>modbus_client := c\<rparr>) = frame s"
  "frame (s\<lparr>status_queue := q\<rparr>) = frame s"
  "frame (s\<lparr>current_priority := p\<rparr>) = frame s"
  "frame (s\<lparr>current_mode := m\<rparr>) = frame s"
  "frame (s\<lparr>desired_working_mode := m\<rparr>) = frame s"
  "frame (s\<lparr>last_heating_target := t\<rparr>) = frame s"
  "frame (s\<lparr>saved_dhw_target := t\<rparr>) = frame s"
  "frame (s\<lparr>saved_heating_target := t\<rparr>) = frame s"
  "frame (s\<lparr>saved_targets_initialized := b\<rparr>) = frame s"
  "frame (s\<lparr>mDhwTarget := t\<rparr>) = frame s"
  "frame (s\<lparr>mHeatingTarget := t\<rparr>) = frame s"
  "frame (s\<lparr>settings_calls := l\<rparr>) = frame s"
  by (simp_all add: frame_def)

lemma fireSettingsCallback_sel [simp]:
  "frame (fireSettingsCallback s) = frame s"
  "modbus_client (fireSettingsCallback s) = modbus_client s"
  "cmd_queue (fireSettingsCallback s) = cmd_queue s"
  "status_queue (fireSettingsCallback s) = status_queue s"
  "current_priority (fireSettingsCallback s) = current_priority s"
  "current_mode (fireSettingsCallback s) = current_mode s"
  "desired_working_mode (fireSettingsCallback s) = desired_working_mode s"
  "last_heating_target (fireSettingsCallback s) = last_heating_target s"
  "saved_dhw_target (fireSettingsCallback s) = saved_dhw_target s"
  "saved_heating_target (fireSettingsCallback s) = saved_heating_target s"
  "saved_targets_initialized (fireSettingsCallback s) = saved_targets_initialized s"
  by (simp_all add: fireSettingsCallback_def)

section \<open>Guarded states\<close>

text \<open>A temperature in a range of whole degrees, or one that the device reported.\<close>

definition target_ok :: "i16 set \<Rightarrow> int \<Rightarrow> int \<Rightarrow> fp \<Rightarrow> bool" where
  "target_ok S a b t \<longleftrightarrow>
     (\<exists>x. t = Fin x \<and> of_int a \<le> x \<and> x \<le> of_int b) \<or> (\<exists>v \<in> S. t = raw_to_temp v)"

lemma target_ok_mono: "target_ok S a b t \<Longrightarrow> S \<subseteq> S' \<Longrightarrow> target_ok S' a b t"
  by (auto simp: target_ok_def)

lemma target_ok_reported [intro]: "v \<in> S \<Longrightarrow> target_ok S a b (raw_to_temp v)"
  by (auto simp: target_ok_def)

lemma target_ok_Fin: "of_int a \<le> x \<Longrightarrow> x \<le> of_int b \<Longrightarrow> target_ok S a b (Fin x)"
  by (auto simp: target_ok_def)

lemma target_ok_raw:
  assumes "target_ok S a b t" "0 \<le> a" "b \<le> 3000"
  obtains w where "temp_to_raw t = Some w" "10 * a \<le> sint w \<and> sint w \<le> 10 * b \<or> w \<in> S"
  using assms(1) unfolding target_ok_def
proof (elim disjE exE bexE conjE)
  fix x assume "t = Fin x" "of_int a \<le> x" "x \<le> of_int b"
  then show thesis using temp_to_raw_between [of a x b] assms(2,3) that by auto
next
  fix v assume "v \<in> S" "t = raw_to_temp v"
  then show thesis using that [of v] by (simp add: temp_to_raw_raw_to_temp)
qed

text \<open>The commands whose values the device accepts; the mode of a mode command is free.\<close>

fun cmd_valid :: "Command \<Rightarrow> bool" where
  "cmd_valid cmd =
     (case cmd_type cmd of
        CMD_SET_DHW_TEMP \<Rightarrow> (case float_val cmd of Fin x \<Rightarrow> 40 \<le> x \<and> x \<le> 63 | _ \<Rightarrow> False)
      | CMD_SET_HEATING_TEMP \<Rightarrow> (case float_val cmd of Fin x \<Rightarrow> 25 \<le> x \<and> x \<le> 63 | _ \<Rightarrow> False)
      | CMD_SET_PRIORITY \<Rightarrow> int_val cmd \<in> {0, 1}
      | CMD_SET_OCCUPANCY_MODE \<Rightarrow> int_val cmd \<in> {0, 1, 2}
      | _ \<Rightarrow> True)"

definition queue_valid :: "Command CmdQueue \<Rightarrow> bool" where
  "queue_valid q \<longleftrightarrow> cq_inv q \<and> list_all cmd_valid (cq_list q)"

lemma device_mode_cases: "device_mode m \<in> {0, 2}"
  by (simp add: device_mode_def)

context write_guard
begin

definition guarded :: "'c ControlLoop \<Rightarrow> bool" where
  "guarded s \<longleftrightarrow>
     (\<exists>c. modbus_client s = Some c \<and> good c \<and>
          target_ok (seen c REG_DHW_TARGET) 40 63 (saved_dhw_target s) \<and>
          target_ok (seen c REG_HEATING_TARGET) 25 63 (saved_heating_target s))"

lemma guardedE:
  assumes "guarded s"
  obtains c where "modbus_client s = Some c" "good c"
    "target_ok (seen c REG_DHW_TARGET) 40 63 (saved_dhw_target s)"
    "target_ok (seen c REG_HEATING_TARGET) 25 63 (saved_heating_target s)"
  using assms by (auto simp: guarded_def)

lemma guarded_later:
  assumes "guarded s" "modbus_client s = Some c" "good c'" "seen c \<le> seen c'"
    and "modbus_client s' = Some c'" "saved_dhw_target s' = saved_dhw_target s"
    and "saved_heating_target s' = saved_heating_target s"
  shows "guarded s'"
  using assms by (auto simp: guarded_def le_fun_def intro: target_ok_mono)

lemma guarded_update [simp]:
  "guarded (s\<lparr>status_queue := q\<rparr>) = guarded s"
  "guarded (s\<lparr>cmd_queue := cq\<rparr>) = guarded s"
  "guarded (s\<lparr>current_priority := p\<rparr>) = guarded s"
  "guarded (s\<lparr>current_mode := m\<rparr>) = guarded s"
  "guarded (s\<lparr>desired_working_mode := m\<rparr>) = guarded s"
  "guarded (s\<lparr>last_heating_target := t\<rparr>) = guarded s"
  "guarded (s\<lparr>saved_targets_initialized := b\<rparr>) = guarded s"
  "guarded (s\<lparr>kick_generation := g\<rparr>) = guarded s"
  "guarded (s\<lparr>stop_requested := b\<rparr>) = guarded s"
  "guarded (s\<lparr>running := b\<rparr>) = guarded s"
  "guarded (fireSettingsCallback s) = guarded s"
  by (simp_all add: guarded_def)

lemma guarded_write:
  assumes "guarded s" "modbus_client s = Some c" "safe_write (seen c) a v"
    and "m_writeRegister ops a v c = (r, c')"
    and "modbus_client s' = Some c'" "saved_dhw_target s' = saved_dhw_target s"
    and "saved_heating_target s' = saved_heating_target s"
  shows "guarded s'"
  using guarded_later [OF assms(1,2) _ _ assms(5-7)] write_inv [OF _ assms(3,4)] assms(1,2)
  by (auto simp: guarded_def)

text \<open>A step that goes well: a result, again guarded, and the frame kept.\<close>

definition keeps :: "'c ControlLoop \<Rightarrow> 'c ControlLoop option \<Rightarrow> bool" where
  "keeps s r \<longleftrightarrow> (\<exists>s'. r = Some s' \<and> guarded s' \<and> frame s' = frame s)"

lemma keepsI [intro]: "guarded s' \<Longrightarrow> frame s' = frame s \<Longrightarrow> keeps s (Some s')"
  by (simp add: keeps_def)

lemma keeps_bind:
  "keeps s r \<Longrightarrow> (\<And>s'. guarded s' \<Longrightarrow> frame s' = frame s \<Longrightarrow> keeps s' (f s')) \<Longrightarrow> keeps s (Option.bind r f)"
  by (force simp: keeps_def)

lemma keeps_map_snd_bind:
  "keeps s (map_option snd r) \<Longrightarrow> (\<And>n s'. guarded s' \<Longrightarrow> frame s' = frame s \<Longrightarrow> keeps s' (f s'))
     \<Longrightarrow> keeps s (Option.bind r (\<lambda>(n, s). f s))"
  by (force simp: keeps_def)

lemma setRunningMode_keeps:
  assumes "guarded s" "m \<in> {0, 2}"
  shows "keeps s (Some (snd (setRunningMode ops m s)))"
proof -
  obtain c where c: "modbus_client s = Some c" using assms(1) by (rule guardedE)
  obtain r c' where w: "m_writeRegister ops REG_RUNNING_MODE (to_u16 m) c = (r, c')"
    by (cases "m_writeRegister ops REG_RUNNING_MODE (to_u16 m) c")
  have "safe_write (seen c) REG_RUNNING_MODE (to_u16 m)"
    using assms(2) by (auto simp: safe_write_def to_u16_def)
  from guarded_write [OF assms(1) c this w] show ?thesis
    using assms(2) c w by (auto simp: setRunningMode_def split: sum.split)
qed

lemma setDhwTarget_keeps:
  assumes "guarded s" "\<And>c. modbus_client s = Some c \<Longrightarrow> target_ok (seen c REG_DHW_TARGET) 40 63 t"
  shows "keeps s (map_option snd (setDhwTarget ops t s))"
proof -
  obtain c where c: "modbus_client s = Some c" using assms(1) by (rule guardedE)
  obtain w where w: "temp_to_raw t = Some w" "400 \<le> sint w \<and> sint w \<le> 630 \<or> w \<in> seen c REG_DHW_TARGET"
    using assms(2) [OF c] by (rule target_ok_raw) auto
  obtain r c' where m: "m_writeRegister ops REG_DHW_TARGET w c = (r, c')"
    by (cases "m_writeRegister ops REG_DHW_TARGET w c")
  have "safe_write (seen c) REG_DHW_TARGET w" using w(2) by (simp add: safe_write_def)
  from guarded_write [OF assms(1) c this m] show ?thesis
    using c m w(1) by (auto simp: setDhwTarget_def split: sum.split)
qed

lemma setHeatingTarget_keeps:
  assumes "guarded s" "\<And>c. modbus_client s = Some c \<Longrightarrow> target_ok (seen c REG_HEATING_TARGET) 25 63 t"
  shows "keeps s (map_option snd (setHeatingTarget ops t s))"
proof -
  obtain c where c: "modbus_client s = Some c" using assms(1) by (rule guardedE)
  obtain w where w: "temp_to_raw t = Some w" "250 \<le> sint w \<and> sint w \<le> 630 \<or> w \<in> seen c REG_HEATING_TARGET"
    using assms(2) [OF c] by (rule target_ok_raw) auto
  obtain r c' where m: "m_writeRegister ops REG_HEATING_TARGET w c = (r, c')"
    by (cases "m_writeRegister ops REG_HEATING_TARGET w c")
  have "safe_write (seen c) REG_HEATING_TARGET w" using w(2) by (simp add: safe_write_def)
  from guarded_write [OF assms(1) c this m] show ?thesis
    using c m w(1) by (auto simp: setHeatingTarget_def split: sum.split)
qed

lemma client_write_keeps:
  assumes "guarded s" "\<And>seen. safe_write seen a v"
  shows "keeps s (map_option snd (client_write ops a v s))"
proof -
  obtain c where c: "modbus_client s = Some c" using assms(1) by (rule guardedE)
  obtain r c' where w: "m_writeRegister ops a v c = (r, c')" by (cases "m_writeRegister ops a v c")
  from guarded_write [OF assms(1) c assms(2) w] show ?thesis
    using c w by (auto simp: client_write_def)
qed

lemma write_priority_keeps:
  assumes "guarded s" "v \<in> {0, 1}"
  shows "keeps s (write_priority ops v p s)"
proof -
  have "keeps s (map_option snd (client_write ops REG_DHW_PRIORITY v s))"
    using assms by (intro client_write_keeps) (auto simp: safe_write_def)
  then show ?thesis by (force simp: write_priority_def keeps_def split: sum.split)
qed

lemma keeps_setHeating_min: "guarded s \<Longrightarrow> keeps s (map_option snd (setHeatingTarget ops HEATING_TARGET_MIN s))"
  by (rule setHeatingTarget_keeps) (auto intro: target_ok_Fin)

lemma keeps_setDhw_min: "guarded s \<Longrightarrow> keeps s (map_option snd (setDhwTarget ops DHW_TARGET_MIN s))"
  by (rule setDhwTarget_keeps) (auto intro: target_ok_Fin)

lemma keeps_setHeating_saved:
  "guarded s \<Longrightarrow> keeps s (map_option snd (setHeatingTarget ops (saved_heating_target s) s))"
  by (rule setHeatingTarget_keeps) (auto elim: guardedE)

lemma keeps_setDhw_saved:
  "guarded s \<Longrightarrow> keeps s (map_option snd (setDhwTarget ops (saved_dhw_target s) s))"
  by (rule setDhwTarget_keeps) (auto elim: guardedE)

lemmas keeps_steps = keeps_setHeating_min keeps_setDhw_min keeps_setHeating_saved keeps_setDhw_saved
  write_priority_keeps

section \<open>Every operation of the loop\<close>

lemma mode_overrides_keeps: "guarded s \<Longrightarrow> keeps s (mode_overrides ops m s)"
  by (auto simp: mode_overrides_def intro!: keeps_map_snd_bind keeps_steps)

lemma set_working_mode_keeps:
  assumes "guarded s"
  shows "keeps s (set_working_mode ops m s)"
proof -
  let ?s = "fireSettingsCallback (s\<lparr>desired_working_mode := m\<rparr>)"
  obtain rc s1 where s1: "setRunningMode ops (device_mode m) ?s = (rc, s1)"
    by (cases "setRunningMode ops (device_mode m) ?s")
  have "keeps ?s (Some s1)"
    using setRunningMode_keeps [of ?s "device_mode m"] assms s1 device_mode_cases by simp
  then have g: "guarded s1" "frame s1 = frame s" by (auto simp: keeps_def)
  have "keeps (s1\<lparr>current_mode := device_mode m\<rparr>) (mode_overrides ops m (s1\<lparr>current_mode := device_mode m\<rparr>))"
    using g by (intro mode_overrides_keeps) simp
  then show ?thesis using g by (auto simp: set_working_mode_def s1 keeps_def)
qed

lemma guarded_saved_Fin:
  "guarded s \<Longrightarrow> 40 \<le> x \<Longrightarrow> x \<le> 63 \<Longrightarrow> guarded (s\<lparr>saved_dhw_target := Fin x\<rparr>)"
  "guarded s \<Longrightarrow> 25 \<le> x \<Longrightarrow> x \<le> 63 \<Longrightarrow> guarded (s\<lparr>saved_heating_target := Fin x\<rparr>)"
  by (auto simp: guarded_def target_ok_def)

lemma exec_command_keeps:
  assumes "guarded s" "cmd_valid cmd"
  shows "keeps s (exec_command ops cmd s)"
proof (cases "cmd_type cmd")
  case CMD_SET_DHW_TEMP
  with assms obtain x where x: "float_val cmd = Fin x" "40 \<le> x" "x \<le> 63" by (auto split: fp.splits)
  then have "keeps s (map_option snd (setDhwTarget ops (Fin x) s))"
    using assms by (intro setDhwTarget_keeps) (auto intro: target_ok_Fin)
  with x CMD_SET_DHW_TEMP show ?thesis
    by (auto simp: exec_command_def guarded_saved_Fin intro!: keeps_map_snd_bind)
next
  case CMD_SET_HEATING_TEMP
  with assms obtain x where x: "float_val cmd = Fin x" "25 \<le> x" "x \<le> 63" by (auto split: fp.splits)
  then have "keeps s (map_option snd (setHeatingTarget ops (Fin x) s))"
    using assms by (intro setHeatingTarget_keeps) (auto intro: target_ok_Fin)
  with x CMD_SET_HEATING_TEMP show ?thesis
    by (auto simp: exec_command_def guarded_saved_Fin intro!: keeps_map_snd_bind)
next
  case CMD_SET_PRIORITY
  with assms have "keeps s (map_option snd (client_write ops REG_DHW_PRIORITY (to_u16 (int_val cmd)) s))"
    by (intro client_write_keeps) (auto simp: safe_write_def to_u16_def)
  with CMD_SET_PRIORITY show ?thesis by (force simp: exec_command_def keeps_def split: sum.split)
next
  case CMD_SET_OCCUPANCY_MODE
  with assms have "keeps s (map_option snd (client_write ops REG_OCCUPANCY_MODE (to_u16 (int_val cmd)) s))"
    by (intro client_write_keeps) (auto simp: safe_write_def to_u16_def)
  with CMD_SET_OCCUPANCY_MODE show ?thesis by (auto simp: exec_command_def intro!: keeps_map_snd_bind)
next
  case CMD_SET_RUNNING_MODE
  with assms show ?thesis by (simp add: exec_command_def set_working_mode_keeps)
next
  case (CMD_OTHER n)
  with assms show ?thesis by (auto simp: exec_command_def)
qed

lemma process_queue_keeps:
  assumes "guarded s" "queue_valid q"
  shows "\<exists>q' s'. process_queue ops q s = Some (q', s') \<and> cq_inv q' \<and> cq_list q' = [] \<and>
    guarded s' \<and> frame s' = frame s"
  using assms
proof (induction "cq_list q" arbitrary: q s)
  case Nil
  then show ?case
    by (subst process_queue.simps) (auto simp: queue_valid_def cq.pop_empty)
next
  case (Cons cmd cmds)
  then obtain q1 where q1: "CmdQueue_pop q = (Some cmd, q1)" "cq_list q1 = cmds" "cq_inv q1"
    using cq.pop_some [of q cmd cmds] by (auto simp: queue_valid_def)
  have v: "cmd_valid cmd" "list_all cmd_valid cmds"
    using Cons.prems(2) Cons.hyps(2) [symmetric] by (auto simp: queue_valid_def)
  from exec_command_keeps [OF Cons.prems(1) v(1)] obtain s1
    where s1: "exec_command ops cmd s = Some s1" "guarded s1" "frame s1 = frame s" by (auto simp: keeps_def)
  from Cons.hyps(1) [of q1 s1] q1 s1 v(2) show ?case
    by (subst process_queue.simps) (auto simp: queue_valid_def)
qed

lemma processCommands_keeps:
  assumes "guarded s" "\<And>q. cmd_queue s = Some q \<Longrightarrow> queue_valid q"
  shows "\<exists>s'. processCommands ops s = Some s' \<and> guarded s' \<and>
    (\<forall>q'. cmd_queue s' = Some q' \<longrightarrow> cq_inv q' \<and> cq_list q' = []) \<and>
    cmd_queue s' = None = (cmd_queue s = None) \<and> stop_requested s' = stop_requested s"
proof (cases "cmd_queue s")
  case None
  with assms(1) show ?thesis by (auto simp: processCommands_def)
next
  case (Some q)
  with process_queue_keeps [OF assms(1) assms(2), of q] show ?thesis
    by (auto simp: processCommands_def frame_def)
qed

text \<open>Reading: a run of \<open>try\<close> blocks keeps what every block keeps.\<close>

definition read_guarded :: "'c \<times> 'c read_state \<Rightarrow> bool" where
  "read_guarded cx \<longleftrightarrow> guarded ((self (snd cx))\<lparr>modbus_client := Some (fst cx)\<rparr>)"

definition block_ok :: "'c try_block \<Rightarrow> bool" where
  "block_ok b \<longleftrightarrow> (case b of (a, g, f) \<Rightarrow>
     (\<forall>c x. read_guarded (c, x) \<longrightarrow> read_guarded (c, f x) \<and> frame (self (f x)) = frame (self x) \<and>
        (\<forall>raw \<in> seen c a. read_guarded (c, g raw x) \<and> frame (self (g raw x)) = frame (self x))))"

lemma try_read_guarded:
  assumes "read_guarded (c, x)" "block_ok b" "try_read ops b (c, x) = (c', x')"
  shows "read_guarded (c', x') \<and> frame (self x') = frame (self x)"
proof -
  obtain a g f where b: "b = (a, g, f)" by (cases b)
  obtain r c1 where r: "m_readRegister ops a c = (r, c1)" by (cases "m_readRegister ops a c")
  have "good c" using assms(1) by (auto simp: read_guarded_def guarded_def)
  with r have c1: "good c1" "seen c \<le> seen c1" "r = Inr v \<Longrightarrow> v \<in> seen c1 a" for v
    using read_inv read_seen by blast+
  have "read_guarded (c1, x)"
    using assms(1) guarded_later [OF _ _ c1(1,2)] by (auto simp: read_guarded_def)
  with assms(2,3) c1(3) show ?thesis
    by (auto simp: b r try_read_def block_ok_def split: sum.splits)
qed

lemma fold_try_read_guarded:
  assumes "read_guarded (c, x)" "list_all block_ok bs" "fold (try_read ops) bs (c, x) = (c', x')"
  shows "read_guarded (c', x') \<and> frame (self x') = frame (self x)"
  using assms
proof (induction bs arbitrary: c x)
  case Nil
  then show ?case by simp
next
  case (Cons b bs)
  obtain c1 x1 where t: "try_read ops b (c, x) = (c1, x1)" by (cases "try_read ops b (c, x)")
  with Cons.prems try_read_guarded [of c x b c1 x1] Cons.IH [of c1 x1] show ?case by simp
qed

lemma read_guarded_status [simp]:
  "read_guarded (c, x\<lparr>status := st\<rparr>) = read_guarded (c, x)"
  "read_guarded (c, x\<lparr>ok := b\<rparr>) = read_guarded (c, x)"
  "read_guarded (c, x\<lparr>l_ac_current := t, got_current := b\<rparr>) = read_guarded (c, x)"
  "read_guarded (c, x\<lparr>l_ac_voltage := t, got_voltage := b\<rparr>) = read_guarded (c, x)"
  by (simp_all add: read_guarded_def)

lemma got_guarded:
  "read_guarded (c, x) \<Longrightarrow> read_guarded (c, got_running_mode raw x) \<and> frame (self (got_running_mode raw x)) = frame (self x)"
  "read_guarded (c, x) \<Longrightarrow> raw \<in> seen c REG_DHW_TARGET \<Longrightarrow>
     read_guarded (c, got_dhw_target raw x) \<and> frame (self (got_dhw_target raw x)) = frame (self x)"
  "read_guarded (c, x) \<Longrightarrow> raw \<in> seen c REG_HEATING_TARGET \<Longrightarrow>
     read_guarded (c, got_heating_target raw x) \<and> frame (self (got_heating_target raw x)) = frame (self x)"
  by (auto simp: got_running_mode_def got_dhw_target_def got_heating_target_def read_guarded_def guarded_def Let_def)

lemma main_blocks_ok: "list_all block_ok main_blocks"
  by (simp add: main_blocks_def block_ok_def got_guarded)

lemma power_blocks_ok: "list_all block_ok power_blocks"
  by (simp add: power_blocks_def block_ok_def got_ac_current_def got_ac_voltage_def Let_def)

lemma diagnostic_blocks_ok: "list_all block_ok diagnostic_blocks"
  by (simp add: diagnostic_blocks_def block_ok_def)

lemma compute_power_keeps [simp]:
  "self (compute_power x) = self x" "ok (compute_power x) = ok x"
  "read_guarded (c, compute_power x) = read_guarded (c, x)"
  by (simp_all add: compute_power_def read_guarded_def)

lemma readStatus_keeps:
  assumes "guarded s" "readStatus ops st s = (b, st', s')"
  shows "guarded s' \<and> frame s' = frame s"
proof -
  obtain c where c: "modbus_client s = Some c" using assms(1) by (rule guardedE)
  let ?x = "\<lparr>self = s, status = st, ok = True, l_ac_current = Fin 0, l_ac_voltage = Fin 0,
    got_current = False, got_voltage = False\<rparr>"
  obtain c1 x1 where 1: "fold (try_read ops) main_blocks (c, ?x) = (c1, x1)"
    by (cases "fold (try_read ops) main_blocks (c, ?x)")
  obtain c2 x2 where 2: "fold (try_read ops) power_blocks (c1, x1) = (c2, x2)"
    by (cases "fold (try_read ops) power_blocks (c1, x1)")
  obtain c3 x3 where 3: "fold (try_read ops) diagnostic_blocks (c2, compute_power x2) = (c3, x3)"
    by (cases "fold (try_read ops) diagnostic_blocks (c2, compute_power x2)")
  have "s\<lparr>modbus_client := Some c\<rparr> = s" using c by simp
  then have "read_guarded (c, ?x)" using assms(1) by (simp add: read_guarded_def)
  from fold_try_read_guarded [OF this main_blocks_ok 1]
  have "read_guarded (c1, x1)" "frame (self x1) = frame s" by auto
  with fold_try_read_guarded [OF _ power_blocks_ok 2]
  have "read_guarded (c2, compute_power x2)" "frame (self x2) = frame s" by auto
  with fold_try_read_guarded [OF _ diagnostic_blocks_ok 3]
  have "read_guarded (c3, x3)" "frame (self x3) = frame s" by auto
  with assms(2) c 1 2 3 show ?thesis
    by (auto simp: readStatus_def Let_def read_guarded_def)
qed

lemma correct_mode_keeps: "guarded s \<Longrightarrow> keeps s (Some (correct_mode ops s))"
  using setRunningMode_keeps [of s "device_mode (desired_working_mode s)"] device_mode_cases
  by (auto simp: correct_mode_def Let_def keeps_def split: prod.splits)

lemma enforce_targets_keeps:
  assumes "guarded s"
  shows "keeps s (enforce_targets ops st s)"
  using assms unfolding enforce_targets_def
  by (auto intro!: keeps_steps keeps_bind keepsI)

lemma enforce_priority_keeps: "guarded s \<Longrightarrow> keeps s (enforce_priority ops s)"
  unfolding enforce_priority_def by (auto intro!: keeps_steps keepsI)

lemma applyControlLogic_keeps:
  assumes "guarded s"
  shows "keeps s (applyControlLogic ops st s)"
proof -
  have c: "guarded (correct_mode ops s)" "frame (correct_mode ops s) = frame s"
    using correct_mode_keeps [OF assms] by (auto simp: keeps_def)
  then have "keeps s (enforce_targets ops st (correct_mode ops s))"
    using enforce_targets_keeps [OF c(1), of st] by (simp add: keeps_def)
  then show ?thesis
    unfolding applyControlLogic_def by (rule keeps_bind) (rule enforce_priority_keeps)
qed

lemma publish_keeps: "guarded s \<Longrightarrow> guarded (publish st s) \<and> frame (publish st s) = frame s"
  by (simp add: publish_def split: option.split)

lemma publish_initial_keeps:
  "guarded s \<Longrightarrow> guarded (publish_initial ops s) \<and> frame (publish_initial ops s) = frame s"
  using readStatus_keeps [of s StatusSnapshot_default] publish_keeps
  by (auto simp: publish_initial_def split: prod.split bool.split)

lemma read_and_control_keeps:
  assumes "guarded s"
  shows "keeps s (read_and_control ops s)"
proof -
  obtain b st s1 where r: "readStatus ops StatusSnapshot_default s = (b, st, s1)"
    by (cases "readStatus ops StatusSnapshot_default s")
  from readStatus_keeps [OF assms r] have g: "guarded s1" "frame s1 = frame s" by auto
  show ?thesis
  proof (cases b)
    case True
    from applyControlLogic_keeps [OF g(1), of st] obtain s2
      where "applyControlLogic ops st s1 = Some s2" "guarded s2" "frame s2 = frame s"
      using g(2) by (auto simp: keeps_def)
    then show ?thesis using True by (simp add: read_and_control_def r publish_keeps keepsI)
  next
    case False
    then show ?thesis using g by (simp add: read_and_control_def r publish_keeps keepsI)
  qed
qed

lemma reconnect_inv:
  assumes "good c" "reconnect ops stops n c = (m, c')"
  shows "good c' \<and> seen c \<le> seen c'"
  using assms
proof (induction "3 - n" arbitrary: n c)
  case 0
  then show ?case by (simp add: reconnect.simps)
next
  case (Suc k)
  obtain b c1 where c1: "m_connect ops c = (b, c1)" by (cases "m_connect ops c")
  with connect_inv Suc.prems(1) have g: "good c1" "seen c \<le> seen c1" by blast+
  show ?case
  proof (cases "\<not> stops n \<and> \<not> b")
    case True
    with Suc.hyps(2) Suc.prems(2) c1 have "reconnect ops stops (n + 1) c1 = (m, c')"
      by (auto simp: reconnect.simps [of ops stops n] split: if_splits)
    with Suc.hyps(1) [of "n + 1" c1] Suc.hyps(2) g show ?thesis by (simp add: order_trans)
  next
    case False
    with Suc.prems c1 g show ?thesis
      by (auto simp: reconnect.simps [of ops stops n] split: if_splits)
  qed
qed

lemma ensure_connected_keeps:
  assumes "guarded s"
  shows "\<exists>go s'. ensure_connected ops stops s = Some (go, s') \<and> guarded s' \<and> frame s' = frame s"
proof -
  obtain c where c: "modbus_client s = Some c" "good c" using assms by (rule guardedE)
  obtain n c' where r: "reconnect ops stops 0 c = (n, c')" by (cases "reconnect ops stops 0 c")
  from guarded_later [OF assms c(1)] reconnect_inv [OF c(2) r]
  have "guarded (s\<lparr>modbus_client := Some c'\<rparr>)" by auto
  with assms c r show ?thesis by (auto simp: ensure_connected_def)
qed

lemma loop_iteration_keeps:
  assumes "guarded s" "\<And>q. cmd_queue s = Some q \<Longrightarrow> queue_valid q"
  shows "\<exists>s'. loop_iteration ops stops s = Some s' \<and> guarded s'"
proof -
  obtain go s1 where s1: "ensure_connected ops stops s = Some (go, s1)" "guarded s1" "frame s1 = frame s"
    using ensure_connected_keeps [OF assms(1)] by blast
  then obtain s2 where "processCommands ops s1 = Some s2" "guarded s2"
    using processCommands_keeps [of s1] assms(2) by (auto simp: frame_def)
  with s1 read_and_control_keeps [of s2] show ?thesis
    by (auto simp: loop_iteration_def keeps_def)
qed

end

context closing_guard
begin

lemma thread_exit_keeps:
  assumes "guarded s"
  shows "\<exists>c. modbus_client (thread_exit ops s) = Some c \<and> good c"
  using assms disconnect_inv by (auto simp: thread_exit_def elim: guardedE)

end

end
