(* ===== verification/Control_Converge.thy ===== *)
theory Control_Converge
  imports Control_Safety
begin

text \<open>
  What the control loop achieves with a client that reaches a working device: after one
  iteration the registers of the device agree with the working mode. The first part relates
  the command loop to the list of queued commands, for any client.
\<close>

section \<open>The command loop and the queue\<close>

primrec exec_all :: "'c IModbusClient \<Rightarrow> Command list \<Rightarrow> 'c ControlLoop \<Rightarrow> 'c ControlLoop option" where
  "exec_all ops [] s = Some s"
| "exec_all ops (cmd # cmds) s = Option.bind (exec_command ops cmd s) (exec_all ops cmds)"

lemma process_queue_exec_all:
  assumes "cq_inv q"
  shows "\<exists>q'. cq_inv q' \<and> cq_list q' = [] \<and>
    process_queue ops q s = map_option (Pair q') (exec_all ops (cq_list q) s)"
  using assms
proof (induction "cq_list q" arbitrary: q s)
  case Nil
  then show ?case by (subst process_queue.simps) (auto simp: cq.pop_empty intro!: exI [of _ q])
next
  case (Cons cmd cmds)
  then obtain q1 where q1: "CmdQueue_pop q = (Some cmd, q1)" "cq_list q1 = cmds" "cq_inv q1"
    using cq.pop_some [of q cmd cmds] by auto
  show ?case
  proof (cases "exec_command ops cmd s")
    case None
    then show ?thesis
      using q1 Cons.hyps(2) [symmetric] Cons.hyps(1) [of q1]
      by (subst process_queue.simps) auto
  next
    case (Some s1)
    with q1 Cons.hyps(2) [symmetric] Cons.hyps(1) [of q1 s1] show ?thesis
      by (subst process_queue.simps) auto
  qed
qed

section \<open>Reading from a working device\<close>

text \<open>
  A device that holds its mode, its setpoints, its priority and its occupancy until they are
  written, and answers reads of the registers that the status depends on.
\<close>

locale heat_pump = held_registers ops ready reg held readable
  for ops :: "'c IModbusClient" and ready :: "'c \<Rightarrow> bool" and reg :: "'c \<Rightarrow> u16 \<Rightarrow> i16"
    and held :: "u16 set" and readable :: "u16 set" +
  assumes held_regs:
      "{REG_RUNNING_MODE, REG_DHW_TARGET, REG_HEATING_TARGET, REG_DHW_PRIORITY, REG_OCCUPANCY_MODE} \<subseteq> held"
    and readable_regs:
      "{REG_OUTDOOR_TEMP, REG_INDOOR_TEMP, REG_LEAVING_WATER_TEMP, REG_ENTERING_WATER_TEMP,
        REG_DHW_TANK_TEMP, REG_RUNNING_MODE, REG_RUNNING_STATUS, REG_DHW_TARGET, REG_HEATING_TARGET,
        REG_DHW_PRIORITY} \<subseteq> readable"
    and connect_ready: "ready c \<Longrightarrow> m_connect ops c = (b, c') \<Longrightarrow> ready c'"

text \<open>For the guard any reported value counts: all that is left of it is that setpoints convert.\<close>

sublocale heat_pump \<subseteq> wg: write_guard ops ready "\<lambda>c a. UNIV"
proof unfold_locales
  fix c a v w c'
  assume r: "ready c" and s: "safe_write (\<lambda>a. UNIV) a v" and w: "m_writeRegister ops a v c = (w, c')"
  from s have "a \<in> held" using held_regs by (auto simp: safe_write_def)
  with write_held [OF r this, of v] w show "ready c' \<and> (\<lambda>a. UNIV) \<le> ((\<lambda>a. UNIV) :: u16 \<Rightarrow> i16 set)" by auto
next
  show "ready c' \<and> (\<lambda>a. UNIV) \<le> ((\<lambda>a. UNIV) :: u16 \<Rightarrow> i16 set)"
    if "ready c" "m_connect ops c = (b, c')" for c b c'
    using connect_ready [OF that] by simp
next
  show "ready c' \<and> (\<lambda>a. UNIV) \<le> ((\<lambda>a. UNIV) :: u16 \<Rightarrow> i16 set)"
    if "ready c" "m_readRegister ops a c = (r, c')" for c a r c'
    using read_keeps [OF that] by simp
qed simp

text \<open>What the reads leave in the object.\<close>

definition seen_mode :: "i16 \<Rightarrow> 'c ControlLoop \<Rightarrow> 'c ControlLoop" where
  "seen_mode raw s = (if sint raw \<in> {0, 1, 2} then s\<lparr>current_mode := sint raw\<rparr> else s)"

definition seen_dhw :: "i16 \<Rightarrow> 'c ControlLoop \<Rightarrow> 'c ControlLoop" where
  "seen_dhw raw s = (if saved_targets_initialized s then s else s\<lparr>saved_dhw_target := raw_to_temp raw\<rparr>)"

definition seen_heating :: "i16 \<Rightarrow> 'c ControlLoop \<Rightarrow> 'c ControlLoop" where
  "seen_heating raw s =
     (let s = s\<lparr>last_heating_target := raw_to_temp raw\<rparr>
      in if saved_targets_initialized s then s else s\<lparr>saved_heating_target := raw_to_temp raw\<rparr>)"

lemma got_running_mode_sel [simp]:
  "self (got_running_mode raw x) = seen_mode raw (self x)"
  "status (got_running_mode raw x) = (status x)\<lparr>running_mode := sint raw\<rparr>"
  "ok (got_running_mode raw x) = ok x"
  by (simp_all add: got_running_mode_def seen_mode_def Let_def)

lemma got_dhw_target_sel [simp]:
  "self (got_dhw_target raw x) = seen_dhw raw (self x)"
  "status (got_dhw_target raw x) = (status x)\<lparr>dhw_target := raw_to_temp raw\<rparr>"
  "ok (got_dhw_target raw x) = ok x"
  by (simp_all add: got_dhw_target_def seen_dhw_def Let_def)

lemma got_heating_target_sel [simp]:
  "self (got_heating_target raw x) = seen_heating raw (self x)"
  "status (got_heating_target raw x) = (status x)\<lparr>heating_target := raw_to_temp raw\<rparr>"
  "ok (got_heating_target raw x) = ok x"
  by (simp_all add: got_heating_target_def seen_heating_def Let_def)

text \<open>The thresholds of the enforced minima in tenths of a degree.\<close>

lemma half_above: "fp_add f32 HEATING_TARGET_MIN (Fin (1 / 2)) = Fin (51 / 2)"
    "fp_add f32 DHW_TARGET_MIN (Fin (1 / 2)) = Fin (81 / 2)"
  by code_simp+

lemma raw_above_threshold:
  assumes "\<not> fp_less (Fin t) (raw_to_temp v)" "t < r32 (of_int k / 10)"
  shows "sint v < k"
proof (rule ccontr)
  assume "\<not> sint v < k"
  then have "(of_int k :: rat) \<le> of_int (sint v)" by (simp only: of_int_le_iff not_less)
  then have "r32 (of_int k / 10) \<le> r32 (of_int (sint v) / 10)"
    by (intro fround_mono divide_right_mono) auto
  with assms show False by (simp add: raw_to_temp_eq)
qed

lemma heating_min_bound:
  assumes "\<not> fp_less (fp_add f32 HEATING_TARGET_MIN (Fin (1 / 2))) (raw_to_temp v)"
  shows "sint v \<le> 255"
proof -
  have "51 / 2 < r32 (of_int 256 / 10)" by code_simp
  from raw_above_threshold [OF assms [unfolded half_above] this] show ?thesis by simp
qed

lemma dhw_min_bound:
  assumes "\<not> fp_less (fp_add f32 DHW_TARGET_MIN (Fin (1 / 2))) (raw_to_temp v)"
  shows "sint v \<le> 405"
proof -
  have "81 / 2 < r32 (of_int 406 / 10)" by code_simp
  from raw_above_threshold [OF assms [unfolded half_above] this] show ?thesis by simp
qed

lemma minima_raw: "temp_to_raw HEATING_TARGET_MIN = Some 250" "temp_to_raw DHW_TARGET_MIN = Some 400"
  by code_simp+

text \<open>The members that decide what the loop does next.\<close>

definition control :: "'c ControlLoop \<Rightarrow> PriorityMode \<times> int \<times> int \<times> fp \<times> fp \<times> bool" where
  "control s = (current_priority s, current_mode s, desired_working_mode s, saved_dhw_target s,
     saved_heating_target s, saved_targets_initialized s)"

text \<open>
  What the registers look like when the device does what the working mode asks for. A setpoint
  is near the saved one when it is that setpoint in tenths of a degree, or when the reported
  temperature differs from it by no more than half a degree in \<open>float\<close> arithmetic.
\<close>

definition near :: "i16 \<Rightarrow> fp \<Rightarrow> bool" where
  "near v t \<longleftrightarrow>
     temp_to_raw t = Some v \<or> \<not> fp_less (Fin (1 / 2)) (fp_abs (fp_sub f32 (raw_to_temp v) t))"

definition mode_table :: "(u16 \<Rightarrow> i16) \<Rightarrow> 'c ControlLoop \<Rightarrow> bool" where
  "mode_table r s \<longleftrightarrow>
     r REG_RUNNING_MODE = (if desired_working_mode s = 0 then 0 else 2) \<and>
     (desired_working_mode s = 1 \<longrightarrow> sint (r REG_HEATING_TARGET) \<le> 255 \<and> r REG_DHW_PRIORITY = 1) \<and>
     (desired_working_mode s = 2 \<longrightarrow> sint (r REG_DHW_TARGET) \<le> 405 \<and> r REG_DHW_PRIORITY = 0) \<and>
     (desired_working_mode s = 3 \<longrightarrow> near (r REG_DHW_TARGET) (saved_dhw_target s) \<and>
        near (r REG_HEATING_TARGET) (saved_heating_target s) \<and> r REG_DHW_PRIORITY = 1)"

text \<open>The table without its column for the priority, and that column.\<close>

definition settings_table :: "(u16 \<Rightarrow> i16) \<Rightarrow> 'c ControlLoop \<Rightarrow> bool" where
  "settings_table r s \<longleftrightarrow>
     r REG_RUNNING_MODE = (if desired_working_mode s = 0 then 0 else 2) \<and>
     (desired_working_mode s = 1 \<longrightarrow> sint (r REG_HEATING_TARGET) \<le> 255) \<and>
     (desired_working_mode s = 2 \<longrightarrow> sint (r REG_DHW_TARGET) \<le> 405) \<and>
     (desired_working_mode s = 3 \<longrightarrow> near (r REG_DHW_TARGET) (saved_dhw_target s) \<and>
        near (r REG_HEATING_TARGET) (saved_heating_target s))"

definition priority_table :: "(u16 \<Rightarrow> i16) \<Rightarrow> 'c ControlLoop \<Rightarrow> bool" where
  "priority_table r s \<longleftrightarrow>
     (desired_working_mode s \<in> {1, 3} \<longrightarrow> r REG_DHW_PRIORITY = 1) \<and> (desired_working_mode s = 2 \<longrightarrow> r REG_DHW_PRIORITY = 0)"

lemma mode_table_split: "mode_table r s \<longleftrightarrow> settings_table r s \<and> priority_table r s"
  by (auto simp: mode_table_def settings_table_def priority_table_def)

text \<open>The priority register against the priority the object remembers, and the commands that write both.\<close>

definition priority_agrees :: "(u16 \<Rightarrow> i16) \<Rightarrow> 'c ControlLoop \<Rightarrow> bool" where
  "priority_agrees r s \<longleftrightarrow> r REG_DHW_PRIORITY = (if current_priority s = Dhw then 1 else 0)"

definition sets_priority :: "Command \<Rightarrow> bool" where
  "sets_priority cmd \<longleftrightarrow> cmd_type cmd = CMD_SET_PRIORITY \<or>
     cmd_type cmd = CMD_SET_RUNNING_MODE \<and> int_val cmd \<in> {1, 2, 3}"

definition waiting :: "'c ControlLoop \<Rightarrow> Command list" where
  "waiting s = (case cmd_queue s of None \<Rightarrow> [] | Some q \<Rightarrow> cq_list q)"

text \<open>
  How an iteration can leave the priority register other than the table says: register and object disagreed
  before, no waiting command wrote them, and both are as they were.
\<close>

definition stale_priority :: "(u16 \<Rightarrow> i16) \<Rightarrow> 'c ControlLoop \<Rightarrow> (u16 \<Rightarrow> i16) \<Rightarrow> 'c ControlLoop \<Rightarrow> bool" where
  "stale_priority r s r' s' \<longleftrightarrow> \<not> priority_agrees r s \<and> \<not> list_ex sets_priority (waiting s) \<and>
     r' REG_DHW_PRIORITY = r REG_DHW_PRIORITY \<and> current_priority s' = current_priority s"

context heat_pump
begin

definition same_held :: "'c \<Rightarrow> 'c \<Rightarrow> bool" where
  "same_held c c' \<longleftrightarrow> (\<forall>a \<in> held. reg c' a = reg c a)"

lemma try_read_ready:
  assumes "ready c" "try_read ops (a, g, f) (c, x) = (c', x')"
  shows "ready c' \<and> same_held c c' \<and> (a \<in> readable \<longrightarrow> (\<exists>v. x' = g v x \<and> (a \<in> held \<longrightarrow> v = reg c a))) \<and>
    (x' = f x \<or> (\<exists>v. x' = g v x))"
proof -
  obtain r where r: "m_readRegister ops a c = (r, c')" "x' = (case r of Inl _ \<Rightarrow> f x | Inr v \<Rightarrow> g v x)"
    using assms(2) by (auto simp: try_read_def split: prod.splits sum.splits)
  show ?thesis
    using read_keeps [OF assms(1) r(1)] read_ok [OF assms(1), of a] read_held [OF assms(1), of a] r
    by (auto simp: same_held_def split: sum.splits)
qed

text \<open>A run of readable blocks takes every \<open>good\<close> branch.\<close>

lemma reads_succeed:
  assumes "ready c" "list_all (\<lambda>b. fst b \<in> readable) bs" "fold (try_read ops) bs (c, x) = (c', x')"
  shows "ready c' \<and> same_held c c' \<and>
    (\<exists>vs. list_all2 (\<lambda>b v. fst b \<in> held \<longrightarrow> v = reg c (fst b)) bs vs \<and>
          x' = fold (\<lambda>(b, v). fst (snd b) v) (zip bs vs) x)"
  using assms
proof (induction bs arbitrary: c x)
  case Nil
  then show ?case by (auto simp: same_held_def)
next
  case (Cons b bs)
  obtain a g f where b: "b = (a, g, f)" by (cases b)
  obtain c1 x1 where t: "try_read ops b (c, x) = (c1, x1)" by (cases "try_read ops b (c, x)")
  from try_read_ready [OF Cons.prems(1) t [unfolded b]] b Cons.prems(2)
  obtain v where v: "ready c1" "same_held c c1" "x1 = g v x" "a \<in> held \<longrightarrow> v = reg c a" by auto
  from Cons.IH [OF v(1)] Cons.prems(2,3) t
  obtain vs where vs: "ready c'" "same_held c1 c'"
      "list_all2 (\<lambda>b v. fst b \<in> held \<longrightarrow> v = reg c1 (fst b)) bs vs"
      "x' = fold (\<lambda>(b, v). fst (snd b) v) (zip bs vs) x1" by auto
  have "list_all2 (\<lambda>b v. fst b \<in> held \<longrightarrow> v = reg c (fst b)) bs vs"
    by (rule list_all2_mono [OF vs(3)]) (use v(2) in \<open>auto simp: same_held_def\<close>)
  with v vs b show ?case by (intro conjI exI [of _ "v # vs"]) (auto simp: same_held_def)
qed

definition quiet :: "'c try_block \<Rightarrow> bool" where
  "quiet b \<longleftrightarrow> (\<forall>x. \<forall>y \<in> insert (snd (snd b) x) (range (\<lambda>v. fst (snd b) v x)).
     self y = self x \<and> ok y = ok x \<and> dhw_target (status y) = dhw_target (status x) \<and>
     heating_target (status y) = heating_target (status x))"

lemma quiet_reads:
  assumes "ready c" "list_all quiet bs" "fold (try_read ops) bs (c, x) = (c', x')"
  shows "ready c' \<and> same_held c c' \<and> self x' = self x \<and> ok x' = ok x \<and>
    dhw_target (status x') = dhw_target (status x) \<and> heating_target (status x') = heating_target (status x)"
  using assms
proof (induction bs arbitrary: c x)
  case Nil
  then show ?case by (simp add: same_held_def)
next
  case (Cons b bs)
  obtain a g f where b: "b = (a, g, f)" by (cases b)
  obtain c1 x1 where t: "try_read ops b (c, x) = (c1, x1)" by (cases "try_read ops b (c, x)")
  note r = try_read_ready [OF Cons.prems(1) t [unfolded b]]
  then have "x1 = f x \<or> (\<exists>v. x1 = g v x)" by blast
  then have "self x1 = self x \<and> ok x1 = ok x \<and> dhw_target (status x1) = dhw_target (status x) \<and>
      heating_target (status x1) = heating_target (status x)"
    using Cons.prems(2) b by (auto simp: quiet_def)
  with Cons.IH [of c1 x1] Cons.prems(2,3) t r show ?case by (auto simp: same_held_def)
qed

text \<open>The last block, the occupancy mode, may fail: a device need not have that register.\<close>

lemma main_reads:
  assumes "ready c" "fold (try_read ops) main_blocks (c, x) = (c', x')"
  shows "ready c' \<and> same_held c c' \<and> ok x' = ok x \<and>
    dhw_target (status x') = raw_to_temp (reg c REG_DHW_TARGET) \<and>
    heating_target (status x') = raw_to_temp (reg c REG_HEATING_TARGET) \<and>
    self x' = seen_heating (reg c REG_HEATING_TARGET)
      (seen_dhw (reg c REG_DHW_TARGET) (seen_mode (reg c REG_RUNNING_MODE) (self x)))"
proof -
  let ?bs = "butlast main_blocks :: 'c try_block list" and ?b = "last main_blocks :: 'c try_block"
  have mb: "main_blocks = ?bs @ [?b]" by (simp add: main_blocks_def)
  obtain c1 x1 where 1: "fold (try_read ops) ?bs (c, x) = (c1, x1)" by (cases "fold (try_read ops) ?bs (c, x)")
  have 2: "fold (try_read ops) [?b] (c1, x1) = (c', x')" using assms(2) 1 by (subst (asm) mb) simp
  have "list_all (\<lambda>b. fst b \<in> readable) ?bs" using readable_regs by (simp add: main_blocks_def)
  from reads_succeed [OF assms(1) this 1] obtain vs where
    vs: "list_all2 (\<lambda>b v. fst b \<in> held \<longrightarrow> v = reg c (fst b)) ?bs vs"
      "x1 = fold (\<lambda>(b, v). fst (snd b) v) (zip ?bs vs) x" and k: "ready c1" "same_held c c1" by blast
  from vs(1) obtain v1 v2 v3 v4 v5 v7 v10 where
    "vs = [v1, v2, v3, v4, v5, reg c REG_RUNNING_MODE, v7, reg c REG_DHW_TARGET, reg c REG_HEATING_TARGET, v10]"
    using held_regs by (auto simp: main_blocks_def list_all2_Cons1)
  with vs(2) have x1: "ok x1 = ok x \<and> dhw_target (status x1) = raw_to_temp (reg c REG_DHW_TARGET) \<and>
      heating_target (status x1) = raw_to_temp (reg c REG_HEATING_TARGET) \<and>
      self x1 = seen_heating (reg c REG_HEATING_TARGET)
        (seen_dhw (reg c REG_DHW_TARGET) (seen_mode (reg c REG_RUNNING_MODE) (self x)))"
    by (simp add: main_blocks_def)
  have "list_all quiet [?b]" by (simp add: main_blocks_def quiet_def)
  from quiet_reads [OF k(1) this 2] k x1 show ?thesis by (simp add: same_held_def)
qed

lemma power_quiet: "list_all quiet power_blocks"
  by (simp add: power_blocks_def quiet_def got_ac_current_def got_ac_voltage_def Let_def)

lemma diagnostic_quiet: "list_all quiet diagnostic_blocks"
  by (simp add: diagnostic_blocks_def quiet_def)

lemma compute_targets [simp]:
  "dhw_target (status (compute_power x)) = dhw_target (status x)"
  "heating_target (status (compute_power x)) = heating_target (status x)"
  "dhw_target (compute_cop st) = dhw_target st"
  "heating_target (compute_cop st) = heating_target st"
  by (simp_all add: compute_power_def compute_cop_def Let_def)

lemma readStatus_ready:
  assumes "modbus_client s = Some c" "ready c" "readStatus ops st s = (b, st', s')"
  shows "b \<and> dhw_target st' = raw_to_temp (reg c REG_DHW_TARGET) \<and>
    heating_target st' = raw_to_temp (reg c REG_HEATING_TARGET) \<and>
    (\<exists>c'. ready c' \<and> same_held c c' \<and>
      s' = (seen_heating (reg c REG_HEATING_TARGET) (seen_dhw (reg c REG_DHW_TARGET)
        (seen_mode (reg c REG_RUNNING_MODE) s)))\<lparr>modbus_client := Some c', saved_targets_initialized := True\<rparr>)"
proof -
  let ?x = "\<lparr>self = s, status = st, ok = True, l_ac_current = Fin 0, l_ac_voltage = Fin 0,
    got_current = False, got_voltage = False\<rparr>"
  obtain c1 x1 where 1: "fold (try_read ops) main_blocks (c, ?x) = (c1, x1)"
    by (cases "fold (try_read ops) main_blocks (c, ?x)")
  obtain c2 x2 where 2: "fold (try_read ops) power_blocks (c1, x1) = (c2, x2)"
    by (cases "fold (try_read ops) power_blocks (c1, x1)")
  obtain c3 x3 where 3: "fold (try_read ops) diagnostic_blocks (c2, compute_power x2) = (c3, x3)"
    by (cases "fold (try_read ops) diagnostic_blocks (c2, compute_power x2)")
  note m = main_reads [OF assms(2) 1]
  then have q: "ready c1" by blast
  note p = quiet_reads [OF q power_quiet 2]
  then have "ready c2" by blast
  note d = quiet_reads [OF this diagnostic_quiet 3]
  have "same_held c c3" using m p d by (simp add: same_held_def)
  with assms m p d 1 2 3 show ?thesis by (auto simp: readStatus_def Let_def)
qed

section \<open>Writing to a working device\<close>

definition up :: "'c ControlLoop \<Rightarrow> bool" where
  "up s \<longleftrightarrow> (\<exists>c. modbus_client s = Some c \<and> ready c)"

definition dev :: "'c ControlLoop \<Rightarrow> u16 \<Rightarrow> i16" where
  "dev s = reg (the (modbus_client s))"

text \<open>The state after a successful write: the register holds the value, the control state is kept.\<close>

definition wrote :: "u16 \<Rightarrow> u16 \<Rightarrow> 'c ControlLoop \<Rightarrow> 'c ControlLoop \<Rightarrow> bool" where
  "wrote a v s s' \<longleftrightarrow> up s' \<and> (\<forall>b \<in> held. dev s' b = ((dev s)(a := v)) b) \<and> control s' = control s"

lemma up_dev_update [simp]:
  "up (s\<lparr>current_priority := p\<rparr>) = up s" "dev (s\<lparr>current_priority := p\<rparr>) = dev s"
  "up (s\<lparr>current_mode := m\<rparr>) = up s" "dev (s\<lparr>current_mode := m\<rparr>) = dev s"
  "up (s\<lparr>desired_working_mode := m\<rparr>) = up s" "dev (s\<lparr>desired_working_mode := m\<rparr>) = dev s"
  "up (s\<lparr>last_heating_target := t\<rparr>) = up s" "dev (s\<lparr>last_heating_target := t\<rparr>) = dev s"
  "up (s\<lparr>saved_dhw_target := t\<rparr>) = up s" "dev (s\<lparr>saved_dhw_target := t\<rparr>) = dev s"
  "up (s\<lparr>saved_heating_target := t\<rparr>) = up s" "dev (s\<lparr>saved_heating_target := t\<rparr>) = dev s"
  "up (s\<lparr>status_queue := q\<rparr>) = up s" "dev (s\<lparr>status_queue := q\<rparr>) = dev s"
  "up (s\<lparr>cmd_queue := cq\<rparr>) = up s" "dev (s\<lparr>cmd_queue := cq\<rparr>) = dev s"
  "up (fireSettingsCallback s) = up s" "dev (fireSettingsCallback s) = dev s"
  by (simp_all add: up_def dev_def)

lemma write_up:
  assumes "up s" "a \<in> held"
  obtains c c' where "modbus_client s = Some c" "m_writeRegister ops a v c = (Inr (), c')"
    "wrote a v s (s\<lparr>modbus_client := Some c'\<rparr>)"
proof -
  obtain c where c: "modbus_client s = Some c" "ready c" using assms(1) by (auto simp: up_def)
  with write_held [OF c(2) assms(2), of v] that show thesis
    by (auto simp: wrote_def up_def dev_def control_def)
qed

lemma held_in [simp]:
  "REG_RUNNING_MODE \<in> held" "REG_DHW_TARGET \<in> held" "REG_HEATING_TARGET \<in> held"
  "REG_DHW_PRIORITY \<in> held" "REG_OCCUPANCY_MODE \<in> held"
  using held_regs by auto

lemma setRunningMode_up:
  assumes "up s" "m \<in> {0, 2}"
  shows "\<exists>s'. setRunningMode ops m s = (0, s') \<and> wrote REG_RUNNING_MODE (to_u16 m) s s'"
  by (rule write_up [OF assms(1) held_in(1), of "to_u16 m"]) (use assms(2) in \<open>auto simp: setRunningMode_def\<close>)

lemma wrote_fire:
  "wrote a v s (s\<lparr>modbus_client := c\<rparr>) \<Longrightarrow>
     wrote a v s (fireSettingsCallback (s\<lparr>modbus_client := c, mDhwTarget := t\<rparr>)) \<and>
     wrote a v s (fireSettingsCallback (s\<lparr>modbus_client := c, mHeatingTarget := t\<rparr>))"
  by (simp add: wrote_def up_def dev_def control_def)

lemma setDhwTarget_up:
  assumes "up s" "temp_to_raw t = Some w"
  shows "\<exists>s'. setDhwTarget ops t s = Some (0, s') \<and> wrote REG_DHW_TARGET w s s'"
  by (rule write_up [OF assms(1) held_in(2), of w]) (auto simp: setDhwTarget_def assms(2) wrote_fire)

lemma setHeatingTarget_up:
  assumes "up s" "temp_to_raw t = Some w"
  shows "\<exists>s'. setHeatingTarget ops t s = Some (0, s') \<and> wrote REG_HEATING_TARGET w s s'"
  by (rule write_up [OF assms(1) held_in(3), of w]) (auto simp: setHeatingTarget_def assms(2) wrote_fire)

lemma client_write_up:
  assumes "up s" "a \<in> held"
  shows "\<exists>s'. client_write ops a v s = Some (Inr (), s') \<and> wrote a v s s'"
  by (rule write_up [OF assms, of v]) (auto simp: client_write_def)

lemma write_priority_up:
  assumes "up s"
  shows "\<exists>s'. write_priority ops v p s = Some (s'\<lparr>current_priority := p\<rparr>) \<and> wrote REG_DHW_PRIORITY v s s'"
  using client_write_up [OF assms held_in(4), of v] by (auto simp: write_priority_def)

section \<open>The mode table\<close>

text \<open>
  The priority register is never compared with the object's own priority: the two agree, or both are still
  as they were at some earlier point, \<open>z\<close>.
\<close>

abbreviation agrees :: "'c ControlLoop \<Rightarrow> bool" where
  "agrees s \<equiv> priority_agrees (dev s) s"

definition coherent :: "i16 \<times> PriorityMode \<Rightarrow> 'c ControlLoop \<Rightarrow> bool" where
  "coherent z s \<longleftrightarrow> up s \<and> sint (dev s REG_RUNNING_MODE) \<in> {0, 1, 2} \<and>
     (agrees s \<or> (dev s REG_DHW_PRIORITY, current_priority s) = z)"

lemma coherent_agrees: "coherent (1, Dhw) s \<longleftrightarrow> up s \<and> sint (dev s REG_RUNNING_MODE) \<in> {0, 1, 2} \<and> agrees s"
  by (auto simp: coherent_def priority_agrees_def)

lemma coherent_any: "coherent z s \<Longrightarrow> agrees s \<Longrightarrow> coherent z' s"
  by (simp add: coherent_def)

lemma coherent_target:
  "coherent z s \<Longrightarrow> wrote a v s s' \<Longrightarrow> a \<in> {REG_DHW_TARGET, REG_HEATING_TARGET, REG_OCCUPANCY_MODE} \<Longrightarrow> coherent z s'"
  by (auto simp: coherent_def priority_agrees_def wrote_def control_def)

lemma coherent_mode:
  "coherent z s \<Longrightarrow> wrote REG_RUNNING_MODE (to_u16 m) s s' \<Longrightarrow> m \<in> {0, 2} \<Longrightarrow> coherent z s'"
  by (auto simp: coherent_def priority_agrees_def wrote_def control_def to_u16_def)

lemma coherent_priority:
  "coherent z s \<Longrightarrow> wrote REG_DHW_PRIORITY v s s' \<Longrightarrow> v = (if p = Dhw then 1 else 0) \<Longrightarrow>
     coherent z (s'\<lparr>current_priority := p\<rparr>)"
  by (auto simp: coherent_def priority_agrees_def wrote_def control_def)

lemma coherent_update [simp]:
  "coherent z (s\<lparr>current_mode := m\<rparr>) = coherent z s"
  "coherent z (s\<lparr>desired_working_mode := m\<rparr>) = coherent z s"
  "coherent z (s\<lparr>last_heating_target := t\<rparr>) = coherent z s"
  "coherent z (s\<lparr>saved_dhw_target := t\<rparr>) = coherent z s"
  "coherent z (s\<lparr>saved_heating_target := t\<rparr>) = coherent z s"
  "coherent z (s\<lparr>status_queue := q\<rparr>) = coherent z s"
  "coherent z (s\<lparr>cmd_queue := cq\<rparr>) = coherent z s"
  "coherent z (fireSettingsCallback s) = coherent z s"
  by (simp_all add: coherent_def priority_agrees_def)

lemma coherent_up: "coherent z s \<Longrightarrow> up s"
  by (simp add: coherent_def)

text \<open>Commands keep the coherence of the object with the device.\<close>

lemma setDhwTarget_coherent: "coherent z s \<Longrightarrow> setDhwTarget ops t s = Some (r, s') \<Longrightarrow> coherent z s'"
  using setDhwTarget_up [of s t] coherent_target [of z s REG_DHW_TARGET]
  by (cases "temp_to_raw t") (auto simp: coherent_up, auto simp: setDhwTarget_def coherent_def up_def)

lemma setHeatingTarget_coherent: "coherent z s \<Longrightarrow> setHeatingTarget ops t s = Some (r, s') \<Longrightarrow> coherent z s'"
  using setHeatingTarget_up [of s t] coherent_target [of z s REG_HEATING_TARGET]
  by (cases "temp_to_raw t") (auto simp: coherent_up, auto simp: setHeatingTarget_def coherent_def up_def)

lemma write_priority_coherent:
  "coherent z s \<Longrightarrow> write_priority ops v p s = Some s' \<Longrightarrow> v = (if p = Dhw then 1 else 0) \<Longrightarrow> coherent z s'"
  using write_priority_up [of s v p] coherent_priority [of z s v _ p] by (auto simp: coherent_up)

lemma setRunningMode_coherent:
  "coherent z s \<Longrightarrow> setRunningMode ops m s = (r, s') \<Longrightarrow> m \<in> {0, 2} \<Longrightarrow> coherent z s'"
  using setRunningMode_up [of s m] coherent_mode [of z s m] by (auto simp: coherent_up)

lemma coherent_bind:
  assumes "Option.bind r (\<lambda>(n, s). f s) = Some s'"
    and "\<And>n s1. r = Some (n, s1) \<Longrightarrow> coherent z s1" "\<And>s1. coherent z s1 \<Longrightarrow> f s1 = Some s' \<Longrightarrow> coherent z s'"
  shows "coherent z s'"
  using assms by (auto simp: bind_eq_Some_conv)

lemma mode_overrides_coherent:
  assumes "coherent z s" "mode_overrides ops m s = Some s'"
  shows "coherent z s'"
proof -
  consider "m = 1" | "m = 2" | "m = 3" | "m \<notin> {1, 2, 3}" by blast
  then show ?thesis
  proof cases
    case 1
    with assms(2) have "Option.bind (setHeatingTarget ops HEATING_TARGET_MIN s)
        (\<lambda>(n, s). write_priority ops 1 Dhw s) = Some s'" by (simp add: mode_overrides_def)
    then show ?thesis
      by (rule coherent_bind) (auto intro: setHeatingTarget_coherent [OF assms(1)] write_priority_coherent)
  next
    case 2
    with assms(2) have "Option.bind (setDhwTarget ops DHW_TARGET_MIN s)
        (\<lambda>(n, s). write_priority ops 0 Heating s) = Some s'" by (simp add: mode_overrides_def)
    then show ?thesis
      by (rule coherent_bind) (auto intro: setDhwTarget_coherent [OF assms(1)] write_priority_coherent)
  next
    case 3
    with assms(2) have "Option.bind (setDhwTarget ops (saved_dhw_target s) s)
        (\<lambda>(n, s). Option.bind (setHeatingTarget ops (saved_heating_target s) s)
          (\<lambda>(n, s). write_priority ops 1 Dhw s)) = Some s'" by (simp add: mode_overrides_def)
    then show ?thesis
    proof (rule coherent_bind)
      show "coherent z s1" if "setDhwTarget ops (saved_dhw_target s) s = Some (n, s1)" for n s1
        using that by (rule setDhwTarget_coherent [OF assms(1)])
    next
      fix s1
      assume c: "coherent z s1" and b: "Option.bind (setHeatingTarget ops (saved_heating_target s1) s1)
          (\<lambda>(n, s). write_priority ops 1 Dhw s) = Some s'"
      show "coherent z s'"
        using b by (rule coherent_bind) (auto intro: setHeatingTarget_coherent [OF c] write_priority_coherent)
    qed
  qed (use assms in \<open>simp add: mode_overrides_def\<close>)
qed

lemma exec_command_coherent:
  assumes "coherent z s" "cmd_valid cmd" "exec_command ops cmd s = Some s'"
  shows "coherent z s'"
proof (cases "cmd_type cmd")
  case CMD_SET_PRIORITY
  obtain s1 where "client_write ops REG_DHW_PRIORITY (to_u16 (int_val cmd)) s = Some (Inr (), s1)"
      "wrote REG_DHW_PRIORITY (to_u16 (int_val cmd)) s s1"
    using client_write_up [OF coherent_up [OF assms(1)] held_in(4)] by blast
  then show ?thesis
    using assms CMD_SET_PRIORITY coherent_priority [OF assms(1), of "to_u16 (int_val cmd)" s1]
    by (auto simp: exec_command_def to_u16_def split: if_splits)
next
  case CMD_SET_OCCUPANCY_MODE
  obtain s1 where "client_write ops REG_OCCUPANCY_MODE (to_u16 (int_val cmd)) s = Some (Inr (), s1)"
      "wrote REG_OCCUPANCY_MODE (to_u16 (int_val cmd)) s s1"
    using client_write_up [OF coherent_up [OF assms(1)] held_in(5)] by blast
  then show ?thesis
    using assms CMD_SET_OCCUPANCY_MODE coherent_target [OF assms(1)] by (auto simp: exec_command_def)
next
  case CMD_SET_RUNNING_MODE
  let ?s = "fireSettingsCallback (s\<lparr>desired_working_mode := int_val cmd\<rparr>)"
  obtain rc s1 where s1: "setRunningMode ops (device_mode (int_val cmd)) ?s = (rc, s1)"
    by (cases "setRunningMode ops (device_mode (int_val cmd)) ?s")
  have "coherent z s1"
    by (rule setRunningMode_coherent [OF _ s1]) (use assms(1) device_mode_cases in auto)
  then show ?thesis
    using assms(3) CMD_SET_RUNNING_MODE s1
      mode_overrides_coherent [of z "s1\<lparr>current_mode := device_mode (int_val cmd)\<rparr>" "int_val cmd" s']
    by (cases "rc = 0") (simp_all add: exec_command_def set_working_mode_def)
next
  case CMD_SET_DHW_TEMP
  with assms(3) obtain r s1 where "setDhwTarget ops (float_val cmd) s = Some (r, s1)"
      "s' = s1\<lparr>saved_dhw_target := float_val cmd\<rparr>" by (auto simp: exec_command_def bind_eq_Some_conv)
  then show ?thesis using setDhwTarget_coherent [OF assms(1)] by simp
next
  case CMD_SET_HEATING_TEMP
  with assms(3) obtain r s1 where "setHeatingTarget ops (float_val cmd) s = Some (r, s1)"
      "s' = s1\<lparr>last_heating_target := float_val cmd, saved_heating_target := float_val cmd\<rparr>"
    by (auto simp: exec_command_def bind_eq_Some_conv)
  then show ?thesis using setHeatingTarget_coherent [OF assms(1)] by simp
next
  case (CMD_OTHER n)
  with assms show ?thesis by (simp add: exec_command_def)
qed

lemma exec_all_coherent:
  "coherent z s \<Longrightarrow> list_all cmd_valid cmds \<Longrightarrow> exec_all ops cmds s = Some s' \<Longrightarrow> coherent z s'"
  by (induction cmds arbitrary: s)
    (auto simp: bind_eq_Some_conv simp del: cmd_valid.simps dest: exec_command_coherent)

lemma processCommands_coherent:
  assumes "coherent z s" "\<And>q. cmd_queue s = Some q \<Longrightarrow> queue_valid q" "processCommands ops s = Some s'"
  shows "coherent z s'"
proof (cases "cmd_queue s")
  case None
  with assms show ?thesis by (simp add: processCommands_def)
next
  case (Some q)
  then have q: "cq_inv q" "list_all cmd_valid (cq_list q)" using assms(2) by (auto simp: queue_valid_def)
  from process_queue_exec_all [OF q(1), of ops s] Some assms(3) obtain q' s1
    where "exec_all ops (cq_list q) s = Some s1" "s' = s1\<lparr>cmd_queue := Some q'\<rparr>"
    by (auto simp: processCommands_def bind_eq_Some_conv)
  then show ?thesis using exec_all_coherent [OF assms(1) q(2)] by simp
qed

text \<open>A command that sets the priority makes register and object agree, and they stay so.\<close>

lemma write_priority_agrees:
  "up s \<Longrightarrow> write_priority ops v p s = Some s' \<Longrightarrow> v = (if p = Dhw then 1 else 0) \<Longrightarrow> agrees s'"
  using write_priority_up [of s v p] by (auto simp: wrote_def priority_agrees_def)

lemma mode_overrides_agrees:
  assumes "coherent z s" "m \<in> {1, 2, 3}" "mode_overrides ops m s = Some s'"
  shows "agrees s'"
proof -
  have w: "agrees s'" if "coherent z s1" "write_priority ops v p s1 = Some s'" "v = (if p = Dhw then 1 else 0)" for s1 v p
    using write_priority_agrees [OF coherent_up [OF that(1)] that(2,3)] .
  show ?thesis
    using assms w [of _ 1 Dhw] w [of _ 0 Heating]
    by (auto simp: mode_overrides_def bind_eq_Some_conv split: if_splits)
      (metis setDhwTarget_coherent setHeatingTarget_coherent)+
qed

lemma exec_command_agrees:
  assumes "coherent z s" "cmd_valid cmd" "sets_priority cmd" "exec_command ops cmd s = Some s'"
  shows "agrees s'"
proof (cases "cmd_type cmd = CMD_SET_PRIORITY")
  case True
  obtain s1 where "client_write ops REG_DHW_PRIORITY (to_u16 (int_val cmd)) s = Some (Inr (), s1)"
      "wrote REG_DHW_PRIORITY (to_u16 (int_val cmd)) s s1"
    using client_write_up [OF coherent_up [OF assms(1)] held_in(4)] by blast
  then show ?thesis
    using assms True by (auto simp: exec_command_def to_u16_def wrote_def priority_agrees_def split: if_splits)
next
  case False
  let ?s = "fireSettingsCallback (s\<lparr>desired_working_mode := int_val cmd\<rparr>)"
  have m: "cmd_type cmd = CMD_SET_RUNNING_MODE" "int_val cmd \<in> {1, 2, 3}" using assms(3) False by (auto simp: sets_priority_def)
  obtain s1 where s1: "setRunningMode ops (device_mode (int_val cmd)) ?s = (0, s1)"
    using setRunningMode_up [of ?s "device_mode (int_val cmd)"] coherent_up [OF assms(1)] device_mode_cases by auto
  have "coherent z s1" by (rule setRunningMode_coherent [OF _ s1]) (use assms(1) device_mode_cases in auto)
  then show ?thesis
    using assms(4) m s1 mode_overrides_agrees [of z "s1\<lparr>current_mode := device_mode (int_val cmd)\<rparr>" "int_val cmd" s']
    by (simp add: exec_command_def set_working_mode_def)
qed

lemma exec_all_agrees:
  assumes "coherent z s" "list_all cmd_valid cmds" "list_ex sets_priority cmds" "exec_all ops cmds s = Some s'"
  shows "agrees s'"
  using assms
proof (induction cmds arbitrary: s)
  case (Cons cmd cmds)
  then obtain s1 where s1: "exec_command ops cmd s = Some s1" "exec_all ops cmds s1 = Some s'"
    by (auto simp: bind_eq_Some_conv)
  have v: "cmd_valid cmd" "list_all cmd_valid cmds" using Cons.prems(2) by (simp_all del: cmd_valid.simps)
  have c1: "coherent z s1" using exec_command_coherent [OF Cons.prems(1) v(1) s1(1)] .
  show ?case
  proof (cases "sets_priority cmd")
    case True
    then have "coherent (1, Dhw) s1" using exec_command_agrees [OF Cons.prems(1) v(1) _ s1(1)] c1 by (auto intro: coherent_any)
    from exec_all_coherent [OF this v(2) s1(2)] show ?thesis by (simp add: coherent_agrees)
  next
    case False
    with Cons.prems(3) Cons.IH [OF c1 v(2) _ s1(2)] show ?thesis by simp
  qed
qed simp

lemma processCommands_agrees:
  assumes "coherent z s" "\<And>q. cmd_queue s = Some q \<Longrightarrow> queue_valid q" "list_ex sets_priority (waiting s)"
    and "processCommands ops s = Some s'"
  shows "agrees s'"
proof -
  obtain q where q: "cmd_queue s = Some q" "list_ex sets_priority (cq_list q)"
    using assms(3) by (auto simp: waiting_def split: option.splits)
  then have v: "cq_inv q" "list_all cmd_valid (cq_list q)" using assms(2) by (auto simp: queue_valid_def)
  from process_queue_exec_all [OF v(1), of ops s] q(1) assms(4) obtain q' s1
    where "exec_all ops (cq_list q) s = Some s1" "s' = s1\<lparr>cmd_queue := Some q'\<rparr>"
    by (auto simp: processCommands_def bind_eq_Some_conv)
  then show ?thesis using exec_all_agrees [OF assms(1) v(2) q(2)] by (simp add: priority_agrees_def)
qed

text \<open>The three parts of the control logic.\<close>

lemma correct_mode_up:
  assumes "coherent z s" "current_mode s = sint (dev s REG_RUNNING_MODE)"
  shows "coherent z (correct_mode ops s) \<and>
    dev (correct_mode ops s) REG_RUNNING_MODE = to_u16 (device_mode (desired_working_mode s)) \<and>
    (\<forall>a \<in> held - {REG_RUNNING_MODE}. dev (correct_mode ops s) a = dev s a) \<and>
    desired_working_mode (correct_mode ops s) = desired_working_mode s \<and>
    saved_dhw_target (correct_mode ops s) = saved_dhw_target s \<and>
    saved_heating_target (correct_mode ops s) = saved_heating_target s \<and>
    current_priority (correct_mode ops s) = current_priority s"
proof (cases "current_mode s = device_mode (desired_working_mode s)")
  case True
  then have "to_u16 (device_mode (desired_working_mode s)) = dev s REG_RUNNING_MODE"
    using assms(2) word_of_sint [of "dev s REG_RUNNING_MODE"] by (simp add: to_u16_def)
  with True assms(1) show ?thesis by (simp add: correct_mode_def)
next
  case False
  let ?m = "device_mode (desired_working_mode s)"
  obtain s1 where s1: "setRunningMode ops ?m s = (0, s1)" "wrote REG_RUNNING_MODE (to_u16 ?m) s s1"
    using setRunningMode_up [OF coherent_up [OF assms(1)], of ?m] device_mode_cases by blast
  with False have "correct_mode ops s = s1\<lparr>current_mode := ?m\<rparr>" by (simp add: correct_mode_def Let_def)
  with s1(2) coherent_mode [OF assms(1) s1(2)] device_mode_cases show ?thesis
    by (auto simp: wrote_def control_def)
qed

definition targets_met :: "(u16 \<Rightarrow> i16) \<Rightarrow> 'c ControlLoop \<Rightarrow> bool" where
  "targets_met r s \<longleftrightarrow>
     (desired_working_mode s = 1 \<longrightarrow> sint (r REG_HEATING_TARGET) \<le> 255) \<and>
     (desired_working_mode s = 2 \<longrightarrow> sint (r REG_DHW_TARGET) \<le> 405) \<and>
     (desired_working_mode s = 3 \<longrightarrow> near (r REG_DHW_TARGET) (saved_dhw_target s) \<and>
        near (r REG_HEATING_TARGET) (saved_heating_target s))"

text \<open>A step that may write one setpoint.\<close>

definition may_write :: "u16 \<Rightarrow> i16 \<Rightarrow> 'c ControlLoop \<Rightarrow> 'c ControlLoop \<Rightarrow> bool" where
  "may_write a w s s' \<longleftrightarrow> s' = s \<or> wrote a w s s'"

lemma guarded_saved_raw:
  assumes "wg.guarded s"
  obtains w v where "temp_to_raw (saved_dhw_target s) = Some w" "temp_to_raw (saved_heating_target s) = Some v"
proof -
  obtain c where "target_ok UNIV 40 63 (saved_dhw_target s)" "target_ok UNIV 25 63 (saved_heating_target s)"
    using assms by (rule wg.guardedE)
  then show thesis by (auto intro: that elim!: target_ok_raw)
qed

lemma restore_dhw:
  assumes "up s" "dhw_target st = raw_to_temp (dev s REG_DHW_TARGET)" "temp_to_raw (saved_dhw_target s) = Some w"
  obtains s' where
    "(if fp_less (Fin (1 / 2)) (fp_abs (fp_sub f32 (dhw_target st) (saved_dhw_target s)))
      then map_option snd (setDhwTarget ops (saved_dhw_target s) s) else Some s) = Some s'"
    "may_write REG_DHW_TARGET w s s'" "near (dev s' REG_DHW_TARGET) (saved_dhw_target s)"
proof (cases "fp_less (Fin (1 / 2)) (fp_abs (fp_sub f32 (dhw_target st) (saved_dhw_target s)))")
  case True
  obtain s1 where "setDhwTarget ops (saved_dhw_target s) s = Some (0, s1)" "wrote REG_DHW_TARGET w s s1"
    using setDhwTarget_up [OF assms(1,3)] by blast
  then show thesis using True assms(3) by (intro that [of s1]) (auto simp: may_write_def wrote_def near_def)
next
  case False
  then show thesis using assms(2) by (intro that [of s]) (auto simp: may_write_def near_def)
qed

lemma restore_heating:
  assumes "up s" "heating_target st = raw_to_temp (dev s REG_HEATING_TARGET)"
    "temp_to_raw (saved_heating_target s) = Some w"
  obtains s' where
    "(if fp_less (Fin (1 / 2)) (fp_abs (fp_sub f32 (heating_target st) (saved_heating_target s)))
      then map_option snd (setHeatingTarget ops (saved_heating_target s) s) else Some s) = Some s'"
    "may_write REG_HEATING_TARGET w s s'" "near (dev s' REG_HEATING_TARGET) (saved_heating_target s)"
proof (cases "fp_less (Fin (1 / 2)) (fp_abs (fp_sub f32 (heating_target st) (saved_heating_target s)))")
  case True
  obtain s1 where "setHeatingTarget ops (saved_heating_target s) s = Some (0, s1)" "wrote REG_HEATING_TARGET w s s1"
    using setHeatingTarget_up [OF assms(1,3)] by blast
  then show thesis using True assms(3) by (intro that [of s1]) (auto simp: may_write_def wrote_def near_def)
next
  case False
  then show thesis using assms(2) by (intro that [of s]) (auto simp: may_write_def near_def)
qed

lemma may_write_keeps:
  assumes "coherent z s" "may_write a w s s'" "a \<in> {REG_DHW_TARGET, REG_HEATING_TARGET}"
  shows "coherent z s'" "control s' = control s" "dev s' REG_RUNNING_MODE = dev s REG_RUNNING_MODE"
    "b \<in> held \<Longrightarrow> b \<noteq> a \<Longrightarrow> dev s' b = dev s b"
  using assms coherent_target [of z s a w s'] by (auto simp: may_write_def wrote_def)

lemma enforce_both_up:
  assumes c: "coherent z s" and g: "wg.guarded s" and m: "desired_working_mode s = 3"
    and d: "dhw_target st = raw_to_temp (dev s REG_DHW_TARGET)"
    and h: "heating_target st = raw_to_temp (dev s REG_HEATING_TARGET)"
  shows "\<exists>s'. enforce_targets ops st s = Some s' \<and> coherent z s' \<and> control s' = control s \<and>
    dev s' REG_RUNNING_MODE = dev s REG_RUNNING_MODE \<and> dev s' REG_DHW_PRIORITY = dev s REG_DHW_PRIORITY \<and>
    targets_met (dev s') s'"
proof -
  obtain w v where wv: "temp_to_raw (saved_dhw_target s) = Some w" "temp_to_raw (saved_heating_target s) = Some v"
    using g by (rule guarded_saved_raw)
  obtain s1 where s1: "(if fp_less (Fin (1 / 2)) (fp_abs (fp_sub f32 (dhw_target st) (saved_dhw_target s)))
      then map_option snd (setDhwTarget ops (saved_dhw_target s) s) else Some s) = Some s1"
    "may_write REG_DHW_TARGET w s s1" "near (dev s1 REG_DHW_TARGET) (saved_dhw_target s)"
    using coherent_up [OF c] d wv(1) by (rule restore_dhw)
  note k1 = may_write_keeps [OF c s1(2)]
  have h1: "heating_target st = raw_to_temp (dev s1 REG_HEATING_TARGET)" using k1(4) h by simp
  have v1: "temp_to_raw (saved_heating_target s1) = Some v" using k1(2) wv(2) by (simp add: control_def)
  have c1: "coherent z s1" using k1(1) by simp
  obtain s2 where s2: "(if fp_less (Fin (1 / 2)) (fp_abs (fp_sub f32 (heating_target st) (saved_heating_target s1)))
      then map_option snd (setHeatingTarget ops (saved_heating_target s1) s1) else Some s1) = Some s2"
    "may_write REG_HEATING_TARGET v s1 s2" "near (dev s2 REG_HEATING_TARGET) (saved_heating_target s1)"
    using coherent_up [OF c1] h1 v1 by (rule restore_heating)
  note k2 = may_write_keeps [OF c1 s2(2)]
  have "enforce_targets ops st s = Some s2" using m s1(1) s2(1) by (simp add: enforce_targets_def)
  moreover have "targets_met (dev s2) s2"
    using k1(2) k2(2,4) s1(3) s2(3) m by (auto simp: targets_met_def control_def)
  moreover have "dev s2 REG_DHW_PRIORITY = dev s REG_DHW_PRIORITY" using k1(4) k2(4) by simp
  ultimately show ?thesis using k1(2,3) k2(1-3) by auto
qed

lemma enforce_targets_up:
  assumes c: "coherent z s" and g: "wg.guarded s"
    and d: "dhw_target st = raw_to_temp (dev s REG_DHW_TARGET)"
    and h: "heating_target st = raw_to_temp (dev s REG_HEATING_TARGET)"
  shows "\<exists>s'. enforce_targets ops st s = Some s' \<and> coherent z s' \<and> control s' = control s \<and>
    dev s' REG_RUNNING_MODE = dev s REG_RUNNING_MODE \<and> dev s' REG_DHW_PRIORITY = dev s REG_DHW_PRIORITY \<and>
    targets_met (dev s') s'"
proof -
  note u = coherent_up [OF c]
  consider "desired_working_mode s = 1" | "desired_working_mode s = 2" | "desired_working_mode s = 3"
    | "desired_working_mode s \<notin> {1, 2, 3}" by blast
  then show ?thesis
  proof cases
    case 1
    obtain s1 where s1: "setHeatingTarget ops HEATING_TARGET_MIN s = Some (0, s1)" "wrote REG_HEATING_TARGET 250 s s1"
      using setHeatingTarget_up [OF u minima_raw(1)] by blast
    show ?thesis
      using 1 s1 c h heating_min_bound [of "dev s REG_HEATING_TARGET"] coherent_target [OF c s1(2)]
      by (auto simp: enforce_targets_def targets_met_def wrote_def control_def simp del: fp_less.simps fp_add.simps)
  next
    case 2
    obtain s1 where s1: "setDhwTarget ops DHW_TARGET_MIN s = Some (0, s1)" "wrote REG_DHW_TARGET 400 s s1"
      using setDhwTarget_up [OF u minima_raw(2)] by blast
    show ?thesis
      using 2 s1 c d dhw_min_bound [of "dev s REG_DHW_TARGET"] coherent_target [OF c s1(2)]
      by (auto simp: enforce_targets_def targets_met_def wrote_def control_def simp del: fp_less.simps fp_add.simps)
  next
    case 3
    then show ?thesis using c g d h by (intro enforce_both_up)
  next
    case 4
    then show ?thesis using c by (simp add: enforce_targets_def targets_met_def)
  qed
qed

lemma enforce_priority_up:
  assumes "coherent z s"
  shows "\<exists>s'. enforce_priority ops s = Some s' \<and> coherent z s' \<and>
    (\<forall>a \<in> held - {REG_DHW_PRIORITY}. dev s' a = dev s a) \<and>
    control s' = control (s\<lparr>current_priority := current_priority s'\<rparr>) \<and>
    (desired_working_mode s \<in> {1, 3} \<longrightarrow> current_priority s' = Dhw) \<and>
    (desired_working_mode s = 2 \<longrightarrow> current_priority s' = Heating)"
proof -
  have w: "\<exists>s'. write_priority ops v p s = Some s' \<and> coherent z s' \<and> current_priority s' = p \<and>
      (\<forall>a \<in> held - {REG_DHW_PRIORITY}. dev s' a = dev s a) \<and> control s' = control (s\<lparr>current_priority := p\<rparr>)"
    if "v = (if p = Dhw then 1 else 0)" for v p
    using write_priority_up [OF coherent_up [OF assms], of v p] coherent_priority [OF assms _ that]
    by (auto simp: wrote_def control_def)
  show ?thesis
    using w [of 1 Dhw] w [of 0 Heating] assms
    by (cases "current_priority s") (auto simp: enforce_priority_def control_def)
qed

lemma seen_sel [simp]:
  "desired_working_mode (seen_mode v s) = desired_working_mode s"
  "desired_working_mode (seen_dhw v s) = desired_working_mode s"
  "desired_working_mode (seen_heating v s) = desired_working_mode s"
  "current_priority (seen_mode v s) = current_priority s"
  "current_priority (seen_dhw v s) = current_priority s"
  "current_priority (seen_heating v s) = current_priority s"
  "current_mode (seen_dhw v s) = current_mode s"
  "current_mode (seen_heating v s) = current_mode s"
  "sint v \<in> {0, 1, 2} \<Longrightarrow> current_mode (seen_mode v s) = sint v"
  by (auto simp: seen_mode_def seen_dhw_def seen_heating_def Let_def)

lemma readStatus_coherent:
  assumes "coherent z s" "readStatus ops st s = (b, st', s')"
  shows "b \<and> coherent z s' \<and> dev s' REG_DHW_PRIORITY = dev s REG_DHW_PRIORITY \<and>
    current_mode s' = sint (dev s' REG_RUNNING_MODE) \<and>
    current_priority s' = current_priority s \<and> desired_working_mode s' = desired_working_mode s \<and>
    dhw_target st' = raw_to_temp (dev s' REG_DHW_TARGET) \<and>
    heating_target st' = raw_to_temp (dev s' REG_HEATING_TARGET)"
proof -
  obtain c where c: "modbus_client s = Some c" "ready c" using assms(1) by (auto simp: coherent_def up_def)
  note r = readStatus_ready [OF c assms(2)]
  then obtain c' where c': "ready c'" "same_held c c'" and s': "s' = (seen_heating (reg c REG_HEATING_TARGET)
      (seen_dhw (reg c REG_DHW_TARGET) (seen_mode (reg c REG_RUNNING_MODE) s)))
        \<lparr>modbus_client := Some c', saved_targets_initialized := True\<rparr>" by blast
  have dev: "dev s' a = dev s a" if "a \<in> held" for a
    using c c' s' that by (simp add: dev_def same_held_def)
  have "up s'" using s' c' by (simp add: up_def)
  have m: "sint (reg c REG_RUNNING_MODE) \<in> {0, 1, 2}" using assms(1) c by (simp add: coherent_def dev_def)
  have pr: "current_priority s' = current_priority s" "desired_working_mode s' = desired_working_mode s"
    using s' by simp_all
  have cm: "current_mode s' = sint (reg c REG_RUNNING_MODE)" using s' m by simp
  have "dev s a = reg c a" for a using c by (simp add: dev_def)
  with \<open>up s'\<close> dev pr cm assms(1) r show ?thesis by (auto simp: coherent_def priority_agrees_def)
qed

lemma publish_sel [simp]:
  "dev (publish st s) = dev s" "coherent z (publish st s) = coherent z s" "control (publish st s) = control s"
  by (simp_all add: publish_def control_def split: option.split)

lemma mode_table_cong:
  "control s' = control s \<Longrightarrow> mode_table r s' = mode_table r s"
  by (simp add: mode_table_def control_def)

text \<open>What control achieves: the table but for the priority, and the priority where register and object agree.\<close>

definition controlled :: "'c ControlLoop \<Rightarrow> 'c ControlLoop \<Rightarrow> bool" where
  "controlled s s' \<longleftrightarrow> settings_table (dev s') s' \<and> (agrees s' \<longrightarrow> mode_table (dev s') s') \<and>
     desired_working_mode s' = desired_working_mode s"

lemma applyControlLogic_up:
  assumes c: "coherent z s" and g: "wg.guarded s" and m: "current_mode s = sint (dev s REG_RUNNING_MODE)"
    and d: "dhw_target st = raw_to_temp (dev s REG_DHW_TARGET)"
    and h: "heating_target st = raw_to_temp (dev s REG_HEATING_TARGET)"
  shows "\<exists>s'. applyControlLogic ops st s = Some s' \<and> coherent z s' \<and> controlled s s'"
proof -
  let ?s = "correct_mode ops s"
  note cm = correct_mode_up [OF c m]
  have gs: "wg.guarded ?s" using wg.correct_mode_keeps [OF g] by (simp add: wg.keeps_def)
  obtain s1 where s1: "enforce_targets ops st ?s = Some s1" "coherent z s1" "control s1 = control ?s"
      "dev s1 REG_RUNNING_MODE = dev ?s REG_RUNNING_MODE" "targets_met (dev s1) s1"
    using enforce_targets_up [OF _ gs, of z st] cm d h by auto
  obtain s2 where s2: "enforce_priority ops s1 = Some s2" "coherent z s2"
      "\<forall>a \<in> held - {REG_DHW_PRIORITY}. dev s2 a = dev s1 a"
      "control s2 = control (s1\<lparr>current_priority := current_priority s2\<rparr>)"
      "desired_working_mode s1 \<in> {1, 3} \<longrightarrow> current_priority s2 = Dhw"
      "desired_working_mode s1 = 2 \<longrightarrow> current_priority s2 = Heating"
    using enforce_priority_up [OF s1(2)] by blast
  have "applyControlLogic ops st s = Some s2" using s1(1) s2(1) by (simp add: applyControlLogic_def)
  moreover have "desired_working_mode s2 = desired_working_mode s"
    using s1(3) s2(4) cm by (simp add: control_def)
  moreover have "settings_table (dev s2) s2"
    using s1 s2 cm by (auto simp: settings_table_def targets_met_def control_def device_mode_def to_u16_def)
  moreover have "priority_table (dev s2) s2" if "agrees s2"
    using that s2(4-6) by (auto simp: priority_table_def priority_agrees_def control_def)
  ultimately show ?thesis using s2(2) by (auto simp: controlled_def mode_table_split)
qed

lemma read_and_control_up:
  assumes "coherent z s" "wg.guarded s"
  shows "\<exists>s'. read_and_control ops s = Some s' \<and> coherent z s' \<and> controlled s s'"
proof -
  obtain b st s1 where r: "readStatus ops StatusSnapshot_default s = (b, st, s1)"
    by (cases "readStatus ops StatusSnapshot_default s")
  note k = readStatus_coherent [OF assms(1) r]
  have g: "wg.guarded s1" using wg.readStatus_keeps [OF assms(2) r] by blast
  obtain s2 where "applyControlLogic ops st s1 = Some s2" "coherent z s2" "controlled s1 s2"
    using applyControlLogic_up [OF _ g, of z st] k by blast
  moreover have "controlled s1 (publish x s2) = controlled s1 s2" for x
    by (simp add: controlled_def mode_table_def settings_table_def priority_agrees_def publish_def split: option.split)
  moreover have "controlled s1 = controlled s" using k by (simp add: controlled_def fun_eq_iff)
  ultimately show ?thesis using k r by (auto simp: read_and_control_def)
qed

lemma iteration_converges:
  assumes c: "coherent z s" and g: "wg.guarded s" and q: "\<And>q. cmd_queue s = Some q \<Longrightarrow> queue_valid q"
  shows "\<exists>s1 s'. processCommands ops s = Some s1 \<and> loop_iteration ops stops s = Some s' \<and> coherent z s' \<and>
    (list_ex sets_priority (waiting s) \<longrightarrow> agrees s') \<and> wg.guarded s' \<and> controlled s1 s'"
proof -
  obtain cl where cl: "modbus_client s = Some cl" "ready cl" using c by (auto simp: coherent_def up_def)
  then have e: "ensure_connected ops stops s = Some (True, s)" using connected by (simp add: ensure_connected_def)
  obtain s1 where s1: "processCommands ops s = Some s1" "wg.guarded s1"
    using wg.processCommands_keeps [OF g q] by blast
  have c1: "coherent z s1" using processCommands_coherent [OF c q s1(1)] .
  obtain s2 where s2: "read_and_control ops s1 = Some s2" "coherent z s2" "controlled s1 s2"
    using read_and_control_up [OF c1 s1(2)] by blast
  have "agrees s2" if "list_ex sets_priority (waiting s)"
    using read_and_control_up [OF coherent_any [OF c1 processCommands_agrees [OF c q that s1(1)]] s1(2), of "(1, Dhw)"] s2(1)
    by (auto simp: coherent_agrees)
  moreover have "loop_iteration ops stops s = Some s2" using e s1(1) s2(1) by (simp add: loop_iteration_def)
  moreover have "wg.guarded s2" using wg.read_and_control_keeps [OF s1(2)] s2(1) by (auto simp: wg.keeps_def)
  ultimately show ?thesis using s1(1) s2(2,3) by blast
qed

lemma iteration_meets_table:
  assumes "modbus_client s = Some c" "ready c" "sint (reg c REG_RUNNING_MODE) \<in> {0, 1, 2}"
    and "target_ok UNIV 40 63 (saved_dhw_target s)" "target_ok UNIV 25 63 (saved_heating_target s)"
    and "\<And>q. cmd_queue s = Some q \<Longrightarrow> queue_valid q"
  shows "\<exists>s' c'. loop_iteration ops stops s = Some s' \<and> modbus_client s' = Some c' \<and> ready c' \<and>
    settings_table (reg c') s' \<and> (mode_table (reg c') s' \<or> stale_priority (reg c) s (reg c') s')"
proof -
  let ?z = "(reg c REG_DHW_PRIORITY, current_priority s)"
  have d: "dev s = reg c" using assms(1) by (simp add: dev_def)
  have c: "coherent z s" if "z = ?z \<or> agrees s" for z using that assms(1-3) d by (auto simp: coherent_def up_def)
  have g: "wg.guarded s" using assms(1,2,4,5) by (auto simp: wg.guarded_def)
  obtain s1 s' where s': "processCommands ops s = Some s1" "loop_iteration ops stops s = Some s'" "coherent ?z s'"
      "list_ex sets_priority (waiting s) \<longrightarrow> agrees s'" "controlled s1 s'"
    using iteration_converges [OF c [of ?z] g assms(6), of stops] by auto
  obtain c' where c': "modbus_client s' = Some c'" "ready c'" using coherent_up [OF s'(3)] by (auto simp: up_def)
  have "agrees s'" if "agrees s"
    using iteration_converges [OF c [of "(1, Dhw)"] g assms(6), of stops] that s'(2) by (auto simp: coherent_agrees)
  then have "mode_table (dev s') s' \<or> stale_priority (dev s) s (dev s') s'"
    using s' d by (auto simp: controlled_def stale_priority_def coherent_def)
  then show ?thesis using s'(2,5) c' d by (auto simp: controlled_def dev_def)
qed

text \<open>Where the object's priority is that of the mode, control leaves the register alone, whatever it holds.\<close>

definition settled :: "'c ControlLoop \<Rightarrow> bool" where
  "settled s \<longleftrightarrow> (desired_working_mode s \<in> {1, 3} \<longrightarrow> current_priority s = Dhw) \<and>
     (desired_working_mode s = 2 \<longrightarrow> current_priority s = Heating)"

definition same_priority :: "'c ControlLoop \<Rightarrow> 'c ControlLoop \<Rightarrow> bool" where
  "same_priority s s' \<longleftrightarrow> dev s' REG_DHW_PRIORITY = dev s REG_DHW_PRIORITY \<and>
     current_priority s' = current_priority s \<and> desired_working_mode s' = desired_working_mode s"

lemma settled_idle: "settled s \<Longrightarrow> enforce_priority ops s = Some s"
  by (auto simp: settled_def enforce_priority_def)

lemma read_and_control_idle:
  assumes "coherent z s" "wg.guarded s" "settled s" "read_and_control ops s = Some s'"
  shows "same_priority s s'"
proof -
  obtain b st s1 where r: "readStatus ops StatusSnapshot_default s = (b, st, s1)"
    by (cases "readStatus ops StatusSnapshot_default s")
  note k = readStatus_coherent [OF assms(1) r]
  have c1: "coherent z s1" "current_mode s1 = sint (dev s1 REG_RUNNING_MODE)" using k by auto
  let ?s = "correct_mode ops s1"
  note cm = correct_mode_up [OF c1]
  have g: "wg.guarded ?s" using wg.correct_mode_keeps wg.readStatus_keeps [OF assms(2) r] by (auto simp: wg.keeps_def)
  obtain s2 where s2: "enforce_targets ops st ?s = Some s2" "control s2 = control ?s"
      "dev s2 REG_DHW_PRIORITY = dev ?s REG_DHW_PRIORITY"
    using enforce_targets_up [OF _ g, of z st] cm k by auto
  have "same_priority s s2" using s2(2,3) cm k by (auto simp: same_priority_def control_def)
  moreover from this have "settled s2" using assms(3) by (simp add: same_priority_def settled_def)
  ultimately show ?thesis
    using assms(4) r k s2(1) settled_idle
    by (auto simp: read_and_control_def applyControlLogic_def same_priority_def publish_def split: option.split)
qed

lemma stale_iteration:
  assumes "coherent z s" "wg.guarded s" "settled s" "cmd_queue s = Some q" "cq_inv q" "cq_list q = []"
  shows "\<exists>s'. loop_iteration ops stops s = Some s' \<and> coherent z s' \<and> same_priority s s'"
proof -
  have v: "queue_valid q1" if "cmd_queue s = Some q1" for q1 using that assms(4-6) by (simp add: queue_valid_def)
  obtain s1 s' where s': "processCommands ops s = Some s1" "loop_iteration ops stops s = Some s'" "coherent z s'"
    using iteration_converges [OF assms(1,2) v, of stops] by auto
  obtain q' where q': "s1 = s\<lparr>cmd_queue := Some q'\<rparr>"
    using s'(1) assms(4,6) process_queue_exec_all [OF assms(5), of ops s] by (auto simp: processCommands_def)
  obtain cl where "modbus_client s = Some cl" "ready cl" using assms(1) by (auto simp: coherent_def up_def)
  then have "read_and_control ops s1 = Some s'"
    using s'(1,2) connected by (simp add: loop_iteration_def ensure_connected_def)
  from read_and_control_idle [OF _ _ _ this] have "same_priority s s'"
    using assms(1-3) q' by (simp add: settled_def same_priority_def)
  then show ?thesis using s'(2,3) by blast
qed

lemma heating_only_stale:
  assumes "modbus_client s = Some c" "ready c" "sint (reg c REG_RUNNING_MODE) \<in> {0, 1, 2}"
    and "target_ok UNIV 40 63 (saved_dhw_target s)" "target_ok UNIV 25 63 (saved_heating_target s)"
    and "cmd_queue s = Some q" "cq_inv q" "cq_list q = []" "desired_working_mode s = 2" "current_priority s = Heating"
  shows "\<exists>s' c'. loop_iteration ops stops s = Some s' \<and> modbus_client s' = Some c' \<and>
    reg c' REG_DHW_PRIORITY = reg c REG_DHW_PRIORITY \<and> current_priority s' = Heating \<and> desired_working_mode s' = 2"
proof -
  let ?z = "(reg c REG_DHW_PRIORITY, current_priority s)"
  have d: "dev s = reg c" using assms(1) by (simp add: dev_def)
  have "coherent ?z s" using assms(1-3) d by (auto simp: coherent_def up_def)
  moreover have "wg.guarded s" using assms(1,2,4,5) by (auto simp: wg.guarded_def)
  moreover have "settled s" using assms(9,10) by (simp add: settled_def)
  ultimately obtain s' where s': "loop_iteration ops stops s = Some s'" "coherent ?z s'" "same_priority s s'"
    using stale_iteration [OF _ _ _ assms(6-8), of ?z stops] by blast
  obtain c' where "modbus_client s' = Some c'" using coherent_up [OF s'(2)] by (auto simp: up_def)
  then show ?thesis using s'(1,3) d assms(9,10) by (auto simp: same_priority_def dev_def)
qed

end

text \<open>A queue with one command, for the concrete runs.\<close>

abbreviation heating_first :: Command where
  "heating_first \<equiv> \<lparr>cmd_type = CMD_SET_PRIORITY, float_val = Fin 0, int_val = 0\<rparr>"

abbreviation demo_queue :: "Command CmdQueue" where
  "demo_queue \<equiv> snd (CmdQueue_push heating_first (CmdQueue_init (replicate 16 heating_first)))"

lemma demo_queue_valid: "queue_valid demo_queue"
  using cq.push_ok [of "CmdQueue_init (replicate 16 heating_first)" heating_first]
  by (auto simp: queue_valid_def cq_inv_init)

lemma demo_queue_list: "cq_list demo_queue = [heating_first]"
  using cq.push_ok [of "CmdQueue_init (replicate 16 heating_first)" heating_first] by (auto simp: cq_inv_init)

lemma demo_queue_not_stale: "cmd_queue s = Some demo_queue \<Longrightarrow> \<not> stale_priority r s r' s'"
  unfolding stale_priority_def waiting_def by (simp only: option.case demo_queue_list) (simp add: sets_priority_def)

section \<open>Properties for any client\<close>

text \<open>
  C21. \<open>processCommands\<close> carries out all queued commands in the order they were pushed, leaves the
  queue empty, and returns: the loop over the ring buffer is the list of stored commands executed
  one after the other.
\<close>

theorem processCommands_in_order:
  assumes "cmd_queue s = Some q" "cq_inv q"
  shows "\<exists>q'. cq_inv q' \<and> cq_list q' = [] \<and>
    processCommands ops s =
      map_option (\<lambda>s'. s'\<lparr>cmd_queue := Some q'\<rparr>) (exec_all ops (cq_list q) s)"
proof -
  obtain q' where "cq_inv q'" "cq_list q' = []"
      "process_queue ops q s = map_option (Pair q') (exec_all ops (cq_list q) s)"
    using process_queue_exec_all [OF assms(2)] by blast
  then show ?thesis
    using assms(1) by (intro exI [of _ q']) (cases "exec_all ops (cq_list q) s", auto simp: processCommands_def)
qed

theorem processCommands_in_order_witness:
  "\<exists>q'. cq_inv q' \<and> cq_list q' = [] \<and>
    processCommands bank_ops (ControlLoop_init\<lparr>modbus_client := Some (\<lambda>a. 0), cmd_queue := Some demo_queue\<rparr>) =
    map_option (\<lambda>s'. s'\<lparr>cmd_queue := Some q'\<rparr>)
      (exec_all bank_ops [heating_first] (ControlLoop_init\<lparr>modbus_client := Some (\<lambda>a. 0), cmd_queue := Some demo_queue\<rparr>))"
proof -
  have "cq_inv demo_queue" using demo_queue_valid by (simp add: queue_valid_def)
  from processCommands_in_order [OF _ this, where ops = bank_ops
      and s = "ControlLoop_init\<lparr>modbus_client := Some (\<lambda>a. 0), cmd_queue := Some demo_queue\<rparr>"]
  show ?thesis unfolding demo_queue_list by simp
qed

text \<open>
  A priority register that differs from the priority the loop remembers is never corrected: in the mode for
  heating only, with heating remembered as the priority (as after a start with these settings saved), an
  iteration on a working device leaves the register as it finds it, although the table of that mode asks for 0.
\<close>

theorem stale_priority_kept:
  assumes "heat_pump ops ready reg held readable"
    and "modbus_client s = Some c" "ready c" "sint (reg c REG_RUNNING_MODE) \<in> {0, 1, 2}"
    and "target_ok UNIV 40 63 (saved_dhw_target s)" "target_ok UNIV 25 63 (saved_heating_target s)"
    and "cmd_queue s = Some q" "cq_inv q" "cq_list q = []"
    and "desired_working_mode s = 2" "current_priority s = Heating" "reg c REG_DHW_PRIORITY = 1"
  shows "\<exists>s' c'. loop_iteration ops stops s = Some s' \<and> modbus_client s' = Some c' \<and>
    reg c' REG_DHW_PRIORITY = 1 \<and> current_priority s' = Heating \<and> \<not> mode_table (reg c') s'"
  using heat_pump.heating_only_stale [OF assms(1-11), of stops] assms(12) by (auto simp: mode_table_def)

end
