(* ===== verification/Control_Status.thy ===== *)
theory Control_Status
  imports Control_Converge
begin

text \<open>
  What the loop reports, for any client: which reads make a status valid, and that every
  iteration publishes one snapshot that the web server then finds.
\<close>

section \<open>Members the operations leave alone, continued\<close>

lemma setRunningMode_queue [simp]: "status_queue (snd (setRunningMode ops m s)) = status_queue s"
  by (auto simp: setRunningMode_def split: option.split prod.split sum.split)

lemma setDhwTarget_queue: "setDhwTarget ops t s = Some (r, s') \<Longrightarrow> status_queue s' = status_queue s"
  by (cases "modbus_client s"; cases "temp_to_raw t";
      cases "m_writeRegister ops REG_DHW_TARGET (the (temp_to_raw t)) (the (modbus_client s))")
    (auto simp: setDhwTarget_def split: sum.splits)

lemma setHeatingTarget_queue: "setHeatingTarget ops t s = Some (r, s') \<Longrightarrow> status_queue s' = status_queue s"
  by (cases "modbus_client s"; cases "temp_to_raw t";
      cases "m_writeRegister ops REG_HEATING_TARGET (the (temp_to_raw t)) (the (modbus_client s))")
    (auto simp: setHeatingTarget_def split: sum.splits)

lemma write_priority_queue: "write_priority ops v p s = Some s' \<Longrightarrow> status_queue s' = status_queue s"
  by (auto simp: write_priority_def client_write_def bind_eq_Some_conv split: option.splits prod.splits sum.splits)

lemma correct_mode_queue [simp]: "status_queue (correct_mode ops s) = status_queue s"
  using setRunningMode_queue [of ops "device_mode (desired_working_mode s)" s]
  by (auto simp: correct_mode_def Let_def simp del: setRunningMode_queue split: prod.splits)

lemma enforce_targets_queue: "enforce_targets ops st s = Some s' \<Longrightarrow> status_queue s' = status_queue s"
  by (auto simp: enforce_targets_def bind_eq_Some_conv split: if_splits
      dest!: setDhwTarget_queue setHeatingTarget_queue)

lemma applyControlLogic_queue: "applyControlLogic ops st s = Some s' \<Longrightarrow> status_queue s' = status_queue s"
  by (auto simp: applyControlLogic_def enforce_priority_def bind_eq_Some_conv split: if_splits
      dest!: enforce_targets_queue write_priority_queue)

section \<open>The reads of a status\<close>

definition critical :: "u16 set" where
  "critical = {REG_OUTDOOR_TEMP, REG_LEAVING_WATER_TEMP, REG_DHW_TANK_TEMP, REG_RUNNING_MODE,
     REG_RUNNING_STATUS, REG_DHW_TARGET, REG_DHW_PRIORITY}"

text \<open>A block fails the status exactly when its register is critical, and keeps the queue.\<close>

definition block_fails :: "'c try_block \<Rightarrow> bool" where
  "block_fails b \<longleftrightarrow> (case b of (a, g, f) \<Rightarrow>
     (\<forall>x. ok (f x) = (ok x \<and> a \<notin> critical) \<and> status_queue (self (f x)) = status_queue (self x) \<and>
       (\<forall>v. ok (g v x) = ok x \<and> status_queue (self (g v x)) = status_queue (self x))))"

lemma main_blocks_fail: "list_all block_fails main_blocks"
  by (simp add: main_blocks_def block_fails_def critical_def got_running_mode_def got_dhw_target_def
      got_heating_target_def Let_def)

lemma power_blocks_fail: "list_all block_fails power_blocks"
  by (simp add: power_blocks_def block_fails_def critical_def got_ac_current_def got_ac_voltage_def Let_def)

lemma diagnostic_blocks_fail: "list_all block_fails diagnostic_blocks"
  by (simp add: diagnostic_blocks_def block_fails_def critical_def)

definition no_critical_failure :: "client_event list \<Rightarrow> bool" where
  "no_critical_failure es \<longleftrightarrow> (\<forall>a e. Ev_read a (Inl e) \<in> set es \<longrightarrow> a \<notin> critical)"

lemma no_critical_failure_append [simp]:
  "no_critical_failure (es @ fs) \<longleftrightarrow> no_critical_failure es \<and> no_critical_failure fs"
  by (auto simp: no_critical_failure_def)

fun event_read :: "client_event \<Rightarrow> u16 option" where
  "event_read (Ev_read a r) = Some a"
| "event_read _ = None"

lemma logged_try_read:
  assumes "try_read (logged ops) (a, g, f) ((c, l), x) = ((c', l'), x')" "block_fails (a, g, f)"
  shows "\<exists>r. l' = Ev_read a r # l \<and> ok x' = (ok x \<and> no_critical_failure [Ev_read a r]) \<and>
    status_queue (self x') = status_queue (self x)"
  using assms
  by (auto simp: try_read_def logged_def block_fails_def no_critical_failure_def split: prod.splits sum.splits)

lemma logged_reads:
  assumes "fold (try_read (logged ops)) bs ((c, l), x) = ((c', l'), x')" "list_all block_fails bs"
  shows "\<exists>es. l' = es @ l \<and> map event_read (rev es) = map (Some \<circ> fst) bs \<and>
    ok x' = (ok x \<and> no_critical_failure es) \<and> status_queue (self x') = status_queue (self x)"
  using assms
proof (induction bs arbitrary: c l x)
  case Nil
  then show ?case by (auto simp: no_critical_failure_def)
next
  case (Cons b bs)
  obtain a g f where b: "b = (a, g, f)" by (cases b)
  obtain c1 l1 x1 where t: "try_read (logged ops) b ((c, l), x) = ((c1, l1), x1)"
    by (metis surj_pair)
  from logged_try_read [OF t [unfolded b]] Cons.prems(2) b obtain r where
    r: "l1 = Ev_read a r # l" "ok x1 = (ok x \<and> no_critical_failure [Ev_read a r])"
      "status_queue (self x1) = status_queue (self x)" by auto
  have "fold (try_read (logged ops)) bs ((c1, l1), x1) = ((c', l'), x')" "list_all block_fails bs"
    using Cons.prems t by auto
  from Cons.IH [OF this] obtain es where
    es: "l' = es @ l1" "map event_read (rev es) = map (Some \<circ> fst) bs"
      "ok x' = (ok x1 \<and> no_critical_failure es)" "status_queue (self x') = status_queue (self x1)" by blast
  from r es b show ?case
    by (intro exI [of _ "es @ [Ev_read a r]"]) auto
qed

text \<open>The registers of a status in the order they are read.\<close>

definition status_registers :: "u16 list" where
  "status_registers =
     [REG_OUTDOOR_TEMP, REG_INDOOR_TEMP, REG_LEAVING_WATER_TEMP, REG_ENTERING_WATER_TEMP,
      REG_DHW_TANK_TEMP, REG_RUNNING_MODE, REG_RUNNING_STATUS, REG_DHW_TARGET, REG_HEATING_TARGET,
      REG_DHW_PRIORITY, REG_OCCUPANCY_MODE, REG_AC_CURRENT, REG_DC_CURRENT, REG_AC_VOLTAGE,
      REG_DC_VOLTAGE, REG_UNIT_CAPACITY, REG_COMPRESSOR_FREQ, REG_WATER_FLOW,
      REG_ACTUAL_CAPACITY_OUTPUT, REG_DHW_VALVE_STATUS, REG_DHW_MODE_STATUS, REG_ODU_INPUT_STATUS,
      REG_COMPRESSOR_RUNTIME, REG_PUMP_RUNTIME]"

lemma status_registers_eq:
  "map fst (main_blocks :: 'c try_block list) @ map fst (power_blocks :: 'c try_block list) @
     map fst (diagnostic_blocks :: 'c try_block list) = status_registers"
  by (simp add: main_blocks_def power_blocks_def diagnostic_blocks_def status_registers_def)

lemma compute_power_queue [simp]: "ok (compute_power x) = ok x" "self (compute_power x) = self x"
  by (simp_all add: compute_power_def)

lemma readStatus_logged:
  assumes "modbus_client s = Some (c, l)" "readStatus (logged ops) st s = (b, st', s')"
  shows "\<exists>c' es. modbus_client s' = Some (c', es @ l) \<and> map event_read (rev es) = map Some status_registers \<and>
    b = no_critical_failure es \<and> device_online st' = b \<and> status_queue s' = status_queue s"
proof -
  let ?x = "\<lparr>self = s, status = st, ok = True, l_ac_current = Fin 0, l_ac_voltage = Fin 0,
    got_current = False, got_voltage = False\<rparr>"
  obtain c1 l1 x1 where 1: "fold (try_read (logged ops)) main_blocks ((c, l), ?x) = ((c1, l1), x1)"
    by (metis surj_pair)
  obtain c2 l2 x2 where 2: "fold (try_read (logged ops)) power_blocks ((c1, l1), x1) = ((c2, l2), x2)"
    by (metis surj_pair)
  obtain c3 l3 x3 where
    3: "fold (try_read (logged ops)) diagnostic_blocks ((c2, l2), compute_power x2) = ((c3, l3), x3)"
    by (metis surj_pair)
  obtain e1 where e1: "l1 = e1 @ l" "map event_read (rev e1) = map (Some \<circ> fst) (main_blocks :: ('a \<times> client_event list) try_block list)"
      "ok x1 = no_critical_failure e1" "status_queue (self x1) = status_queue s"
    using logged_reads [OF 1 main_blocks_fail] by auto
  obtain e2 where e2: "l2 = e2 @ l1" "map event_read (rev e2) = map (Some \<circ> fst) (power_blocks :: ('a \<times> client_event list) try_block list)"
      "ok x2 = (ok x1 \<and> no_critical_failure e2)" "status_queue (self x2) = status_queue (self x1)"
    using logged_reads [OF 2 power_blocks_fail] by auto
  obtain e3 where e3: "l3 = e3 @ l2" "map event_read (rev e3) = map (Some \<circ> fst) (diagnostic_blocks :: ('a \<times> client_event list) try_block list)"
      "ok x3 = (ok x2 \<and> no_critical_failure e3)" "status_queue (self x3) = status_queue (self x2)"
    using logged_reads [OF 3 diagnostic_blocks_fail] by auto
  have "map event_read (rev (e3 @ e2 @ e1)) = map Some status_registers"
    using e1(2) e2(2) e3(2) by (simp add: status_registers_eq [symmetric, where 'c = "'a \<times> client_event list"])
  moreover have r: "b = ok x3" "st' = (compute_cop (status x3))\<lparr>device_online := ok x3\<rparr>"
      "status_queue s' = status_queue (self x3)" "modbus_client s' = Some (c3, l3)"
    using assms 1 2 3 by (auto simp: readStatus_def Let_def)
  moreover have "b = no_critical_failure (e3 @ e2 @ e1)" "device_online st' = b"
      "status_queue s' = status_queue s" "modbus_client s' = Some (c3, (e3 @ e2 @ e1) @ l)"
    unfolding r using e1 e2 e3 by auto
  ultimately show ?thesis by blast
qed

text \<open>
  C20. \<open>readStatus\<close> only reads: it asks for 24 registers once each, in a fixed order, whatever fails
  on the way, and reports the device online exactly when none of the seven critical registers
  (outdoor, leaving water and tank temperature, mode, running status, hot-water target, priority)
  failed; a failed heating target, power or diagnostic register does not take the device offline.
\<close>

theorem online_iff_critical_reads:
  assumes "modbus_client s = Some (c, l)" "readStatus (logged ops) st s = (b, st', s')"
  shows "\<exists>c' es. modbus_client s' = Some (c', es @ l) \<and> map event_read (rev es) = map Some status_registers \<and>
    b = no_critical_failure es \<and> device_online st' = b"
  using readStatus_logged [OF assms] by blast

theorem online_iff_critical_reads_witness:
  "\<exists>b st' s' c' es. readStatus (logged bank_ops) StatusSnapshot_default
      (ControlLoop_init\<lparr>modbus_client := Some (\<lambda>a. 450, [])\<rparr>) = (b, st', s') \<and>
    modbus_client s' = Some (c', es @ []) \<and> map event_read (rev es) = map Some status_registers \<and>
    b = no_critical_failure es \<and> device_online st' = b"
proof -
  obtain b st' s' where r: "readStatus (logged bank_ops) StatusSnapshot_default
      (ControlLoop_init\<lparr>modbus_client := Some (\<lambda>a. 450, [])\<rparr>) = (b, st', s')"
    by (metis surj_pair)
  from online_iff_critical_reads [OF _ r, of "\<lambda>a. 450" "[]"] r show ?thesis by auto
qed

text \<open>
  C22. Every poll publishes exactly one snapshot, whose working mode is the wanted one and whose
  online flag says whether the poll succeeded, and the web server then finds it as the latest.
\<close>

theorem iteration_publishes:
  assumes "modbus_client s = Some (c, l)" "status_queue s = Some q" "sq_holds q hs"
    and "length hs + 1 < 2 ^ 32" "read_and_control (logged ops) s = Some s'"
  shows "\<exists>st q'. status_queue s' = Some q' \<and> sq_holds q' (hs @ [st]) \<and> StatusQueue_latest q' = Some st \<and>
    working_mode st = desired_working_mode s' \<and>
    device_online st = fst (readStatus (logged ops) StatusSnapshot_default s)"
proof -
  obtain b st s1 where r: "readStatus (logged ops) StatusSnapshot_default s = (b, st, s1)"
    by (metis surj_pair)
  have q1: "status_queue s1 = Some q" "device_online st = b"
    using readStatus_logged [OF assms(1) r] assms(2) by auto
  have "\<exists>st' s2. s' = publish st' s2 \<and> status_queue s2 = Some q \<and> device_online st' = b \<and>
      working_mode st' = desired_working_mode s2"
  proof (cases b)
    case True
    then obtain s2 where "applyControlLogic (logged ops) st s1 = Some s2"
        "s' = publish (st\<lparr>working_mode := desired_working_mode s2\<rparr>) s2"
      using assms(5) r by (auto simp: read_and_control_def bind_eq_Some_conv)
    then show ?thesis using q1 True applyControlLogic_queue by fastforce
  next
    case False
    then have "s' = publish (st\<lparr>device_online := False, working_mode := desired_working_mode s1\<rparr>) s1"
      using assms(5) r by (simp add: read_and_control_def)
    then show ?thesis using q1 False by (intro exI conjI) (assumption, simp_all)
  qed
  then obtain st' s2 where s': "s' = publish st' s2" "status_queue s2 = Some q" "device_online st' = b"
      "working_mode st' = desired_working_mode s2" by blast
  obtain q' where q': "StatusQueue_push st' q = (True, q')" "sq_holds q' (hs @ [st'])"
      "unat (sq_head q') = max (unat (sq_head q)) (length hs + 1 - 31)"
    using sq_holds_push [OF assms(3,4)] by blast
  have "unat (sq_head q) \<le> length hs" using assms(3) by (auto simp: sq_holds_def word_le_nat_alt)
  then have "StatusQueue_latest q' = Some st'"
    using StatusQueue_latest_eq [OF q'(2)] q'(3) by (simp add: sq_list_def)
  with s' q' r show ?thesis by (auto simp: publish_def)
qed

theorem iteration_publishes_witness:
  "\<exists>s' st q'. read_and_control (logged bank_ops)
      (ControlLoop_init\<lparr>modbus_client := Some (\<lambda>a. 450, []),
         status_queue := Some (StatusQueue_init (replicate 32 StatusSnapshot_default))\<rparr>) = Some s' \<and>
    status_queue s' = Some q' \<and> sq_holds q' ([] @ [st]) \<and> StatusQueue_latest q' = Some st \<and>
    working_mode st = desired_working_mode s'"
proof -
  let ?s = "ControlLoop_init\<lparr>modbus_client := Some (\<lambda>a. 450, []),
    status_queue := Some (StatusQueue_init (replicate 32 StatusSnapshot_default))\<rparr>
    :: ((u16 \<Rightarrow> i16) \<times> client_event list) ControlLoop"
  have "lg.guarded ?s" by (simp add: lg.guarded_def ControlLoop_init_def target_ok_Fin)
  then obtain s' where s': "read_and_control (logged bank_ops) ?s = Some s'"
    using lg.read_and_control_keeps [of ?s bank_ops] by (auto simp: lg.keeps_def)
  have "sq_holds (StatusQueue_init (replicate 32 StatusSnapshot_default)) []" by (simp add: sq_holds_init)
  with iteration_publishes [OF _ _ this _ s', of "\<lambda>a. 450" "[]"] s' show ?thesis by fastforce
qed

section \<open>The status monitor\<close>

text \<open>
  \<open>StatusMonitor\<close> of \<open>src/core/StatusMonitor.cpp\<close>, the copy of the latest status that several threads may
  ask for. Every operation but \<open>isValid\<close> holds the mutex, so each is one step.
\<close>

record StatusMonitor =
  sm_status :: StatusSnapshot
  sm_valid :: bool

definition StatusMonitor_init :: StatusMonitor where
  "StatusMonitor_init = \<lparr>sm_status = StatusSnapshot_default, sm_valid = False\<rparr>"

definition monitor_update :: "StatusSnapshot \<Rightarrow> StatusMonitor \<Rightarrow> StatusMonitor" where
  "monitor_update snapshot m = m\<lparr>sm_status := snapshot, sm_valid := True\<rparr>"

definition monitor_get :: "StatusMonitor \<Rightarrow> bool \<times> StatusSnapshot" where
  "monitor_get m = (sm_valid m, sm_status m)"

definition monitor_isValid :: "StatusMonitor \<Rightarrow> bool" where
  "monitor_isValid m = sm_valid m"

definition monitor_reset :: "StatusMonitor \<Rightarrow> StatusMonitor" where
  "monitor_reset m = m\<lparr>sm_status := StatusSnapshot_default, sm_valid := False\<rparr>"

text \<open>What the monitor answers is decided by the updates since the last reset: the last one, if there is one.\<close>

datatype monitor_op = Update StatusSnapshot | Reset

primrec monitor_run :: "monitor_op list \<Rightarrow> StatusMonitor \<Rightarrow> StatusMonitor" where
  "monitor_run [] m = m"
| "monitor_run (c # cs) m = monitor_run cs (case c of Update st \<Rightarrow> monitor_update st m | Reset \<Rightarrow> monitor_reset m)"

lemma monitor_run_append: "monitor_run (as @ bs) m = monitor_run bs (monitor_run as m)"
  by (induction as arbitrary: m) simp_all

lemma monitor_get_last:
  "monitor_get (monitor_run cs StatusMonitor_init) =
     (case rev cs of Update st # _ \<Rightarrow> (True, st) | _ \<Rightarrow> (False, StatusSnapshot_default))"
  by (cases cs rule: rev_cases)
    (auto simp: monitor_run_append monitor_get_def StatusMonitor_init_def monitor_update_def monitor_reset_def
      split: monitor_op.split)

end
