(* ===== verification/Control_Thread.thy ===== *)
theory Control_Thread
  imports Control_Safety
begin

text \<open>
  The control thread beside the other threads, as a step relation. The thread's own steps cut
  \<open>threadFunc\<close> at the points where it looks at what others may change: the test of
  \<open>stop_requested_\<close>, each \<open>pop\<close> of the command queue, and the sleep. Between them the web
  thread pushes commands and wakes the loop, and the main thread asks it to stop.
  \<open>T_Crashed\<close> is a step that ran into undefined behaviour.
\<close>

datatype thread_pc =
  T_Start | T_Top | T_Commands | T_Status | T_Sleep "64 word" | T_Exited | T_Crashed

type_synonym 'c thread = "thread_pc \<times> 'c ControlLoop"

inductive thread_step :: "'c IModbusClient \<Rightarrow> 'c thread \<Rightarrow> 'c thread \<Rightarrow> bool" for ops where
  initial: "thread_step ops (T_Start, s) (T_Top, publish_initial ops s)"
| leave: "stop_requested s \<Longrightarrow> thread_step ops (T_Top, s) (T_Exited, thread_exit ops s)"
| enter: "\<not> stop_requested s \<Longrightarrow> ensure_connected ops stops s = Some (True, s') \<Longrightarrow>
    thread_step ops (T_Top, s) (T_Commands, s')"
| give_up: "\<not> stop_requested s \<Longrightarrow> ensure_connected ops stops s = Some (False, s') \<Longrightarrow>
    thread_step ops (T_Top, s) (T_Top, s')"
| connect_crash: "\<not> stop_requested s \<Longrightarrow> ensure_connected ops stops s = None \<Longrightarrow>
    thread_step ops (T_Top, s) (T_Crashed, s)"
| no_queue: "cmd_queue s = None \<Longrightarrow> thread_step ops (T_Commands, s) (T_Status, s)"
| drained: "cmd_queue s = Some q \<Longrightarrow> CmdQueue_pop q = (None, q') \<Longrightarrow>
    thread_step ops (T_Commands, s) (T_Status, s\<lparr>cmd_queue := Some q'\<rparr>)"
| command: "cmd_queue s = Some q \<Longrightarrow> CmdQueue_pop q = (Some cmd, q') \<Longrightarrow>
    exec_command ops cmd (s\<lparr>cmd_queue := Some q'\<rparr>) = Some s' \<Longrightarrow>
    thread_step ops (T_Commands, s) (T_Commands, s')"
| command_crash: "cmd_queue s = Some q \<Longrightarrow> CmdQueue_pop q = (Some cmd, q') \<Longrightarrow>
    exec_command ops cmd (s\<lparr>cmd_queue := Some q'\<rparr>) = None \<Longrightarrow>
    thread_step ops (T_Commands, s) (T_Crashed, s)"
| control: "read_and_control ops s = Some s' \<Longrightarrow>
    thread_step ops (T_Status, s) (T_Sleep (kick_generation s'), s')"
| control_crash: "read_and_control ops s = None \<Longrightarrow> thread_step ops (T_Status, s) (T_Crashed, s)"
| wake: "thread_step ops (T_Sleep g, s) (T_Top, s)"

text \<open>What the other threads do to the object; \<open>ok_cmd\<close> are the commands the producer sends.\<close>

inductive other_step :: "(Command \<Rightarrow> bool) \<Rightarrow> 'c thread \<Rightarrow> 'c thread \<Rightarrow> bool" for ok_cmd where
  push: "ok_cmd cmd \<Longrightarrow> cmd_queue s = Some q \<Longrightarrow>
    other_step ok_cmd (pc, s) (pc, s\<lparr>cmd_queue := Some (snd (CmdQueue_push cmd q))\<rparr>)"
| kicked: "other_step ok_cmd (pc, s) (pc, kick s)"
| stopped: "other_step ok_cmd (pc, s) (pc, request_stop s)"

definition system_step :: "'c IModbusClient \<Rightarrow> (Command \<Rightarrow> bool) \<Rightarrow> 'c thread \<Rightarrow> 'c thread \<Rightarrow> bool" where
  "system_step ops ok_cmd x y \<longleftrightarrow> thread_step ops x y \<or> other_step ok_cmd x y"

definition system_reachable :: "'c IModbusClient \<Rightarrow> (Command \<Rightarrow> bool) \<Rightarrow> 'c thread \<Rightarrow> 'c thread \<Rightarrow> bool" where
  "system_reachable ops ok_cmd x y \<longleftrightarrow> (system_step ops ok_cmd)\<^sup>*\<^sup>* x y"

inductive_cases thread_stepE: "thread_step ops (pc, s) y"
inductive_cases other_stepE: "other_step ok_cmd (pc, s) y"

section \<open>The invariant of the running system\<close>

lemma queue_valid_init: "length storage = 16 \<Longrightarrow> queue_valid (CmdQueue_init storage)"
  by (simp add: queue_valid_def cq_inv_init)

lemma queue_valid_push: "queue_valid q \<Longrightarrow> cmd_valid cmd \<Longrightarrow> queue_valid (snd (CmdQueue_push cmd q))"
  using cq.push_ok [of q cmd] cq.push_full [of q cmd]
  by (cases "length (cq_list q) < 15") (auto simp: queue_valid_def simp del: cmd_valid.simps)

lemma queue_valid_pop:
  assumes "queue_valid q" "CmdQueue_pop q = (r, q')"
  shows "queue_valid q'" "r = Some cmd \<Longrightarrow> cmd_valid cmd"
    and "r = Some cmd \<Longrightarrow> length (cq_list q) = Suc (length (cq_list q'))"
proof -
  have "queue_valid q' \<and> (r = Some cmd \<longrightarrow> cmd_valid cmd \<and> length (cq_list q) = Suc (length (cq_list q')))"
    using assms(1) unfolding queue_valid_def
    by (elim conjE cq.pop_cases [of q]) (use assms in \<open>auto simp: queue_valid_def simp del: cmd_valid.simps\<close>)
  then show "queue_valid q'" "r = Some cmd \<Longrightarrow> cmd_valid cmd"
    and "r = Some cmd \<Longrightarrow> length (cq_list q) = Suc (length (cq_list q'))" by auto
qed

definition queues_valid :: "'c ControlLoop \<Rightarrow> bool" where
  "queues_valid s \<longleftrightarrow> (\<forall>q. cmd_queue s = Some q \<longrightarrow> queue_valid q)"

lemma queues_valid_frame: "queues_valid s \<Longrightarrow> frame s' = frame s \<Longrightarrow> queues_valid s'"
  by (simp add: queues_valid_def frame_def)

lemma request_stop_sel [simp]:
  "cmd_queue (request_stop s) = cmd_queue s" "modbus_client (request_stop s) = modbus_client s"
  "cmd_queue (kick s) = cmd_queue s" "stop_requested (kick s) = stop_requested s"
  by (simp_all add: request_stop_def kick_def)

context closing_guard
begin

definition thread_inv :: "'c thread \<Rightarrow> bool" where
  "thread_inv x \<longleftrightarrow> (case x of (pc, s) \<Rightarrow>
     pc \<noteq> T_Crashed \<and> queues_valid s \<and>
     (if pc = T_Exited then \<exists>c. modbus_client s = Some c \<and> good c else guarded s))"

lemma thread_step_inv:
  assumes "thread_step ops x y" "thread_inv x"
  shows "thread_inv y"
  using assms
proof (induction rule: thread_step.induct)
  case (initial s)
  then show ?case using publish_initial_keeps [of s] by (auto simp: thread_inv_def intro: queues_valid_frame)
next
  case (leave s)
  then show ?case using thread_exit_keeps [of s] by (simp add: thread_inv_def queues_valid_def thread_exit_def)
next
  case (enter s stops s')
  then show ?case using ensure_connected_keeps [of s stops] by (auto simp: thread_inv_def intro: queues_valid_frame)
next
  case (give_up s stops s')
  then show ?case using ensure_connected_keeps [of s stops] by (auto simp: thread_inv_def intro: queues_valid_frame)
next
  case (connect_crash s stops)
  then show ?case using ensure_connected_keeps [of s stops] by (auto simp: thread_inv_def)
next
  case (no_queue s)
  then show ?case by (simp add: thread_inv_def)
next
  case (drained s q q')
  then show ?case using queue_valid_pop(1) [of q] by (simp add: thread_inv_def queues_valid_def)
next
  case (command s q cmd q' s')
  then have "keeps (s\<lparr>cmd_queue := Some q'\<rparr>) (Some s')" "queue_valid q'"
    using exec_command_keeps [of "s\<lparr>cmd_queue := Some q'\<rparr>" cmd] queue_valid_pop [of q]
    by (auto simp: thread_inv_def queues_valid_def)
  then show ?case by (auto simp: thread_inv_def keeps_def queues_valid_def frame_def)
next
  case (command_crash s q cmd q')
  then show ?case using exec_command_keeps [of "s\<lparr>cmd_queue := Some q'\<rparr>" cmd] queue_valid_pop [of q]
    by (auto simp: thread_inv_def queues_valid_def keeps_def)
next
  case (control s s')
  then show ?case using read_and_control_keeps [of s] by (auto simp: thread_inv_def keeps_def intro: queues_valid_frame)
next
  case (control_crash s)
  then show ?case using read_and_control_keeps [of s] by (auto simp: thread_inv_def keeps_def)
next
  case (wake g s)
  then show ?case by (simp add: thread_inv_def)
qed

lemma other_step_inv:
  assumes "other_step cmd_valid x y" "thread_inv x"
  shows "thread_inv y"
  using assms
  by (induction rule: other_step.induct)
    (auto simp: thread_inv_def queues_valid_def queue_valid_push kick_def request_stop_def)

lemma system_inv:
  assumes "system_reachable ops cmd_valid x y" "thread_inv x"
  shows "thread_inv y"
  using assms unfolding system_reachable_def
  by (induction rule: rtranclp_induct) (auto simp: system_step_def dest: thread_step_inv other_step_inv)

end

section \<open>Stopping\<close>

text \<open>
  Once a stop is requested, the thread's own steps lead to its end: each one lowers this
  measure, whatever the other threads do short of pushing more commands.
\<close>

fun steps_left :: "'c thread \<Rightarrow> nat" where
  "steps_left (pc, s) =
     (case pc of
        T_Exited \<Rightarrow> 0 | T_Crashed \<Rightarrow> 0 | T_Top \<Rightarrow> 1 | T_Start \<Rightarrow> 2 | T_Sleep g \<Rightarrow> 2 | T_Status \<Rightarrow> 3
      | T_Commands \<Rightarrow> 4 + (case cmd_queue s of None \<Rightarrow> 0 | Some q \<Rightarrow> length (cq_list q)))"

context closing_guard
begin

lemma stopping_step:
  assumes "thread_step ops x y" "thread_inv x" "stop_requested (snd x)"
  shows "steps_left y < steps_left x \<and> (fst y \<noteq> T_Exited \<longrightarrow> stop_requested (snd y))"
  using assms
proof (induction rule: thread_step.induct)
  case (initial s)
  then show ?case using publish_initial_keeps [of s] by (simp add: thread_inv_def frame_def)
next
  case (command s q cmd q' s')
  then have k: "keeps (s\<lparr>cmd_queue := Some q'\<rparr>) (Some s')" "length (cq_list q) = Suc (length (cq_list q'))"
    using exec_command_keeps [of "s\<lparr>cmd_queue := Some q'\<rparr>" cmd] queue_valid_pop [of q]
    by (auto simp: thread_inv_def queues_valid_def)
  then show ?case using command.prems command.hyps by (auto simp: keeps_def frame_def)
next
  case (control s s')
  then show ?case using read_and_control_keeps [of s] by (auto simp: thread_inv_def keeps_def frame_def)
qed (simp_all add: thread_inv_def)

lemma stopping_progress:
  assumes "thread_inv x" "stop_requested (snd x)" "fst x \<noteq> T_Exited"
  shows "\<exists>y. thread_step ops x y"
proof -
  obtain pc s where x: "x = (pc, s)" by (cases x)
  have inv: "pc \<noteq> T_Crashed" "pc \<noteq> T_Exited" using assms x by (auto simp: thread_inv_def)
  show ?thesis
  proof (cases pc)
    case T_Commands
    show ?thesis
    proof (cases "cmd_queue s")
      case (Some q)
      obtain r q' where p: "CmdQueue_pop q = (r, q')" by (cases "CmdQueue_pop q")
      show ?thesis
        using Some p x T_Commands thread_step.intros(7-9)
        by (cases r; cases "exec_command ops (the r) (s\<lparr>cmd_queue := Some q'\<rparr>)") fastforce+
    qed (use x T_Commands thread_step.no_queue in blast)
  next
    case T_Status
    then show ?thesis using x thread_step.control thread_step.control_crash
      by (cases "read_and_control ops s") blast+
  next
    case T_Start
    then show ?thesis using x thread_step.initial by blast
  next
    case T_Top
    then show ?thesis using x assms(2) thread_step.leave [of s] by auto
  next
    case (T_Sleep g)
    then show ?thesis using x thread_step.wake by blast
  qed (use inv in auto)
qed

lemma stopping_run:
  assumes "(thread_step ops ^^ n) x y" "thread_inv x" "stop_requested (snd x)"
  shows "thread_inv y \<and> n + steps_left y \<le> steps_left x \<and> (fst y \<noteq> T_Exited \<longrightarrow> stop_requested (snd y))"
  using assms(1)
proof (induction n arbitrary: y)
  case 0
  then show ?case using assms(2,3) by simp
next
  case (Suc n)
  then obtain z where z: "(thread_step ops ^^ n) x z" "thread_step ops z y" by auto
  then have "fst z \<noteq> T_Exited" by (auto elim: thread_step.cases)
  with Suc.IH [OF z(1)] have "thread_inv z" "stop_requested (snd z)" "n + steps_left z \<le> steps_left x" by auto
  then show ?case using thread_step_inv [OF z(2)] stopping_step [OF z(2)] by auto
qed

end


section \<open>The booted system\<close>

text \<open>The object as \<open>main\<close> sets it up and starts it.\<close>

definition boot ::
    "int \<Rightarrow> string \<Rightarrow> fp \<Rightarrow> fp \<Rightarrow> 'c \<Rightarrow> Command list \<Rightarrow> StatusSnapshot list \<Rightarrow> 'c ControlLoop" where
  "boot init_working_mode init_priority init_dhw_target init_heating_target client cmds stats =
     snd (snd (start (Some client) (Some (CmdQueue_init cmds)) (Some (StatusQueue_init stats))
       (setSettingsCallback
         (setInitialSettings init_working_mode init_priority init_dhw_target init_heating_target
           ControlLoop_init))))"

lemma boot_inv: "length cmds = 16 \<Longrightarrow> lg.thread_inv (T_Start, boot m p d h (c, []) cmds stats)"
  by (simp add: lg.thread_inv_def lg.guarded_def queues_valid_def queue_valid_init boot_def start_def
      setSettingsCallback_def setInitialSettings_def ControlLoop_init_def target_ok_Fin)

text \<open>
  From boot, however the control thread, the web thread and the main thread interleave and
  whatever the device answers, as long as the producer sends commands with values in range, the
  control thread never runs into undefined behaviour, and every register write it has asked for
  is safe: the mode register only ever gets off or heating, the setpoints get values in the
  device's range or values the device reported itself, priority and occupancy only legal ones.
\<close>

theorem control_thread_safe:
  assumes "length cmds = 16"
    and "system_reachable (logged ops) cmd_valid (T_Start, boot m p d h (c, []) cmds stats) (pc, s)"
  shows "pc \<noteq> T_Crashed \<and> (\<exists>c' l. modbus_client s = Some (c', l) \<and> writes_ok l)"
  using lg.system_inv [OF assms(2) boot_inv [OF assms(1)]]
  by (auto simp: lg.thread_inv_def lg.guarded_def split: if_splits)

text \<open>
  C13. Stopping ends the control thread: when \<open>stop\<close> is called in any reachable state of the running
  loop, with up to 15 commands waiting, no run of the thread from there is longer than 19 steps, and
  every run that has not reached the end of the thread can go on; so each one ends there.
\<close>

theorem control_thread_stops:
  assumes "length cmds = 16"
    and "system_reachable (logged ops) cmd_valid (T_Start, boot m p d h (c, []) cmds stats) (pc, s)"
    and "running s" "(thread_step (logged ops) ^^ n) (pc, request_stop s) y"
  shows "n \<le> 19 \<and> (fst y = T_Exited \<or> (\<exists>z. thread_step (logged ops) y z))"
proof -
  have "system_step (logged ops) cmd_valid (pc, s) (pc, request_stop s)"
    by (simp add: system_step_def other_step.stopped)
  with assms(2) have "system_reachable (logged ops) cmd_valid (T_Start, boot m p d h (c, []) cmds stats) (pc, request_stop s)"
    unfolding system_reachable_def by (rule rtranclp.rtrancl_into_rtrancl)
  note inv = lg.system_inv [OF this boot_inv [OF assms(1)]]
  have "length (cq_list q) \<le> 15" if "cmd_queue (request_stop s) = Some q" for q
    using inv that cq.contents_cap [of q] by (auto simp: lg.thread_inv_def queues_valid_def queue_valid_def)
  then have "steps_left (pc, request_stop s) \<le> 19" by (auto split: thread_pc.split option.split)
  moreover have "stop_requested (request_stop s)" using assms(3) by (simp add: request_stop_def kick_def)
  ultimately show ?thesis
    using lg.stopping_run [OF assms(4) inv] lg.stopping_progress [of y] by auto
qed

abbreviation noop :: Command where
  "noop \<equiv> \<lparr>cmd_type = CMD_OTHER 0, float_val = Fin 0, int_val = 0\<rparr>"

abbreviation booted :: "((u16 \<Rightarrow> i16) \<times> client_event list) ControlLoop" where
  "booted \<equiv> boot 3 ''dhw'' (Fin 45) (Fin 40) (\<lambda>a. 450, []) (replicate 16 noop)
     (replicate 32 StatusSnapshot_default)"

theorem control_thread_safe_witness:
  "T_Top \<noteq> T_Crashed \<and>
   (\<exists>c' l. modbus_client (publish_initial (logged bank_ops) booted) = Some (c', l) \<and> writes_ok l)"
proof (rule control_thread_safe)
  show "length (replicate 16 noop) = 16" by simp
  have "system_step (logged bank_ops) cmd_valid (T_Start, booted) (T_Top, publish_initial (logged bank_ops) booted)"
    by (simp add: system_step_def thread_step.initial)
  then show "system_reachable (logged bank_ops) cmd_valid (T_Start, booted)
      (T_Top, publish_initial (logged bank_ops) booted)"
    unfolding system_reachable_def by (rule r_into_rtranclp)
qed

theorem control_thread_stops_witness:
  "Suc 0 \<le> 19 \<and>
   (fst (T_Top, publish_initial (logged bank_ops) (request_stop booted)) = T_Exited \<or>
    (\<exists>z. thread_step (logged bank_ops) (T_Top, publish_initial (logged bank_ops) (request_stop booted)) z))"
proof (rule control_thread_stops)
  show "length (replicate 16 noop) = 16" by simp
  show "system_reachable (logged bank_ops) cmd_valid (T_Start, booted) (T_Start, booted)"
    by (simp add: system_reachable_def)
  show "running booted" by (simp add: boot_def start_def setSettingsCallback_def setInitialSettings_def ControlLoop_init_def)
  show "(thread_step (logged bank_ops) ^^ Suc 0) (T_Start, request_stop booted)
      (T_Top, publish_initial (logged bank_ops) (request_stop booted))"
    by (simp add: thread_step.initial relcompp.simps)
qed

text \<open>
  No command waits for the poll interval: when a sleeping loop has read the wake-up counter
  and the web thread then stores a command, or only calls \<open>kick\<close>, the predicate the sleep waits
  on holds, also when the 64-bit counter wraps around.
\<close>

theorem command_wakes_loop:
  assumes "cmd_queue s = Some q" "cq_inv q" "CmdQueue_push cmd q = (True, q')"
  shows "wakes g (s\<lparr>cmd_queue := Some q'\<rparr>) \<and> wakes (kick_generation s) (kick s)"
proof -
  have "\<not> CmdQueue_empty q'"
    using assms(2) by (rule cq.push_cases [of q cmd]) (use assms(3) in \<open>auto simp: CmdQueue_empty_iff\<close>)
  then show ?thesis by (simp add: wakes_def kick_def)
qed

theorem command_wakes_loop_witness:
  "wakes 0 (booted\<lparr>cmd_queue := Some (snd (CmdQueue_push noop (CmdQueue_init (replicate 16 noop))))\<rparr>) \<and>
   wakes (kick_generation booted) (kick booted)"
  by (rule command_wakes_loop [of _ "CmdQueue_init (replicate 16 noop)" noop])
    (simp add: boot_def start_def setSettingsCallback_def setInitialSettings_def ControlLoop_init_def,
      simp add: cq_inv_init, simp add: CmdQueue_push_def CmdQueue_init_def)

end
