(* ===== verification/Wakeup.thy ===== *)
theory Wakeup
  imports Control_Thread
begin

text \<open>
  How a command or a stop wakes the sleeping control thread: \<open>kick\<close> on one side, on the other the sleep at the end
  of \<open>threadFunc\<close>, which is \<open>ConditionVariable::wait_for\<close> with a predicate
  (\<open>include/utils/Platform.hpp\<close>, \<open>src/utils/Platform.cpp\<close>), with the mutex and the condition
  variable between them. The steps are cut at every operation on the mutex, the condition variable
  and the shared members; waiting releases the mutex and blocks in one step, as \<open>pthread_cond_timedwait\<close> does.
\<close>

section \<open>Sleeper and waker\<close>

text \<open>
  The control thread is awake, or in the sleep: about to test the predicate, about to wait because it
  did not hold, blocked on the condition variable, or back from it, after a notification or because
  the time is over, and about to take the mutex again. \<open>g\<close> is the observed wake-up counter.
\<close>

datatype sleeper =
  S_Awake | S_Test "64 word" | S_Wait "64 word" | S_Blocked "64 word" | S_Return "64 word" bool

datatype waker = W_Idle | W_Lock | W_Bump | W_Notify | W_Unlock

datatype mutex_owner = Free | By_Sleeper | By_Waker

record 'c wake_state =
  sleeper :: sleeper
  waker :: waker
  kick_mutex :: mutex_owner
  object :: "'c ControlLoop"

inductive sleeper_step :: "'c wake_state \<Rightarrow> 'c wake_state \<Rightarrow> bool" where
  work: "sleeper x = S_Awake \<Longrightarrow> stop_requested s' = stop_requested (object x) \<Longrightarrow>
    kick_generation s' = kick_generation (object x) \<Longrightarrow> sleeper_step x (x\<lparr>object := s'\<rparr>)"
| sleep: "sleeper x = S_Awake \<Longrightarrow> kick_mutex x = Free \<Longrightarrow>
    sleeper_step x (x\<lparr>sleeper := S_Test (kick_generation (object x)), kick_mutex := By_Sleeper\<rparr>)"
| ready: "sleeper x = S_Test g \<Longrightarrow> wakes g (object x) \<Longrightarrow>
    sleeper_step x (x\<lparr>sleeper := S_Awake, kick_mutex := Free\<rparr>)"
| not_ready: "sleeper x = S_Test g \<Longrightarrow> \<not> wakes g (object x) \<Longrightarrow> sleeper_step x (x\<lparr>sleeper := S_Wait g\<rparr>)"
| block: "sleeper x = S_Wait g \<Longrightarrow> sleeper_step x (x\<lparr>sleeper := S_Blocked g, kick_mutex := Free\<rparr>)"
| return: "sleeper x = S_Blocked g \<Longrightarrow> sleeper_step x (x\<lparr>sleeper := S_Return g timed_out\<rparr>)"
| retest: "sleeper x = S_Return g False \<Longrightarrow> kick_mutex x = Free \<Longrightarrow>
    sleeper_step x (x\<lparr>sleeper := S_Test g, kick_mutex := By_Sleeper\<rparr>)"
| expire: "sleeper x = S_Return g True \<Longrightarrow> kick_mutex x = Free \<Longrightarrow> sleeper_step x (x\<lparr>sleeper := S_Awake\<rparr>)"

inductive waker_step :: "'c wake_state \<Rightarrow> 'c wake_state \<Rightarrow> bool" where
  stored: "waker x = W_Idle \<Longrightarrow> cmd_queue (object x) = Some q \<Longrightarrow> CmdQueue_push cmd q = (True, q') \<Longrightarrow>
    waker_step x (x\<lparr>waker := W_Lock, object := (object x)\<lparr>cmd_queue := Some q'\<rparr>\<rparr>)"
| refused: "waker x = W_Idle \<Longrightarrow> cmd_queue (object x) = Some q \<Longrightarrow> CmdQueue_push cmd q = (False, q') \<Longrightarrow>
    waker_step x (x\<lparr>object := (object x)\<lparr>cmd_queue := Some q'\<rparr>\<rparr>)"
| stop: "waker x = W_Idle \<Longrightarrow> running (object x) \<Longrightarrow>
    waker_step x (x\<lparr>waker := W_Lock, object := (object x)\<lparr>stop_requested := True, running := False\<rparr>\<rparr>)"
| lock: "waker x = W_Lock \<Longrightarrow> kick_mutex x = Free \<Longrightarrow> waker_step x (x\<lparr>waker := W_Bump, kick_mutex := By_Waker\<rparr>)"
| bump: "waker x = W_Bump \<Longrightarrow> waker_step x (x\<lparr>waker := W_Notify, object := kick (object x)\<rparr>)"
| notify: "waker x = W_Notify \<Longrightarrow>
    waker_step x (x\<lparr>waker := W_Unlock, sleeper := (case sleeper x of S_Blocked g \<Rightarrow> S_Return g False | p \<Rightarrow> p)\<rparr>)"
| unlock: "waker x = W_Unlock \<Longrightarrow> waker_step x (x\<lparr>waker := W_Idle, kick_mutex := Free\<rparr>)"

definition wake_step :: "'c wake_state \<Rightarrow> 'c wake_state \<Rightarrow> bool" where
  "wake_step x y \<longleftrightarrow> sleeper_step x y \<or> waker_step x y"

definition wake_init :: "'c ControlLoop \<Rightarrow> 'c wake_state" where
  "wake_init s = \<lparr>sleeper = S_Awake, waker = W_Idle, kick_mutex = Free, object = s\<rparr>"

section \<open>No wake-up is lost\<close>

text \<open>
  The mutex is held where the code holds it, and a control thread that is about to block, or blocked,
  while its predicate holds has a waker that is still going to notify it.
\<close>

fun sleeper_locks :: "sleeper \<Rightarrow> bool" where
  "sleeper_locks (S_Test g) = True"
| "sleeper_locks (S_Wait g) = True"
| "sleeper_locks _ = False"

definition wake_inv :: "'c wake_state \<Rightarrow> bool" where
  "wake_inv x \<longleftrightarrow>
     (kick_mutex x = By_Sleeper \<longleftrightarrow> sleeper_locks (sleeper x)) \<and>
     (kick_mutex x = By_Waker \<longleftrightarrow> waker x \<in> {W_Bump, W_Notify, W_Unlock}) \<and>
     (\<forall>g. sleeper x = S_Wait g \<longrightarrow> waker x = W_Idle \<longrightarrow> \<not> wakes g (object x)) \<and>
     (\<forall>g. sleeper x = S_Blocked g \<longrightarrow> waker x \<in> {W_Idle, W_Unlock} \<longrightarrow> \<not> wakes g (object x))"

lemma wake_inv_init: "wake_inv (wake_init s)"
  by (simp add: wake_inv_def wake_init_def)

lemma push_refused: "CmdQueue_push cmd q = (False, q') \<Longrightarrow> q' = q"
  by (auto simp: CmdQueue_push_def Let_def split: if_splits)

lemma sleeper_step_inv: "sleeper_step x y \<Longrightarrow> wake_inv x \<Longrightarrow> wake_inv y"
  by (induction rule: sleeper_step.induct) (auto simp: wake_inv_def)

lemma waker_step_inv: "waker_step x y \<Longrightarrow> wake_inv x \<Longrightarrow> wake_inv y"
  by (induction rule: waker_step.induct)
    (auto simp: wake_inv_def wakes_def dest: push_refused split: sleeper.splits)

lemma wake_reachable_inv: "wake_step\<^sup>*\<^sup>* (wake_init s) x \<Longrightarrow> wake_inv x"
  by (induction rule: rtranclp_induct)
    (auto simp: wake_step_def intro: wake_inv_init sleeper_step_inv waker_step_inv)

text \<open>The remaining steps of a waker on its way to the notification.\<close>

lemma notify_run:
  assumes "sleeper x = S_Blocked g" "waker x = W_Notify"
  shows "\<exists>n \<le> 1. \<exists>y. (waker_step ^^ n) x y \<and> sleeper y = S_Return g False"
  using waker_step.notify [OF assms(2)] assms(1)
  by (intro exI [of _ 1] conjI exI [of _ "x\<lparr>waker := W_Unlock, sleeper := S_Return g False\<rparr>"])
    (simp_all add: relcompp.simps)

lemma step_run:
  assumes "waker_step x x'" "\<exists>n \<le> k. \<exists>y. (waker_step ^^ n) x' y \<and> P y"
  shows "\<exists>n \<le> Suc k. \<exists>y. (waker_step ^^ n) x y \<and> P y"
  using assms relpowp_Suc_I2 by (metis Suc_le_mono)

lemma bump_run:
  assumes "sleeper x = S_Blocked g" "waker x = W_Bump"
  shows "\<exists>n \<le> 2. \<exists>y. (waker_step ^^ n) x y \<and> sleeper y = S_Return g False"
  using step_run [OF waker_step.bump [OF assms(2)] notify_run [of _ g]] assms(1) by (simp add: numeral_2_eq_2)

lemma lock_run:
  assumes "sleeper x = S_Blocked g" "waker x = W_Lock" "kick_mutex x = Free"
  shows "\<exists>n \<le> 3. \<exists>y. (waker_step ^^ n) x y \<and> sleeper y = S_Return g False"
  using step_run [OF waker_step.lock [OF assms(2,3)] bump_run [of _ g]] assms(1) by (simp add: numeral_3_eq_3)

text \<open>
  C14. No wake-up is lost: in every interleaving of the sleeping control thread with a thread that
  stores commands and calls \<open>kick\<close>, or stops the loop, whenever the control thread is blocked although
  the predicate of its sleep holds, the other thread is between the change it made and its
  notification, nothing keeps it from going on, and at most three of its own steps later the
  control thread has been notified.
\<close>

theorem no_lost_wakeup:
  assumes "wake_step\<^sup>*\<^sup>* (wake_init s) x" "sleeper x = S_Blocked g" "wakes g (object x)"
  shows "\<exists>n \<le> 3. \<exists>y. (waker_step ^^ n) x y \<and> sleeper y = S_Return g False"
proof -
  have inv: "wake_inv x" by (rule wake_reachable_inv [OF assms(1)])
  show ?thesis
  proof (cases "waker x")
    case W_Lock
    with inv assms(2) have "kick_mutex x = Free"
      by (cases "kick_mutex x") (auto simp: wake_inv_def)
    then show ?thesis using lock_run [OF assms(2) W_Lock] by simp
  next
    case W_Bump
    then show ?thesis using bump_run [OF assms(2)] le_trans [of _ 2 3] by fastforce
  next
    case W_Notify
    then show ?thesis using notify_run [OF assms(2)] le_trans [of _ 1 3] by fastforce
  qed (use inv assms(2,3) in \<open>auto simp: wake_inv_def\<close>)
qed

lemma booted_sel [simp]:
  "running booted" "\<not> stop_requested booted" "kick_generation booted = 0"
  "cmd_queue booted = Some (CmdQueue_init (replicate 16 noop))"
  by (simp_all add: boot_def start_def setSettingsCallback_def setInitialSettings_def ControlLoop_init_def)

theorem no_lost_wakeup_witness:
  "\<exists>n \<le> 3. \<exists>y. (waker_step ^^ n) \<lparr>sleeper = S_Blocked 0, waker = W_Lock, kick_mutex = Free,
       object = booted\<lparr>stop_requested := True, running := False\<rparr>\<rparr> y \<and> sleeper y = S_Return 0 False"
proof (rule no_lost_wakeup)
  let ?x = "\<lambda>p m. \<lparr>sleeper = p, waker = W_Idle, kick_mutex = m, object = booted\<rparr>"
  have "\<not> wakes 0 booted" by (simp add: wakes_def CmdQueue_empty_def CmdQueue_init_def)
  then have "wake_step (wake_init booted) (?x (S_Test 0) By_Sleeper)" "wake_step (?x (S_Test 0) By_Sleeper) (?x (S_Wait 0) By_Sleeper)"
    "wake_step (?x (S_Wait 0) By_Sleeper) (?x (S_Blocked 0) Free)"
    using sleeper_step.sleep [of "wake_init booted"] sleeper_step.not_ready [of "?x (S_Test 0) By_Sleeper" 0]
      sleeper_step.block [of "?x (S_Wait 0) By_Sleeper" 0] by (simp_all add: wake_step_def wake_init_def)
  moreover have "wake_step (?x (S_Blocked 0) Free) \<lparr>sleeper = S_Blocked 0, waker = W_Lock, kick_mutex = Free,
       object = booted\<lparr>stop_requested := True, running := False\<rparr>\<rparr>"
    using waker_step.stop [of "?x (S_Blocked 0) Free"] by (simp add: wake_step_def)
  ultimately show "wake_step\<^sup>*\<^sup>* (wake_init booted) \<lparr>sleeper = S_Blocked 0, waker = W_Lock, kick_mutex = Free,
       object = booted\<lparr>stop_requested := True, running := False\<rparr>\<rparr>"
    by (meson rtranclp.rtrancl_refl rtranclp.rtrancl_into_rtrancl)
qed (simp_all add: wakes_def)

end
