(* ===== verification/Spsc_Queue.thy ===== *)
theory Spsc_Queue
  imports Cmd_Queue Status_Queue
begin

text \<open>
  The other single-producer single-consumer rings of the sources: the template \<open>SpscQueue<T, 16>\<close> of
  \<open>src/utils/SpscQueue.cpp\<close>, which masks its indices, and the two queues of the C header
  \<open>src/spsc_queue.h\<close>, a command queue where the producer owns \<open>head\<close> and a status queue with the
  counters of \<open>StatusQueue\<close>. The first two keep the contract of a bounded queue and cannot be told
  apart from the command queue of the control loop.
\<close>

section \<open>The template\<close>

record 'a SpscQueue =
  tq_items :: "'a list"
  tq_head :: "64 word"
  tq_tail :: "64 word"
  tq_mask :: "64 word"

definition SpscQueue_init :: "'a list \<Rightarrow> 'a SpscQueue" where
  "SpscQueue_init storage = \<lparr>tq_items = storage, tq_head = 0, tq_tail = 0, tq_mask = 16 - 1\<rparr>"

definition SpscQueue_push :: "'a \<Rightarrow> 'a SpscQueue \<Rightarrow> bool \<times> 'a SpscQueue" where
  "SpscQueue_push item q =
     (let current_tail = tq_tail q;
          next_tail = (current_tail + 1) AND tq_mask q
      in if next_tail = tq_head q then (False, q)
         else (True, q\<lparr>tq_items := (tq_items q)[unat current_tail := item], tq_tail := next_tail\<rparr>))"

definition SpscQueue_pop :: "'a SpscQueue \<Rightarrow> 'a option \<times> 'a SpscQueue" where
  "SpscQueue_pop q =
     (let current_head = tq_head q
      in if current_head = tq_tail q then (None, q)
         else (Some (tq_items q ! unat current_head), q\<lparr>tq_head := (current_head + 1) AND tq_mask q\<rparr>))"

definition SpscQueue_empty :: "'a SpscQueue \<Rightarrow> bool" where
  "SpscQueue_empty q \<longleftrightarrow> tq_head q = tq_tail q"

definition SpscQueue_full :: "'a SpscQueue \<Rightarrow> bool" where
  "SpscQueue_full q \<longleftrightarrow> (tq_tail q + 1) AND tq_mask q = tq_head q"

definition SpscQueue_clear :: "'a SpscQueue \<Rightarrow> 'a SpscQueue" where
  "SpscQueue_clear q = q\<lparr>tq_head := 0, tq_tail := 0\<rparr>"

definition tq_inv :: "'a SpscQueue \<Rightarrow> bool" where
  "tq_inv q \<longleftrightarrow> length (tq_items q) = 16 \<and> unat (tq_head q) < 16 \<and> unat (tq_tail q) < 16 \<and> tq_mask q = 15"

definition tq_list :: "'a SpscQueue \<Rightarrow> 'a list" where
  "tq_list q = ring_list 16 (tq_items q) (unat (tq_head q)) (unat (tq_tail q))"

lemma unat_mask_index:
  assumes "unat (i :: 64 word) < 16"
  shows "unat ((i + 1) AND 15) = next_idx 16 (unat i)"
proof -
  have m: "(15 :: 64 word) = mask 4" by (simp add: mask_eq_exp_minus_1)
  have "unat ((i + 1) AND 15) = unat (i + 1) mod 16"
    unfolding m by (simp flip: take_bit_eq_mask add: unsigned_take_bit_eq take_bit_nat_def)
  moreover have "unat (i + 1) = unat i + 1"
    using assms by (intro unat_plus_simple [THEN iffD1, THEN trans]) (auto simp: unat_arith_simps)
  ultimately show ?thesis by (simp add: next_idx_def)
qed

lemma SpscQueue_full_iff:
  assumes "tq_inv q"
  shows "SpscQueue_full q \<longleftrightarrow> length (tq_list q) = 15"
proof -
  have m: "tq_mask q = 15" using assms by (simp add: tq_inv_def)
  have "SpscQueue_full q \<longleftrightarrow> unat ((tq_tail q + 1) AND 15) = unat (tq_head q)"
    unfolding SpscQueue_full_def m by (rule word_unat_eq_iff)
  with assms ring_full_iff [of "unat (tq_head q)" 16 "unat (tq_tail q)"] show ?thesis
    by (simp add: unat_mask_index tq_inv_def tq_list_def)
qed

lemma SpscQueue_empty_iff: "tq_inv q \<Longrightarrow> SpscQueue_empty q \<longleftrightarrow> tq_list q = []"
  using ring_len_0 [of "unat (tq_head q)" 16 "unat (tq_tail q)"]
  by (simp add: SpscQueue_empty_def tq_inv_def tq_list_def word_unat_eq_iff flip: length_0_conv)

lemma SpscQueue_clear_empty: "tq_inv q \<Longrightarrow> tq_inv (SpscQueue_clear q) \<and> tq_list (SpscQueue_clear q) = []"
  by (simp add: tq_inv_def tq_list_def SpscQueue_clear_def)

lemma SpscQueue_push_room:
  assumes "tq_inv q" "length (tq_list q) \<noteq> 15"
  shows "\<exists>q'. SpscQueue_push x q = (True, q') \<and> tq_list q' = tq_list q @ [x] \<and> tq_inv q'"
proof -
  have room: "(tq_tail q + 1) AND 15 \<noteq> tq_head q"
    using assms SpscQueue_full_iff [of q] by (simp add: SpscQueue_full_def tq_inv_def)
  have t: "unat ((tq_tail q + 1) AND 15) = next_idx 16 (unat (tq_tail q))"
    using assms(1) by (simp add: tq_inv_def unat_mask_index)
  with room have "next_idx 16 (unat (tq_tail q)) \<noteq> unat (tq_head q)" by (simp add: word_unat_eq_iff)
  with assms(1) room t show ?thesis
    by (auto simp: SpscQueue_push_def Let_def tq_inv_def tq_list_def ring_list_push next_idx_less)
qed

lemma SpscQueue_pop_some:
  assumes "tq_inv q" "tq_list q = x # xs"
  shows "\<exists>q'. SpscQueue_pop q = (Some x, q') \<and> tq_list q' = xs \<and> tq_inv q'"
proof -
  have ne: "tq_head q \<noteq> tq_tail q" using assms SpscQueue_empty_iff [of q] by (simp add: SpscQueue_empty_def)
  then have "tq_list q = tq_items q ! unat (tq_head q) #
      ring_list 16 (tq_items q) (next_idx 16 (unat (tq_head q))) (unat (tq_tail q))"
    using assms(1) by (simp add: tq_list_def tq_inv_def ring_list_pop word_unat_eq_iff)
  with assms ne show ?thesis
    by (auto simp: SpscQueue_pop_def Let_def tq_inv_def tq_list_def unat_mask_index next_idx_less)
qed

interpretation tq: bounded_fifo SpscQueue_push SpscQueue_pop tq_list tq_inv 15
proof unfold_locales
  fix q :: "'a SpscQueue" and x :: 'a and xs
  assume inv: "tq_inv q"
  have bound: "length (tq_list q) < 16"
    using inv ring_len_bound [of "unat (tq_head q)" 16 "unat (tq_tail q)"] by (simp add: tq_list_def tq_inv_def)
  then show "length (tq_list q) \<le> 15" by simp
  show "\<exists>q'. SpscQueue_push x q = (True, q') \<and> tq_list q' = tq_list q @ [x] \<and> tq_inv q'" if "length (tq_list q) < 15"
    using SpscQueue_push_room [OF inv] that by simp
  show "SpscQueue_push x q = (False, q)" if "15 \<le> length (tq_list q)"
    using SpscQueue_full_iff [OF inv] that bound by (simp add: SpscQueue_push_def SpscQueue_full_def)
  show "SpscQueue_pop q = (None, q)" if "tq_list q = []"
    using SpscQueue_empty_iff [OF inv] that by (simp add: SpscQueue_pop_def SpscQueue_empty_def)
  show "\<exists>q'. SpscQueue_pop q = (Some x, q') \<and> tq_list q' = xs \<and> tq_inv q'" if "tq_list q = x # xs"
    using SpscQueue_pop_some [OF inv that] .
qed

section \<open>The C queue\<close>

text \<open>Here the producer advances \<open>head\<close> and the consumer \<open>tail\<close>: it is the command queue with the two names exchanged.\<close>

record 'a spsc_cmd_queue =
  scq_buf :: "'a list"
  scq_head :: u32
  scq_tail :: u32

definition spsc_push_cmd :: "'a \<Rightarrow> 'a spsc_cmd_queue \<Rightarrow> bool \<times> 'a spsc_cmd_queue" where
  "spsc_push_cmd item q =
     (let next_head = (scq_head q + 1) mod 16
      in if next_head = scq_tail q then (False, q)
         else (True, q\<lparr>scq_buf := (scq_buf q)[unat (scq_head q) := item], scq_head := next_head\<rparr>))"

definition spsc_pop_cmd :: "'a spsc_cmd_queue \<Rightarrow> 'a option \<times> 'a spsc_cmd_queue" where
  "spsc_pop_cmd q =
     (if scq_tail q = scq_head q then (None, q)
      else (Some (scq_buf q ! unat (scq_tail q)), q\<lparr>scq_tail := (scq_tail q + 1) mod 16\<rparr>))"

definition as_CmdQueue :: "'a spsc_cmd_queue \<Rightarrow> 'a CmdQueue" where
  "as_CmdQueue q = \<lparr>cq_buf = scq_buf q, cq_head = scq_tail q, cq_tail = scq_head q\<rparr>"

lemma spsc_push_cmd_eq: "map_prod id as_CmdQueue (spsc_push_cmd x q) = CmdQueue_push x (as_CmdQueue q)"
  by (simp add: spsc_push_cmd_def CmdQueue_push_def as_CmdQueue_def Let_def)

lemma spsc_pop_cmd_eq: "map_prod id as_CmdQueue (spsc_pop_cmd q) = CmdQueue_pop (as_CmdQueue q)"
  by (simp add: spsc_pop_cmd_def CmdQueue_pop_def as_CmdQueue_def Let_def)

lemma as_CmdQueue_inj: "as_CmdQueue q = as_CmdQueue q' \<longleftrightarrow> q = q'"
  by (cases q; cases q') (auto simp: as_CmdQueue_def)

lemma spsc_push_cmd_iff: "spsc_push_cmd x q = (b, q') \<longleftrightarrow> CmdQueue_push x (as_CmdQueue q) = (b, as_CmdQueue q')"
  using spsc_push_cmd_eq [of x q] by (cases "spsc_push_cmd x q") (auto simp: as_CmdQueue_inj)

lemma spsc_pop_cmd_iff: "spsc_pop_cmd q = (r, q') \<longleftrightarrow> CmdQueue_pop (as_CmdQueue q) = (r, as_CmdQueue q')"
  using spsc_pop_cmd_eq [of q] by (cases "spsc_pop_cmd q") (auto simp: as_CmdQueue_inj)

lemma as_CmdQueue_surj: "\<exists>q. as_CmdQueue q = p"
  by (rule exI [of _ "\<lparr>scq_buf = cq_buf p, scq_head = cq_tail p, scq_tail = cq_head p\<rparr>"]) (simp add: as_CmdQueue_def)

interpretation scq: bounded_fifo spsc_push_cmd spsc_pop_cmd "\<lambda>q. cq_list (as_CmdQueue q)" "\<lambda>q. cq_inv (as_CmdQueue q)" 15
proof unfold_locales
  fix q :: "'a spsc_cmd_queue" and x :: 'a and xs
  assume inv: "cq_inv (as_CmdQueue q)"
  show "length (cq_list (as_CmdQueue q)) \<le> 15" by (rule cq.contents_cap [OF inv])
  show "\<exists>q'. spsc_push_cmd x q = (True, q') \<and> cq_list (as_CmdQueue q') = cq_list (as_CmdQueue q) @ [x] \<and> cq_inv (as_CmdQueue q')"
    if "length (cq_list (as_CmdQueue q)) < 15"
    using cq.push_ok [OF inv that, of x] as_CmdQueue_surj unfolding spsc_push_cmd_iff by metis
  show "spsc_push_cmd x q = (False, q)" if "15 \<le> length (cq_list (as_CmdQueue q))"
    using cq.push_full [OF inv that] by (simp add: spsc_push_cmd_iff)
  show "spsc_pop_cmd q = (None, q)" if "cq_list (as_CmdQueue q) = []"
    using cq.pop_empty [OF inv that] by (simp add: spsc_pop_cmd_iff)
  show "\<exists>q'. spsc_pop_cmd q = (Some x, q') \<and> cq_list (as_CmdQueue q') = xs \<and> cq_inv (as_CmdQueue q')"
    if "cq_list (as_CmdQueue q) = x # xs"
    using cq.pop_some [OF inv that] as_CmdQueue_surj unfolding spsc_pop_cmd_iff by metis
qed

section \<open>The C status queue\<close>

record 'a spsc_status_queue =
  ssq_buf :: "'a list"
  ssq_head :: u32
  ssq_tail :: u32
  ssq_write_count :: u32

definition spsc_push_status :: "'a \<Rightarrow> 'a spsc_status_queue \<Rightarrow> 'a spsc_status_queue" where
  "spsc_push_status item q =
     (let write_count = ssq_write_count q;
          q = q\<lparr>ssq_write_count := write_count + 1\<rparr>;
          buf_idx = write_count mod 32;
          q = q\<lparr>ssq_buf := (ssq_buf q)[unat buf_idx := item]\<rparr>;
          q = q\<lparr>ssq_tail := write_count + 1\<rparr>;
          current_head = ssq_head q;
          current_tail = write_count + 1
      in if current_tail - current_head > 32 - 1
         then q\<lparr>ssq_head := current_tail - (32 - 1)\<rparr> else q)"

definition spsc_pop_status :: "'a spsc_status_queue \<Rightarrow> 'a option \<times> 'a spsc_status_queue" where
  "spsc_pop_status q =
     (let current_head = ssq_head q; current_tail = ssq_tail q
      in if current_head \<ge> current_tail then (None, q)
         else let buf_idx = current_head mod 32
              in (Some (ssq_buf q ! unat buf_idx), q\<lparr>ssq_head := current_head + 1\<rparr>))"

definition spsc_latest_status :: "'a spsc_status_queue \<Rightarrow> 'a option" where
  "spsc_latest_status q =
     (let current_tail = ssq_tail q; current_head = ssq_head q
      in if current_head \<ge> current_tail then None
         else let last_idx = current_tail - 1;
                  buf_idx = last_idx mod 32
              in Some (ssq_buf q ! unat buf_idx))"

definition as_StatusQueue :: "'a spsc_status_queue \<Rightarrow> 'a StatusQueue" where
  "as_StatusQueue q =
     \<lparr>sq_buf = ssq_buf q, sq_head = ssq_head q, sq_tail = ssq_tail q, sq_write_index = ssq_write_count q\<rparr>"

lemma spsc_push_status_eq: "StatusQueue_push x (as_StatusQueue q) = (True, as_StatusQueue (spsc_push_status x q))"
  by (simp add: StatusQueue_push_def spsc_push_status_def as_StatusQueue_def Let_def)

lemma spsc_pop_status_eq: "StatusQueue_pop (as_StatusQueue q) = map_prod id as_StatusQueue (spsc_pop_status q)"
  by (simp add: StatusQueue_pop_def spsc_pop_status_def as_StatusQueue_def Let_def)

lemma spsc_latest_status_eq: "StatusQueue_latest (as_StatusQueue q) = spsc_latest_status q"
  by (simp add: StatusQueue_latest_def spsc_latest_status_def as_StatusQueue_def Let_def)

section \<open>Property\<close>

text \<open>
  The three command rings cannot be told apart by their clients: whatever pushes and pops are
  called, in whatever order, new queues of the masked template, of the C header and of the control
  loop answer every call as the list of at most 15 items does, and the invariant of each is kept.
\<close>

theorem spsc_rings_interchangeable:
  assumes "length storage = 16" "length storage' = 16" "length storage'' = 16"
    and "q = run_ops SpscQueue_push SpscQueue_pop ops (SpscQueue_init storage)"
    and "q' = run_ops spsc_push_cmd spsc_pop_cmd ops \<lparr>scq_buf = storage', scq_head = 0, scq_tail = 0\<rparr>"
    and "q'' = run_ops CmdQueue_push CmdQueue_pop ops (CmdQueue_init storage'')"
  shows "fst q = fifo_run 15 ops [] \<and> fst q' = fifo_run 15 ops [] \<and> fst q'' = fifo_run 15 ops [] \<and>
    tq_inv (snd q) \<and> cq_inv (as_CmdQueue (snd q')) \<and> cq_inv (snd q'')"
proof -
  have "tq_inv (SpscQueue_init storage)" "tq_list (SpscQueue_init storage) = []"
    using assms(1) by (simp_all add: tq_inv_def tq_list_def SpscQueue_init_def)
  moreover have "as_CmdQueue \<lparr>scq_buf = storage', scq_head = 0, scq_tail = 0\<rparr> = CmdQueue_init storage'"
    by (simp add: as_CmdQueue_def CmdQueue_init_def)
  ultimately show ?thesis
    using tq.run_ops_fifo [of "SpscQueue_init storage" ops] cq.run_ops_fifo [of "CmdQueue_init storage''" ops]
      scq.run_ops_fifo [of "\<lparr>scq_buf = storage', scq_head = 0, scq_tail = 0\<rparr>" ops] assms
    by (simp add: cq_inv_init)
qed

theorem spsc_rings_interchangeable_witness:
  "fst (run_ops SpscQueue_push SpscQueue_pop [Pop, Push 1, Push 2, Pop] (SpscQueue_init (replicate 16 0)))
     = [Popped None, Pushed True, Pushed True, Popped (Some (1 :: nat))]"
  using spsc_rings_interchangeable [of "replicate 16 0" "replicate 16 0" "replicate 16 0" _ "[Pop, Push 1, Push (2 :: nat), Pop]"]
  by simp

end
