(* ===== verification/Status_Reader.thy ===== *)
theory Status_Reader
  imports Status_Queue
begin

text \<open>
  The status queue while one thread publishes and another one asks for the latest snapshot:
  \<open>StatusQueue::push\<close> of the control thread and \<open>StatusQueue::latest\<close> of the web thread
  (\<open>src/core/ControlLoop.cpp\<close>), access by access. A snapshot is the list of its members, which are
  copied one at a time, so a copy that overlaps a write of the same slot is torn.
\<close>

section \<open>The two threads\<close>

text \<open>
  The writer between its accesses: in the copy of \<open>item\<close> into slot \<open>write_idx\<close> with \<open>j\<close> members done,
  after the store of the tail, after the load of the head. The reader: after the load of the tail,
  in the copy with some members done, and at the end with the tail it saw and its result.
\<close>

datatype 'a writer =
    W_Done
  | W_Copy "'a list" u32 nat
  | W_Load u32
  | W_Store u32 u32

datatype 'a reader =
    R_Start
  | R_Load u32
  | R_Copy u32 "'a list"
  | R_Result u32 "'a list option"

record 'a status_threads =
  queue :: "'a list StatusQueue"
  writer :: "'a writer"
  reader :: "'a reader"
  published :: "'a list list"





text \<open>The number of pushes that have begun.\<close>

definition begun :: "'a status_threads \<Rightarrow> nat" where
  "begun x = unat (sq_write_index (queue x))"

section \<open>What holds between the accesses\<close>

definition slots_hold :: "nat \<Rightarrow> 'a list list \<Rightarrow> 'a list list \<Rightarrow> bool" where
  "slots_hold d buf ps \<longleftrightarrow> (\<forall>m < length ps. length ps \<le> m + d \<longrightarrow> buf ! (m mod 32) = ps ! m)"

definition writer_inv :: "nat \<Rightarrow> 'a status_threads \<Rightarrow> bool" where
  "writer_inv k x \<longleftrightarrow> (let n = length (published x); q = queue x in
     length (sq_buf q) = 32 \<and> (\<forall>s \<in> set (sq_buf q). length s = k) \<and> unat (sq_tail q) = n \<and>
     (case writer x of
        W_Done \<Rightarrow> begun x = n \<and> unat (sq_head q) = n - 31 \<and> slots_hold 32 (sq_buf q) (published x)
      | W_Copy item i j \<Rightarrow> unat i = n \<and> begun x = n + 1 \<and> unat (sq_head q) = n - 31 \<and> length item = k \<and> j \<le> k \<and>
          take j (sq_buf q ! (n mod 32)) = take j item \<and> slots_hold 31 (sq_buf q) (published x)
      | W_Load i \<Rightarrow> unat i + 1 = n \<and> begun x = n \<and> unat (sq_head q) = n - 1 - 31 \<and> slots_hold 32 (sq_buf q) (published x)
      | W_Store i h \<Rightarrow> unat i + 1 = n \<and> begun x = n \<and> h = sq_head q \<and> unat (sq_head q) = n - 1 - 31 \<and>
          slots_hold 32 (sq_buf q) (published x)))"











lemma writer_inv_reader [simp]: "writer_inv k (x\<lparr>reader := r\<rparr>) = writer_inv k x"
  by (simp add: writer_inv_def begun_def cong: writer.case_cong)







section \<open>The steps make up the operations\<close>



section \<open>Property\<close>



end
