(* ===== verification/Sim_Client.thy ===== *)
theory Sim_Client
  imports Control_Converge
begin

text \<open>
  \<open>SimulatedModbusClient\<close> of \<open>include/modbus/SimulatedModbusClient.hpp\<close> and
  \<open>src/modbus/SimulatedModbusClient.cpp\<close>: the device of the demo mode. The steady clock is
  part of the state: \<open>now_ns n\<close> is what its \<open>n\<close>-th reading gives, in nanoseconds. A
  conversion of a \<open>double\<close> to \<open>int16_t\<close> that does not fit is undefined in C++; it is taken to
  give some value, \<open>narrow\<close>, that depends on the platform, so what is proved holds for all of them.
\<close>

record SimulatedModbusClient =
  registers :: "u16 \<Rightarrow> i16 option"
  connected :: bool
  last_update :: int
  ambient_temp :: i16
  last_error :: string
  now_ns :: "nat \<Rightarrow> int"
  readings :: nat
  narrow :: "fp \<Rightarrow> i16"

definition initial_registers :: "u16 \<Rightarrow> i16 option" where
  "initial_registers = map_of
     [(REG_DEVICE_TYPE, 8), (REG_OUTDOOR_TEMP, 120), (REG_INDOOR_TEMP, 210),
      (REG_ENTERING_WATER_TEMP, 320), (REG_LEAVING_WATER_TEMP, 350),
      (REG_RUNNING_MODE, to_u16 MODE_SET_HEAT_DHW), (REG_RUNNING_STATUS, to_u16 MODE_STATUS_HEAT),
      (REG_DHW_TARGET, 460), (REG_HEATING_TARGET, 450), (REG_DHW_TANK_TEMP, 420),
      (REG_DHW_PRIORITY, 1), (REG_AC_CURRENT, 3), (REG_DC_CURRENT, 2), (REG_AC_VOLTAGE, 230),
      (REG_DC_VOLTAGE, 700)]"

definition SimulatedModbusClient_init :: "(nat \<Rightarrow> int) \<Rightarrow> (fp \<Rightarrow> i16) \<Rightarrow> SimulatedModbusClient" where
  "SimulatedModbusClient_init clock nrw =
     \<lparr>registers = initial_registers, connected = False, last_update = clock 0, ambient_temp = 200,
      last_error = ''No error'', now_ns = clock, readings = 1, narrow = nrw\<rparr>"

definition sim_connect :: "SimulatedModbusClient \<Rightarrow> bool \<times> SimulatedModbusClient" where
  "sim_connect c = (True, c\<lparr>connected := True, last_error := ''No error''\<rparr>)"

definition sim_disconnect :: "SimulatedModbusClient \<Rightarrow> SimulatedModbusClient" where
  "sim_disconnect c = c\<lparr>connected := False, last_error := ''Not connected''\<rparr>"

section \<open>The simulation\<close>

definition cast_i16 :: "SimulatedModbusClient \<Rightarrow> fp \<Rightarrow> i16" where
  "cast_i16 c x = (case fp_to_i16 x of Some v \<Rightarrow> v | None \<Rightarrow> narrow c x)"

text \<open>\<open>registers_[a]\<close> creates a missing entry with value 0.\<close>

definition index_reg :: "u16 \<Rightarrow> SimulatedModbusClient \<Rightarrow> i16 \<times> SimulatedModbusClient" where
  "index_reg a c =
     (case registers c a of
        Some v \<Rightarrow> (v, c)
      | None \<Rightarrow> (0, c\<lparr>registers := (registers c)(a \<mapsto> 0)\<rparr>))"

definition store_reg :: "u16 \<Rightarrow> i16 \<Rightarrow> SimulatedModbusClient \<Rightarrow> SimulatedModbusClient" where
  "store_reg a v c = c\<lparr>registers := (registers c)(a \<mapsto> v)\<rparr>"

text \<open>Movement of a temperature by \<open>d\<close> towards \<open>amb\<close>, not past it; the sums are \<open>int\<close> sums.\<close>

definition drift_to :: "i16 \<Rightarrow> int \<Rightarrow> i16 \<Rightarrow> i16" where
  "drift_to amb d t =
     (if sint t > sint amb
      then (if sint t - d < sint amb then amb else word_of_int (sint t - d))
      else (if sint t + d > sint amb then amb else word_of_int (sint t + d)))"

text \<open>\<open>static_cast<int16_t>(drift / 2)\<close>: integer division drops the fraction.\<close>

definition half :: "int \<Rightarrow> int" where
  "half d = (if 0 \<le> d then d div 2 else - ((- d) div 2))"

definition simulate_off :: "fp \<Rightarrow> SimulatedModbusClient \<Rightarrow> SimulatedModbusClient" where
  "simulate_off elapsed c =
     (let (leaving, c) = index_reg REG_LEAVING_WATER_TEMP c;
          (dhw, c) = index_reg REG_DHW_TANK_TEMP c;
          (indoor, c) = index_reg REG_INDOOR_TEMP c;
          (outdoor, c) = index_reg REG_OUTDOOR_TEMP c;
          drift = sint (cast_i16 c (fp_mult f64 elapsed (Fin 20)));
          amb = ambient_temp c;
          c = store_reg REG_LEAVING_WATER_TEMP (drift_to amb drift leaving) c;
          c = store_reg REG_DHW_TANK_TEMP (drift_to amb drift dhw) c;
          c = store_reg REG_INDOOR_TEMP (drift_to amb drift indoor) c;
          c = store_reg REG_OUTDOOR_TEMP (drift_to amb (half drift) outdoor) c
      in store_reg REG_RUNNING_STATUS (to_u16 MODE_STATUS_OFF) c)"

definition simulate_active :: "int \<Rightarrow> fp \<Rightarrow> SimulatedModbusClient \<Rightarrow> SimulatedModbusClient" where
  "simulate_active mode elapsed c =
     (let (leaving, c) = index_reg REG_LEAVING_WATER_TEMP c;
          (target, c) = index_reg REG_HEATING_TARGET c;
          diff = target - leaving;
          step = cast_i16 c (fp_mult f64 (fp_mult f64 elapsed (f64 (of_int (sint diff)))) (f64 (2 / 10)));
          c = store_reg REG_LEAVING_WATER_TEMP (leaving + step) c
      in if mode = MODE_SET_HEAT_DHW
         then store_reg REG_RUNNING_STATUS (to_u16 MODE_STATUS_HEAT) c
         else store_reg REG_RUNNING_STATUS (to_u16 MODE_STATUS_COOL) c)"

definition elapsed_since :: "int \<Rightarrow> int \<Rightarrow> fp" where
  "elapsed_since now before = fp_div f64 (f64 (of_int (now - before))) (Fin 1000000000)"

definition updateSimulationLocked :: "SimulatedModbusClient \<Rightarrow> SimulatedModbusClient" where
  "updateSimulationLocked c =
     (let now = now_ns c (readings c);
          elapsed = elapsed_since now (last_update c);
          c = c\<lparr>readings := readings c + 1, last_update := now\<rparr>
      in if fp_less elapsed (f64 (1 / 10)) then c
         else
           let (mode, c) = index_reg REG_RUNNING_MODE c;
               c = (if sint mode = MODE_SET_OFF then simulate_off elapsed c
                    else if sint mode = MODE_SET_HEAT_DHW \<or> sint mode = MODE_SET_COOL_DHW
                    then simulate_active (sint mode) elapsed c else c);
               (stat, c) = index_reg REG_RUNNING_STATUS c
           in if sint stat = MODE_STATUS_OFF
              then store_reg REG_DC_CURRENT 0 (store_reg REG_AC_CURRENT 0 c) else c)"

section \<open>The client operations\<close>

text \<open>\<open>to_string\<close> stands for \<open>std::to_string\<close>, which only shapes the message.\<close>

definition sim_readRegister ::
    "(nat \<Rightarrow> string) \<Rightarrow> u16 \<Rightarrow> SimulatedModbusClient \<Rightarrow> (ModbusException, i16, SimulatedModbusClient) outcome" where
  "sim_readRegister to_string a c =
     (if \<not> connected c then (Inl (ModbusException ''Not connected''), c\<lparr>last_error := ''Not connected''\<rparr>)
      else let c = updateSimulationLocked c
           in case registers c a of
                None \<Rightarrow> (Inl (ModbusException (''Unknown register: '' @ to_string (unat a))),
                         c\<lparr>last_error := ''Unknown register''\<rparr>)
              | Some v \<Rightarrow> (Inr v, c\<lparr>last_error := ''No error''\<rparr>))"

definition sim_writeRegister ::
    "u16 \<Rightarrow> u16 \<Rightarrow> SimulatedModbusClient \<Rightarrow> (ModbusException, unit, SimulatedModbusClient) outcome" where
  "sim_writeRegister a v c =
     (if \<not> connected c then (Inl (ModbusException ''Not connected''), c\<lparr>last_error := ''Not connected''\<rparr>)
      else (Inr (), (store_reg a v (updateSimulationLocked c))\<lparr>last_error := ''No error''\<rparr>))"

definition sim_ops :: "(nat \<Rightarrow> string) \<Rightarrow> SimulatedModbusClient IModbusClient" where
  "sim_ops to_string =
     \<lparr>m_connect = sim_connect, m_disconnect = sim_disconnect, m_isConnected = connected,
      m_readRegister = sim_readRegister to_string, m_writeRegister = sim_writeRegister,
      m_flushBuffer = (\<lambda>c. c), m_getLastError = last_error\<rparr>"

section \<open>Which registers the simulation moves\<close>

definition simulated :: "u16 set" where
  "simulated = {REG_LEAVING_WATER_TEMP, REG_DHW_TANK_TEMP, REG_INDOOR_TEMP, REG_OUTDOOR_TEMP,
     REG_RUNNING_STATUS, REG_AC_CURRENT, REG_DC_CURRENT}"

definition sim_reg :: "SimulatedModbusClient \<Rightarrow> u16 \<Rightarrow> i16" where
  "sim_reg c a = (case registers c a of None \<Rightarrow> 0 | Some v \<Rightarrow> v)"

text \<open>A step of the simulation: no entry disappears, and only simulated ones change.\<close>

definition sim_grows :: "SimulatedModbusClient \<Rightarrow> SimulatedModbusClient \<Rightarrow> bool" where
  "sim_grows c c' \<longleftrightarrow> connected c' = connected c \<and> dom (registers c) \<subseteq> dom (registers c') \<and>
     (\<forall>a. a \<notin> simulated \<longrightarrow> sim_reg c' a = sim_reg c a)"

lemma sim_grows_refl [intro, simp]: "sim_grows c c"
  by (simp add: sim_grows_def)

lemma sim_grows_trans: "sim_grows c c' \<Longrightarrow> sim_grows c' c'' \<Longrightarrow> sim_grows c c''"
  unfolding sim_grows_def by (elim conjE, intro conjI) (simp, rule order_trans, assumption+, simp)

lemma simulated_in [simp]:
  "REG_LEAVING_WATER_TEMP \<in> simulated" "REG_DHW_TANK_TEMP \<in> simulated" "REG_INDOOR_TEMP \<in> simulated"
  "REG_OUTDOOR_TEMP \<in> simulated" "REG_RUNNING_STATUS \<in> simulated" "REG_AC_CURRENT \<in> simulated"
  "REG_DC_CURRENT \<in> simulated"
  by (simp_all add: simulated_def)

lemma sim_grows_store: "a \<in> simulated \<Longrightarrow> sim_grows c c' \<Longrightarrow> sim_grows c (store_reg a v c')"
  by (auto simp: sim_grows_def store_reg_def sim_reg_def)

lemma sim_grows_index: "sim_grows c c' \<Longrightarrow> sim_grows c (snd (index_reg a c'))"
  by (rule sim_grows_trans, assumption)
    (auto simp: sim_grows_def index_reg_def sim_reg_def split: option.split)

lemma sim_grows_misc:
  "sim_grows c (c'\<lparr>readings := n, last_update := t\<rparr>) = sim_grows c c'"
  "sim_grows c (c'\<lparr>last_error := e\<rparr>) = sim_grows c c'"
  "sim_grows (c\<lparr>readings := n, last_update := t\<rparr>) c' = sim_grows c c'"
  by (simp_all add: sim_grows_def sim_reg_def)

lemmas sim_grows_rules = sim_grows_store [OF simulated_in(1)] sim_grows_store [OF simulated_in(2)]
  sim_grows_store [OF simulated_in(3)] sim_grows_store [OF simulated_in(4)] sim_grows_store [OF simulated_in(5)]
  sim_grows_store [OF simulated_in(6)] sim_grows_store [OF simulated_in(7)] sim_grows_index sim_grows_refl

lemma simulate_off_grows: "sim_grows c c' \<Longrightarrow> sim_grows c (simulate_off e c')"
  unfolding simulate_off_def Let_def split_beta by (intro sim_grows_rules)

lemma simulate_active_grows: "sim_grows c c' \<Longrightarrow> sim_grows c (simulate_active m e c')"
  unfolding simulate_active_def Let_def split_beta by (auto intro: sim_grows_rules)

lemma update_grows: "sim_grows c (updateSimulationLocked c)"
  unfolding updateSimulationLocked_def Let_def split_beta
  by (auto simp: sim_grows_misc intro!: sim_grows_rules simulate_off_grows simulate_active_grows)


section \<open>The simulated device keeps the contract\<close>

abbreviation sim_held :: "u16 set" where
  "sim_held \<equiv> {REG_RUNNING_MODE, REG_DHW_TARGET, REG_HEATING_TARGET, REG_DHW_PRIORITY, REG_OCCUPANCY_MODE,
     REG_DEVICE_TYPE}"

lemma sim_held_not_simulated: "a \<in> sim_held \<Longrightarrow> a \<notin> simulated"
  by (auto simp: simulated_def)

text \<open>Connected, and the registers of the constructor are present.\<close>

definition sim_ready :: "SimulatedModbusClient \<Rightarrow> bool" where
  "sim_ready c \<longleftrightarrow> connected c \<and> dom initial_registers \<subseteq> dom (registers c)"

lemma sim_grows_ready: "sim_grows c c' \<Longrightarrow> sim_ready c \<Longrightarrow> sim_ready c'"
  unfolding sim_ready_def sim_grows_def by (elim conjE, intro conjI) (simp, rule order_trans)

lemma sim_read_grows: "sim_readRegister to_string a c = (r, c') \<Longrightarrow> sim_grows c c'"
  using update_grows [of c]
  by (auto simp: sim_readRegister_def Let_def sim_grows_misc split: if_splits option.splits)

lemma sim_read_value:
  "sim_readRegister to_string a c = (Inr v, c') \<Longrightarrow> v = sim_reg (updateSimulationLocked c) a"
  by (auto simp: sim_readRegister_def Let_def sim_reg_def split: if_splits option.splits)

lemma sim_read_ok:
  assumes "sim_ready c" "a \<in> dom initial_registers"
  shows "\<exists>v c'. sim_readRegister to_string a c = (Inr v, c')"
proof -
  have "a \<in> dom (registers (updateSimulationLocked c))"
    using sim_grows_ready [OF update_grows assms(1)] assms(2) by (auto simp: sim_ready_def)
  then show ?thesis using assms(1) by (auto simp: sim_readRegister_def sim_ready_def Let_def)
qed

lemma sim_write_stores:
  assumes "sim_ready c"
  shows "\<exists>c'. sim_writeRegister a v c = (Inr (), c') \<and> sim_ready c' \<and>
    (\<forall>s \<in> sim_held. sim_reg c' s = ((sim_reg c)(a := v)) s)"
proof -
  let ?c = "updateSimulationLocked c"
  have "sim_ready ?c" using sim_grows_ready [OF update_grows assms] .
  moreover have "sim_reg ?c s = sim_reg c s" if "s \<in> sim_held" for s
    using update_grows [of c] sim_held_not_simulated [OF that] by (simp add: sim_grows_def)
  ultimately show ?thesis
    using assms by (auto simp: sim_writeRegister_def sim_ready_def store_reg_def sim_reg_def)
qed

interpretation sim: heat_pump "sim_ops to_string" sim_ready sim_reg sim_held "dom initial_registers"
  for to_string
proof unfold_locales
  fix c :: SimulatedModbusClient and a :: u16 and v :: i16 and r and c' :: SimulatedModbusClient
  show "sim_ready c \<Longrightarrow> m_isConnected (sim_ops to_string) c" by (simp add: sim_ops_def sim_ready_def)
  show "sim_ready c \<Longrightarrow> a \<in> dom initial_registers \<Longrightarrow> \<exists>v c'. m_readRegister (sim_ops to_string) a c = (Inr v, c')"
    using sim_read_ok by (simp add: sim_ops_def)
  show "sim_ready c \<Longrightarrow> m_readRegister (sim_ops to_string) a c = (r, c') \<Longrightarrow>
      sim_ready c' \<and> (\<forall>s \<in> sim_held. sim_reg c' s = sim_reg c s)"
    using sim_read_grows [of to_string a c r c'] sim_grows_ready [of c c'] sim_held_not_simulated
    by (auto simp: sim_ops_def sim_grows_def simp del: insert_iff)
  show "sim_ready c \<Longrightarrow> a \<in> sim_held \<Longrightarrow> m_readRegister (sim_ops to_string) a c = (Inr v, c') \<Longrightarrow> v = sim_reg c a"
    using sim_read_value [of to_string a c v c'] update_grows [of c] sim_held_not_simulated [of a]
    by (simp add: sim_ops_def sim_grows_def del: insert_iff)
  show "sim_ready c \<Longrightarrow> a \<in> sim_held \<Longrightarrow> \<exists>c'. m_writeRegister (sim_ops to_string) a v c = (Inr (), c') \<and>
      sim_ready c' \<and> (\<forall>s \<in> sim_held. sim_reg c' s = ((sim_reg c)(a := v)) s)"
    using sim_write_stores [of c a v] by (simp add: sim_ops_def del: insert_iff fun_upd_apply)
  show "sim_ready c \<Longrightarrow> m_connect (sim_ops to_string) c = (b, c') \<Longrightarrow> sim_ready c'" for b
    by (auto simp: sim_ops_def sim_connect_def sim_ready_def)
qed (simp_all add: initial_registers_def)

section \<open>Properties\<close>

text \<open>
  C6. In demo mode one iteration brings the device in line with the working mode, whatever
  commands with values in range are waiting: afterwards the mode register is off for working mode
  0 and heating otherwise; in mode 1 the heating target is at most 25.5 degrees and hot water has
  priority; in mode 2 the hot-water target is at most 40.5 degrees and heating has priority; in
  mode 3 both targets are within half a degree of the saved ones and hot water has priority. There is one
  exception, for the priority alone: where the object and the device disagreed on it before and no waiting
  command set it, both may be left as they were. Assumed are a mode register with one of the values 0 to 2
  and saved targets in their ranges or as the device reported them. What the simulation does when its own temperature leaves the
  range of \<open>int16_t\<close> is the parameter \<open>narrow\<close> of the simulation.
\<close>

theorem demo_iteration_converges:
  assumes "modbus_client s = Some c" "sim_ready c"
    and "sint (sim_reg c REG_RUNNING_MODE) \<in> {0, 1, 2}"
    and "target_ok UNIV 40 63 (saved_dhw_target s)" "target_ok UNIV 25 63 (saved_heating_target s)"
    and "\<And>q. cmd_queue s = Some q \<Longrightarrow> queue_valid q"
  shows "\<exists>s' c'. loop_iteration (sim_ops to_string) stops s = Some s' \<and> modbus_client s' = Some c' \<and>
    settings_table (sim_reg c') s' \<and> (mode_table (sim_reg c') s' \<or> stale_priority (sim_reg c) s (sim_reg c') s')"
  using sim.iteration_meets_table [OF assms, of to_string stops] by blast

abbreviation demo_client :: SimulatedModbusClient where
  "demo_client \<equiv> snd (sim_connect (SimulatedModbusClient_init (\<lambda>n. int n * 1000000) (\<lambda>x. 0)))"

lemma demo_client_ready: "sim_ready demo_client"
  by (simp add: sim_ready_def sim_connect_def SimulatedModbusClient_init_def)

lemma demo_client_reg: "sim_reg demo_client a = (case initial_registers a of None \<Rightarrow> 0 | Some v \<Rightarrow> v)"
  by (simp add: sim_reg_def sim_connect_def SimulatedModbusClient_init_def)

theorem demo_iteration_converges_witness:
  "\<exists>s' c'. loop_iteration (sim_ops (\<lambda>n. [])) (\<lambda>n. False)
      (ControlLoop_init\<lparr>modbus_client := Some demo_client, cmd_queue := Some demo_queue\<rparr>) = Some s' \<and>
    modbus_client s' = Some c' \<and> mode_table (sim_reg c') s'"
proof -
  let ?s = "ControlLoop_init\<lparr>modbus_client := Some demo_client, cmd_queue := Some demo_queue\<rparr>"
  have "sint (sim_reg demo_client REG_RUNNING_MODE) \<in> {0, 1, 2}"
    by (simp add: demo_client_reg initial_registers_def to_u16_def)
  from demo_iteration_converges [OF _ demo_client_ready this, where s = ?s and to_string = "\<lambda>n. []" and stops = "\<lambda>n. False"]
  show ?thesis using demo_queue_not_stale [of ?s] by (auto simp: ControlLoop_init_def target_ok_Fin demo_queue_valid)
qed

text \<open>
  The simulation never touches what the controller sets: between two commands the mode, both
  setpoints, the priority and the occupancy register keep their values, however much time passes,
  and a read returns the value last written.
\<close>

theorem sim_holds_settings:
  assumes "sim_ready c" "sim_writeRegister a v c = (r, c1)" "a \<in> sim_held"
    and "sim_readRegister to_string b c1 = (r', c2)" "b \<in> sim_held"
  shows "r = Inr () \<and> (b = a \<longrightarrow> r' = Inr v) \<and> sim_reg c2 b = (if b = a then v else sim_reg c b)"
proof -
  obtain c1' where w: "sim_writeRegister a v c = (Inr (), c1')" "sim_ready c1'"
      "\<forall>s \<in> sim_held. sim_reg c1' s = ((sim_reg c)(a := v)) s"
    using sim_write_stores [OF assms(1), of a v] by blast
  have g: "sim_grows c1 c2" by (rule sim_read_grows [OF assms(4)])
  have b: "sim_reg c1 b = (if b = a then v else sim_reg c b)" using w(1) bspec [OF w(3) assms(5)] assms(2) by simp
  have "b = a \<longrightarrow> r' = Inr v"
  proof
    assume "b = a"
    have "registers c1 a = Some v" "connected c1"
      using assms(1,2) w(1) update_grows [of c]
      by (auto simp: sim_writeRegister_def store_reg_def sim_ready_def sim_grows_def split: if_splits)
    then have "registers (updateSimulationLocked c1) a \<noteq> None"
      using update_grows [of c1] by (auto simp: sim_grows_def dom_def)
    moreover have "sim_reg (updateSimulationLocked c1) a = v"
      using update_grows [of c1] sim_held_not_simulated [OF assms(3)] \<open>registers c1 a = Some v\<close>
      by (simp add: sim_grows_def sim_reg_def del: insert_iff)
    ultimately show "r' = Inr v"
      using assms(4) \<open>b = a\<close> \<open>connected c1\<close>
      by (auto simp: sim_readRegister_def Let_def sim_reg_def split: option.splits)
  qed
  with g b w(1) assms(2) sim_held_not_simulated [OF assms(5)] show ?thesis
    by (simp add: sim_grows_def del: insert_iff)
qed

theorem sim_holds_settings_witness:
  "(let (r, c1) = sim_writeRegister REG_DHW_TARGET 500 demo_client;
        (r', c2) = sim_readRegister (\<lambda>n. []) REG_DHW_TARGET c1
    in r = Inr () \<and> r' = Inr 500 \<and> sim_reg c2 REG_DHW_TARGET = 500)"
  using sim_holds_settings [OF demo_client_ready, of REG_DHW_TARGET 500 _ _ "\<lambda>n. []" REG_DHW_TARGET]
  by (auto split: prod.split)

text \<open>One update of a heating device, as a step on the two temperatures.\<close>

definition sim_heating :: "i16 \<Rightarrow> i16 \<Rightarrow> SimulatedModbusClient \<Rightarrow> bool" where
  "sim_heating leaving target c \<longleftrightarrow> registers c REG_RUNNING_MODE = Some 2 \<and>
     registers c REG_LEAVING_WATER_TEMP = Some leaving \<and> registers c REG_HEATING_TARGET = Some target"

lemma sim_heating_update:
  assumes "sim_heating l t c" "elapsed_since (now_ns c (readings c)) (last_update c) = e"
    "\<not> fp_less e (f64 (1 / 10))"
    "fp_to_i16 (fp_mult f64 (fp_mult f64 e (f64 (of_int (sint (t - l))))) (f64 (2 / 10))) = Some w"
  shows "sim_heating (l + w) t (updateSimulationLocked c) \<and>
    now_ns (updateSimulationLocked c) = now_ns c \<and> readings (updateSimulationLocked c) = readings c + 1 \<and>
    last_update (updateSimulationLocked c) = now_ns c (readings c)"
  using assms unfolding sim_heating_def updateSimulationLocked_def
  by (simp add: Let_def index_reg_def simulate_active_def cast_i16_def store_reg_def)

text \<open>The \<open>double\<close> results of the divergent run.\<close>

abbreviation fifth :: rat where
  "fifth \<equiv> 3602879701896397 / 18014398509481984"

lemma f64_results:
  "f64 (1 / 10) = Fin (3602879701896397 / 36028797018963968)" "f64 (1 / 5) = Fin fifth"
  "f64 30000000000 = Fin 30000000000" "f64 30 = Fin 30"
  "f64 100 = Fin 100" "f64 (- 500) = Fin (- 500)" "f64 2500 = Fin 2500" "f64 (- 12500) = Fin (- 12500)"
  "f64 3000 = Fin 3000" "f64 (- 15000) = Fin (- 15000)" "f64 75000 = Fin 75000" "f64 (- 375000) = Fin (- 375000)"
  "f64 (3000 * fifth) = Fin 600" "f64 (- 15000 * fifth) = Fin (- 3000)"
  "f64 (75000 * fifth) = Fin 15000" "f64 (- 375000 * fifth) = Fin (- 75000)"
  by (rule f64_eq; code_simp)+

lemma elapsed_30: "elapsed_since 30000000000 0 = Fin 30"
  using f64_results(3,4) by (simp add: elapsed_since_def)

definition sim_step :: "fp \<Rightarrow> i16 \<Rightarrow> i16 option" where
  "sim_step e diff = fp_to_i16 (fp_mult f64 (fp_mult f64 e (f64 (of_int (sint diff)))) (f64 (2 / 10)))"

lemma sim_steps:
  "sim_step (Fin 30) (450 - 350) = Some 600" "sim_step (Fin 30) (450 - 950) = Some (- 3000)"
  "sim_step (Fin 30) (450 - (- 2050)) = Some 15000" "sim_step (Fin 30) (450 - 12950) = None"
proof -
  have d: "sint ((450 - 350) :: i16) = 100" "sint ((450 - 950) :: i16) = - 500"
      "sint ((450 - (- 2050)) :: i16) = 2500" "sint ((450 - 12950) :: i16) = - 12500" by simp_all
  have t: "Ieee_Float.truncate 600 = 600" "Ieee_Float.truncate (- 3000) = - 3000"
      "Ieee_Float.truncate 15000 = 15000" "Ieee_Float.truncate (- 75000) = - 75000"
    by (simp_all add: Ieee_Float.truncate_def)
  have "f64 (2 / 10) = Fin fifth" using f64_results(2) by simp
  then show "sim_step (Fin 30) (450 - 350) = Some 600" "sim_step (Fin 30) (450 - 950) = Some (- 3000)"
      "sim_step (Fin 30) (450 - (- 2050)) = Some 15000" "sim_step (Fin 30) (450 - 12950) = None"
    using f64_results unfolding sim_step_def d by (simp_all add: t Let_def)
qed

abbreviation slow_client :: "(fp \<Rightarrow> i16) \<Rightarrow> SimulatedModbusClient" where
  "slow_client \<equiv> SimulatedModbusClient_init (\<lambda>n. int n * 30000000000)"

lemma slow_update:
  assumes "sim_heating l 450 c" "now_ns c = (\<lambda>n. int n * 30000000000)"
    "last_update c = int (readings c - 1) * 30000000000" "0 < readings c"
    "sim_step (Fin 30) (450 - l) = Some w" "c' = updateSimulationLocked c"
  shows "sim_heating (l + w) 450 c'" "now_ns c' = (\<lambda>n. int n * 30000000000)"
    "last_update c' = int (readings c' - 1) * 30000000000" "0 < readings c'"
proof -
  have 30: "elapsed_since 30000000000 0 = Fin 30" "\<not> fp_less (Fin 30) (f64 (1 / 10))"
    by (rule elapsed_30) (simp add: f64_results)
  have "int (readings c) * 30000000000 - int (readings c - 1) * 30000000000 = 30000000000"
    using assms(4) by (simp add: of_nat_diff algebra_simps)
  then have "elapsed_since (now_ns c (readings c)) (last_update c) = Fin 30"
    using 30(1) assms(2,3) by (simp add: elapsed_since_def)
  from sim_heating_update [OF assms(1) this 30(2) assms(5) [unfolded sim_step_def]]
  show "sim_heating (l + w) 450 c'" "now_ns c' = (\<lambda>n. int n * 30000000000)"
    "last_update c' = int (readings c' - 1) * 30000000000" "0 < readings c'"
    using assms(2,6) by auto
qed

text \<open>
  With the 30 seconds between two polls of the control loop the simulated leaving-water
  temperature does not approach its target of 45.0 degrees but swings away from it, from 35.0 over
  95.0 and -205.0 to 1295.0 degrees, and the next poll needs a step of -75000, which does not fit
  the \<open>int16_t\<close> it is cast to.
\<close>

theorem sim_temperature_diverges:
  "sint (sim_reg (slow_client nrw) REG_LEAVING_WATER_TEMP) = 350 \<and>
   sint (sim_reg (updateSimulationLocked (slow_client nrw)) REG_LEAVING_WATER_TEMP) = 950 \<and>
   sint (sim_reg ((updateSimulationLocked ^^ 2) (slow_client nrw)) REG_LEAVING_WATER_TEMP) = - 2050 \<and>
   sint (sim_reg ((updateSimulationLocked ^^ 3) (slow_client nrw)) REG_LEAVING_WATER_TEMP) = 12950 \<and>
   sim_step (elapsed_since 30000000000 0) (450 - 12950) = None"
proof -
  let ?c0 = "slow_client nrw"
  let ?c1 = "updateSimulationLocked ?c0" and ?c2 = "(updateSimulationLocked ^^ 2) ?c0"
    and ?c3 = "(updateSimulationLocked ^^ 3) ?c0"
  have h0: "sim_heating 350 450 ?c0" "now_ns ?c0 = (\<lambda>n. int n * 30000000000)"
      "last_update ?c0 = int (readings ?c0 - 1) * 30000000000" "0 < readings ?c0"
    by (simp_all add: sim_heating_def SimulatedModbusClient_init_def initial_registers_def to_u16_def)
  have h1: "sim_heating 950 450 ?c1" "now_ns ?c1 = (\<lambda>n. int n * 30000000000)"
      "last_update ?c1 = int (readings ?c1 - 1) * 30000000000" "0 < readings ?c1"
    using slow_update [OF h0 sim_steps(1) refl] by simp_all
  have h2: "sim_heating (- 2050) 450 ?c2" "now_ns ?c2 = (\<lambda>n. int n * 30000000000)"
      "last_update ?c2 = int (readings ?c2 - 1) * 30000000000" "0 < readings ?c2"
    using slow_update [OF h1 sim_steps(2) refl] by (simp_all add: numeral_eq_Suc)
  have h3: "sim_heating 12950 450 ?c3"
    using slow_update(1) [OF h2 sim_steps(3) refl] by (simp add: numeral_eq_Suc)
  have n: "sim_step (elapsed_since 30000000000 0) (450 - 12950) = None"
    using sim_steps(4) by (simp only: elapsed_30)
  show ?thesis
    using h0(1) h1(1) h2(1) h3 n by (simp add: sim_heating_def sim_reg_def)
qed

end
