(* ===== verification/Selftest.thy ===== *)
theory Selftest
  imports Sim_Client
begin

text \<open>
  The self-test of \<open>src/selftest.cpp\<close> on any client. The report that \<open>selftest_print_report\<close>
  prints is the value of \<open>selftest_run\<close>; its printed text is in \<open>Selftest_C\<close>. The log output is left out.
\<close>

section \<open>The report\<close>

record SelftestResult =
  r_name :: string
  r_address :: u16
  r_read_ok :: bool
  r_write_ok :: bool
  r_verify_ok :: bool
  r_read_value :: i16

record SelftestReport =
  rep_total :: nat
  rep_passed :: nat
  rep_failed :: nat
  rep_all_critical_passed :: bool
  rep_results :: "SelftestResult list"

definition SelftestResult_default :: SelftestResult where
  "SelftestResult_default =
     \<lparr>r_name = [], r_address = 0, r_read_ok = False, r_write_ok = False, r_verify_ok = False, r_read_value = 0\<rparr>"

definition SelftestReport_default :: SelftestReport where
  "SelftestReport_default =
     \<lparr>rep_total = 0, rep_passed = 0, rep_failed = 0, rep_all_critical_passed = False,
      rep_results = replicate 6 SelftestResult_default\<rparr>"

section \<open>The tests\<close>

text \<open>
  Tests 1 to 5 read one register. A test gives its result, whether it leaves
  \<open>all_critical_passed\<close> alone, and the client; \<open>accept\<close> is the check on the value.
\<close>

definition selftest_read ::
    "'c IModbusClient \<Rightarrow> string \<Rightarrow> u16 \<Rightarrow> (i16 \<Rightarrow> bool) \<Rightarrow> 'c \<Rightarrow> SelftestResult \<times> bool \<times> 'c" where
  "selftest_read ops nm a accept c =
     (let r = SelftestResult_default\<lparr>r_name := nm, r_address := a, r_write_ok := True, r_verify_ok := True\<rparr>
      in case m_readRegister ops a c of
        (Inl e, c) \<Rightarrow> (r, False, c)
      | (Inr v, c) \<Rightarrow> (r\<lparr>r_read_ok := True, r_read_value := v\<rparr>, accept v, c))"

text \<open>\<open>temp_to_raw(SELFTEST_DHW_TARGET_TEMP)\<close>; the conversion of the constant is defined.\<close>

definition selftest_value :: i16 where
  "selftest_value = (case temp_to_raw SELFTEST_DHW_TARGET_TEMP of None \<Rightarrow> 0 | Some v \<Rightarrow> v)"

text \<open>Test 6 writes a value, reads it back and restores the old one.\<close>

definition selftest_write_verify :: "'c IModbusClient \<Rightarrow> 'c \<Rightarrow> SelftestResult \<times> bool \<times> 'c" where
  "selftest_write_verify ops c =
     (let r = SelftestResult_default\<lparr>r_name := ''Write Verify Test'', r_address := REG_HEATING_TARGET,
                r_read_ok := True, r_read_value := - 1\<rparr>
      in case m_readRegister ops REG_HEATING_TARGET c of
        (Inl e, c) \<Rightarrow> (r, False, c)
      | (Inr original_heating, c) \<Rightarrow>
          let r = r\<lparr>r_read_value := original_heating\<rparr>
          in case m_writeRegister ops REG_HEATING_TARGET selftest_value c of
            (Inl e, c) \<Rightarrow> (r, False, c)
          | (Inr u, c) \<Rightarrow>
              let r = r\<lparr>r_write_ok := True\<rparr>
              in case (case m_readRegister ops REG_HEATING_TARGET c of
                    (Inl e, c) \<Rightarrow> (r, False, c)
                  | (Inr v, c) \<Rightarrow> if v = selftest_value then (r\<lparr>r_verify_ok := True\<rparr>, True, c) else (r, False, c)) of
                (r, good, c) \<Rightarrow> (case m_writeRegister ops REG_HEATING_TARGET original_heating c of
                    (Inl e, c) \<Rightarrow> (r, False, c)
                  | (Inr u, c) \<Rightarrow> (r, good, c)))"

definition result_passed :: "SelftestResult \<Rightarrow> bool" where
  "result_passed r \<longleftrightarrow> r_read_ok r \<and> r_write_ok r \<and> r_verify_ok r"

definition selftest_run :: "'c IModbusClient \<Rightarrow> 'c option \<Rightarrow> SelftestReport \<times> 'c option" where
  "selftest_run ops client = (case client of
     None \<Rightarrow> (SelftestReport_default\<lparr>rep_total := 6, rep_failed := 6, rep_all_critical_passed := False\<rparr>, None)
   | Some c \<Rightarrow>
      (case selftest_read ops ''Device Type'' REG_DEVICE_TYPE (\<lambda>v. v = 8) c of (r1, b1, c) \<Rightarrow>
       case selftest_read ops ''Heating Setpoint'' REG_HEATING_TARGET (\<lambda>v. True) c of (r2, b2, c) \<Rightarrow>
       case selftest_read ops ''DHW Setpoint'' REG_DHW_TARGET (\<lambda>v. True) c of (r3, b3, c) \<Rightarrow>
       case selftest_read ops ''Outdoor Temp'' REG_OUTDOOR_TEMP (\<lambda>v. True) c of (r4, b4, c) \<Rightarrow>
       case selftest_read ops ''DHW Tank Temp'' REG_DHW_TANK_TEMP (\<lambda>v. True) c of (r5, b5, c) \<Rightarrow>
       case selftest_write_verify ops c of (r6, b6, c) \<Rightarrow>
         let rs = [r1, r2, r3, r4, r5, r6]
         in (\<lparr>rep_total = 6, rep_passed = length (filter result_passed rs),
              rep_failed = length (filter (\<lambda>r. \<not> result_passed r) rs),
              rep_all_critical_passed = (b1 \<and> b2 \<and> b3 \<and> b4 \<and> b5 \<and> b6), rep_results = rs\<rparr>, Some c)))"

section \<open>What the tests show\<close>

lemma selftest_value: "selftest_value = 450"
  by code_simp

lemma selftest_read_passed:
  "selftest_read ops nm a accept c = (r, True, c') \<Longrightarrow> result_passed r \<and> (\<exists>v. m_readRegister ops a c = (Inr v, c') \<and> accept v)"
  by (auto simp: selftest_read_def result_passed_def Let_def split: prod.splits sum.splits)

lemma selftest_read_log:
  "selftest_read (logged ops) nm a accept (c, l) = (r, b, c', l') \<Longrightarrow>
     \<exists>v. l' = Ev_read a v # l \<and> (b = (case v of Inl e \<Rightarrow> False | Inr w \<Rightarrow> accept w)) \<and> result_passed r = (\<exists>w. v = Inr w)"
  by (auto simp: selftest_read_def logged_def result_passed_def SelftestResult_default_def Let_def split: prod.splits sum.splits)

text \<open>The registers and values written, oldest first.\<close>

definition writes_of :: "client_event list \<Rightarrow> (u16 \<times> u16) list" where
  "writes_of l = concat (map (\<lambda>e. case e of Ev_write a v \<Rightarrow> [(a, v)] | _ \<Rightarrow> []) (rev l))"

lemma writes_of_Cons [simp]:
  "writes_of [] = []"
  "writes_of (e # l) = writes_of l @ (case e of Ev_write a v \<Rightarrow> [(a, v)] | _ \<Rightarrow> [])"
  by (simp_all add: writes_of_def)

lemma selftest_write_verify_log:
  assumes "selftest_write_verify (logged ops) (c, l) = (r, b, c', l')"
  shows "set l \<subseteq> set l' \<and> ((writes_of l' = writes_of l \<and> \<not> b) \<or>
    (\<exists>v. Ev_read REG_HEATING_TARGET (Inr v) \<in> set l' \<and>
       (writes_of l' = writes_of l @ [(REG_HEATING_TARGET, 450)] \<and> \<not> b \<or>
        writes_of l' = writes_of l @ [(REG_HEATING_TARGET, 450), (REG_HEATING_TARGET, v)] \<and> (b \<longrightarrow> result_passed r))))"
  using assms
  by (auto simp: selftest_write_verify_def logged_def result_passed_def SelftestResult_default_def selftest_value Let_def
      split: prod.splits sum.splits if_splits)

context held_registers
begin

lemma selftest_read_held:
  assumes "ready c" "a \<in> readable" "\<And>v. (a \<in> held \<longrightarrow> v = reg c a) \<Longrightarrow> accept v"
  shows "\<exists>r c'. selftest_read ops nm a accept c = (r, True, c') \<and> result_passed r \<and> ready c' \<and> (\<forall>s \<in> held. reg c' s = reg c s)"
proof -
  obtain v c' where r: "m_readRegister ops a c = (Inr v, c')" using read_ok [OF assms(1,2)] by blast
  have "accept v" using assms(3) read_held [OF assms(1) _ r] by blast
  moreover have "ready c' \<and> (\<forall>s \<in> held. reg c' s = reg c s)" by (rule read_keeps [OF assms(1) r])
  ultimately show ?thesis
    by (simp add: selftest_read_def r result_passed_def SelftestResult_default_def Let_def)
qed

lemma selftest_write_verify_held:
  assumes "ready c" "REG_HEATING_TARGET \<in> held" "REG_HEATING_TARGET \<in> readable"
  shows "\<exists>r c'. selftest_write_verify ops c = (r, True, c') \<and> result_passed r \<and> ready c' \<and> (\<forall>s \<in> held. reg c' s = reg c s)"
proof -
  let ?h = REG_HEATING_TARGET
  obtain v c1 where r1: "m_readRegister ops ?h c = (Inr v, c1)" using read_ok [OF assms(1,3)] by blast
  have v: "v = reg c ?h" by (rule read_held [OF assms(1,2) r1])
  have k1: "ready c1" "\<forall>s \<in> held. reg c1 s = reg c s" using read_keeps [OF assms(1) r1] by auto
  obtain c2 where w2: "m_writeRegister ops ?h selftest_value c1 = (Inr (), c2)" "ready c2"
      "\<forall>s \<in> held. reg c2 s = ((reg c1)(?h := selftest_value)) s"
    using write_held [OF k1(1) assms(2)] by blast
  obtain v3 c3 where r3: "m_readRegister ops ?h c2 = (Inr v3, c3)" using read_ok [OF w2(2) assms(3)] by blast
  have v3: "v3 = selftest_value" using read_held [OF w2(2) assms(2) r3] bspec [OF w2(3) assms(2)] by simp
  have k3: "ready c3" "\<forall>s \<in> held. reg c3 s = reg c2 s" using read_keeps [OF w2(2) r3] by auto
  obtain c4 where w4: "m_writeRegister ops ?h v c3 = (Inr (), c4)" "ready c4"
      "\<forall>s \<in> held. reg c4 s = ((reg c3)(?h := v)) s"
    using write_held [OF k3(1) assms(2)] by blast
  have "\<forall>s \<in> held. reg c4 s = reg c s" using w4(3) k3(2) w2(3) k1(2) v by auto
  with w4(2) show ?thesis
    by (simp add: selftest_write_verify_def r1 w2(1) r3 v3 w4(1) result_passed_def SelftestResult_default_def Let_def)
qed

lemma selftest_run_held:
  assumes "ready c" "reg c REG_DEVICE_TYPE = 8"
    and "{REG_DEVICE_TYPE, REG_HEATING_TARGET} \<subseteq> held"
    and "{REG_DEVICE_TYPE, REG_HEATING_TARGET, REG_DHW_TARGET, REG_OUTDOOR_TEMP, REG_DHW_TANK_TEMP} \<subseteq> readable"
  shows "\<exists>rep c'. selftest_run ops (Some c) = (rep, Some c') \<and> rep_all_critical_passed rep \<and> rep_passed rep = 6 \<and>
    rep_failed rep = 0 \<and> ready c' \<and> (\<forall>s \<in> held. reg c' s = reg c s)"
proof -
  have readable: "REG_DEVICE_TYPE \<in> readable" "REG_HEATING_TARGET \<in> readable" "REG_DHW_TARGET \<in> readable"
    "REG_OUTDOOR_TEMP \<in> readable" "REG_DHW_TANK_TEMP \<in> readable" using assms(4) by auto
  have held: "REG_DEVICE_TYPE \<in> held" "REG_HEATING_TARGET \<in> held" using assms(3) by auto
  obtain r1 c1 where 1: "selftest_read ops ''Device Type'' REG_DEVICE_TYPE (\<lambda>v. v = 8) c = (r1, True, c1)" "result_passed r1"
      "ready c1" "\<forall>s \<in> held. reg c1 s = reg c s"
    using selftest_read_held [OF assms(1) readable(1), of "\<lambda>v. v = 8" "''Device Type''"] assms(2) held(1) by auto
  obtain r2 c2 where 2: "selftest_read ops ''Heating Setpoint'' REG_HEATING_TARGET (\<lambda>v. True) c1 = (r2, True, c2)" "result_passed r2"
      "ready c2" "\<forall>s \<in> held. reg c2 s = reg c1 s"
    using selftest_read_held [OF 1(3) readable(2), of "\<lambda>v. True" "''Heating Setpoint''"] by auto
  obtain r3 c3 where 3: "selftest_read ops ''DHW Setpoint'' REG_DHW_TARGET (\<lambda>v. True) c2 = (r3, True, c3)" "result_passed r3"
      "ready c3" "\<forall>s \<in> held. reg c3 s = reg c2 s"
    using selftest_read_held [OF 2(3) readable(3), of "\<lambda>v. True" "''DHW Setpoint''"] by auto
  obtain r4 c4 where 4: "selftest_read ops ''Outdoor Temp'' REG_OUTDOOR_TEMP (\<lambda>v. True) c3 = (r4, True, c4)" "result_passed r4"
      "ready c4" "\<forall>s \<in> held. reg c4 s = reg c3 s"
    using selftest_read_held [OF 3(3) readable(4), of "\<lambda>v. True" "''Outdoor Temp''"] by auto
  obtain r5 c5 where 5: "selftest_read ops ''DHW Tank Temp'' REG_DHW_TANK_TEMP (\<lambda>v. True) c4 = (r5, True, c5)" "result_passed r5"
      "ready c5" "\<forall>s \<in> held. reg c5 s = reg c4 s"
    using selftest_read_held [OF 4(3) readable(5), of "\<lambda>v. True" "''DHW Tank Temp''"] by auto
  obtain r6 c6 where 6: "selftest_write_verify ops c5 = (r6, True, c6)" "result_passed r6"
      "ready c6" "\<forall>s \<in> held. reg c6 s = reg c5 s"
    using selftest_write_verify_held [OF 5(3) held(2) readable(2)] by auto
  show ?thesis
    using 1 2 3 4 5 6 by (simp add: selftest_run_def Let_def)
qed

end

section \<open>Properties\<close>

text \<open>
  C15. The self-test passes on a healthy device and leaves it as it was: on any client that reaches a
  device of type 8 with working registers, all six tests pass, and every setting of the device,
  the heating target among them, has its old value afterwards.
\<close>

theorem selftest_passes_and_restores:
  assumes "held_registers ops ready reg held readable" "ready c" "reg c REG_DEVICE_TYPE = 8"
    and "{REG_DEVICE_TYPE, REG_HEATING_TARGET} \<subseteq> held"
    and "{REG_DEVICE_TYPE, REG_HEATING_TARGET, REG_DHW_TARGET, REG_OUTDOOR_TEMP, REG_DHW_TANK_TEMP} \<subseteq> readable"
  shows "\<exists>rep c'. selftest_run ops (Some c) = (rep, Some c') \<and> rep_all_critical_passed rep \<and> rep_passed rep = 6 \<and>
    rep_failed rep = 0 \<and> ready c' \<and> (\<forall>s \<in> held. reg c' s = reg c s)"
  by (rule held_registers.selftest_run_held [OF assms])

text \<open>
  A run on a recording client, up to the write test: nothing was written, the passed and the failed
  tests add up, and when all critical tests passed, so did every read.
\<close>

lemma selftest_run_log:
  assumes "selftest_run (logged ops) (Some (c, [])) = (rep, Some (c', l))"
  obtains r6 b6 c5 l5 where "selftest_write_verify (logged ops) (c5, l5) = (r6, b6, c', l)" "writes_of l5 = []"
    "rep_passed rep + rep_failed rep = 6"
    "rep_all_critical_passed rep \<Longrightarrow> b6 \<and> 8 \<in> reported l REG_DEVICE_TYPE \<and> (result_passed r6 \<longrightarrow> rep_passed rep = 6)"
proof -
  obtain r1 b1 c1 l1 where 1: "selftest_read (logged ops) ''Device Type'' REG_DEVICE_TYPE (\<lambda>v. v = 8) (c, []) = (r1, b1, c1, l1)"
    by (rule prod_cases4)
  obtain r2 b2 c2 l2 where 2: "selftest_read (logged ops) ''Heating Setpoint'' REG_HEATING_TARGET (\<lambda>v. True) (c1, l1) = (r2, b2, c2, l2)"
    by (rule prod_cases4)
  obtain r3 b3 c3 l3 where 3: "selftest_read (logged ops) ''DHW Setpoint'' REG_DHW_TARGET (\<lambda>v. True) (c2, l2) = (r3, b3, c3, l3)"
    by (rule prod_cases4)
  obtain r4 b4 c4 l4 where 4: "selftest_read (logged ops) ''Outdoor Temp'' REG_OUTDOOR_TEMP (\<lambda>v. True) (c3, l3) = (r4, b4, c4, l4)"
    by (rule prod_cases4)
  obtain r5 b5 c5 l5 where 5: "selftest_read (logged ops) ''DHW Tank Temp'' REG_DHW_TANK_TEMP (\<lambda>v. True) (c4, l4) = (r5, b5, c5, l5)"
    by (rule prod_cases4)
  obtain r6 b6 c6 l6 where 6: "selftest_write_verify (logged ops) (c5, l5) = (r6, b6, c6, l6)"
    by (rule prod_cases4)
  note run = assms [unfolded selftest_run_def option.case 1 2 3 4 5 6 prod.case Let_def]
  have l: "l6 = l" "c6 = c'" and rep: "rep_all_critical_passed rep = (b1 \<and> b2 \<and> b3 \<and> b4 \<and> b5 \<and> b6)"
      "rep_passed rep = length (filter result_passed [r1, r2, r3, r4, r5, r6])"
      "rep_failed rep = length (filter (\<lambda>r. \<not> result_passed r) [r1, r2, r3, r4, r5, r6])"
    using run by auto
  obtain v1 v2 v3 v4 v5 where e:
      "l1 = [Ev_read REG_DEVICE_TYPE v1]" "b1 = (case v1 of Inl e \<Rightarrow> False | Inr w \<Rightarrow> w = 8)" "result_passed r1 = (\<exists>w. v1 = Inr w)"
      "l2 = Ev_read REG_HEATING_TARGET v2 # l1" "b2 = (case v2 of Inl e \<Rightarrow> False | Inr w \<Rightarrow> True)" "result_passed r2 = (\<exists>w. v2 = Inr w)"
      "l3 = Ev_read REG_DHW_TARGET v3 # l2" "b3 = (case v3 of Inl e \<Rightarrow> False | Inr w \<Rightarrow> True)" "result_passed r3 = (\<exists>w. v3 = Inr w)"
      "l4 = Ev_read REG_OUTDOOR_TEMP v4 # l3" "b4 = (case v4 of Inl e \<Rightarrow> False | Inr w \<Rightarrow> True)" "result_passed r4 = (\<exists>w. v4 = Inr w)"
      "l5 = Ev_read REG_DHW_TANK_TEMP v5 # l4" "b5 = (case v5 of Inl e \<Rightarrow> False | Inr w \<Rightarrow> True)" "result_passed r5 = (\<exists>w. v5 = Inr w)"
    using selftest_read_log [OF 1] selftest_read_log [OF 2] selftest_read_log [OF 3] selftest_read_log [OF 4] selftest_read_log [OF 5]
    by (elim exE conjE) (rule that)
  have w5: "writes_of l5 = []" using e by simp
  have count: "rep_passed rep + rep_failed rep = 6" unfolding rep by simp
  have "b6 \<and> 8 \<in> reported l REG_DEVICE_TYPE \<and> (result_passed r6 \<longrightarrow> rep_passed rep = 6)" if "rep_all_critical_passed rep"
    using that rep(1) e(2,3,5,6,8,9,11,12,14,15) e(1,4,7,10,13) conjunct1 [OF selftest_write_verify_log [OF 6]] l
    by (auto simp: reported_def rep(2) split: sum.splits)
  then show thesis using 6 w5 count unfolding l by (intro that)
qed

text \<open>
  C25. Whatever the device answers, the self-test counts six tests, writes nothing but the heating
  target, and there only 45 degrees and then the value it had read before; and when it reports that
  all critical tests passed, the device said it is of type 8, all six tests passed and the old
  heating target was written back.
\<close>

theorem selftest_sound:
  assumes "selftest_run (logged ops) (Some (c, [])) = (rep, Some (c', l))"
  shows "rep_passed rep + rep_failed rep = 6 \<and>
    (\<exists>v. writes_of l \<in> {[], [(REG_HEATING_TARGET, 450)], [(REG_HEATING_TARGET, 450), (REG_HEATING_TARGET, v)]} \<and>
       (writes_of l \<noteq> [] \<longrightarrow> v \<in> reported l REG_HEATING_TARGET) \<and>
       (rep_all_critical_passed rep \<longrightarrow> rep_passed rep = 6 \<and> 8 \<in> reported l REG_DEVICE_TYPE \<and>
          writes_of l = [(REG_HEATING_TARGET, 450), (REG_HEATING_TARGET, v)]))"
proof -
  obtain r6 b6 c5 l5 where 6: "selftest_write_verify (logged ops) (c5, l5) = (r6, b6, c', l)" and w5: "writes_of l5 = []"
    and count: "rep_passed rep + rep_failed rep = 6" and crit: "rep_all_critical_passed rep \<Longrightarrow>
      b6 \<and> 8 \<in> reported l REG_DEVICE_TYPE \<and> (result_passed r6 \<longrightarrow> rep_passed rep = 6)"
    using assms by (rule selftest_run_log) blast
  have seen: "v \<in> reported l REG_HEATING_TARGET" if "Ev_read REG_HEATING_TARGET (Inr v) \<in> set l" for v
    using that by (simp add: reported_def)
  from conjunct2 [OF selftest_write_verify_log [OF 6]] show ?thesis
  proof (elim disjE exE conjE)
    assume "writes_of l = writes_of l5" "\<not> b6"
    with w5 count crit show ?thesis by auto
  next
    fix v
    assume "Ev_read REG_HEATING_TARGET (Inr v) \<in> set l" "writes_of l = writes_of l5 @ [(REG_HEATING_TARGET, 450)]" "\<not> b6"
    with seen w5 count crit show ?thesis by (intro conjI exI [of _ v]) auto
  next
    fix v
    assume "Ev_read REG_HEATING_TARGET (Inr v) \<in> set l"
      "writes_of l = writes_of l5 @ [(REG_HEATING_TARGET, 450), (REG_HEATING_TARGET, v)]" "b6 \<longrightarrow> result_passed r6"
    with seen w5 count crit show ?thesis by (intro conjI exI [of _ v]) auto
  qed
qed

theorem selftest_sound_witness:
  "\<exists>rep c' l. selftest_run (logged bank_ops) (Some ((\<lambda>a. 8), [])) = (rep, Some (c', l)) \<and> rep_all_critical_passed rep \<and>
    rep_passed rep = 6 \<and> (\<exists>v. writes_of l = [(REG_HEATING_TARGET, 450), (REG_HEATING_TARGET, v)])"
proof -
  obtain rep c' l where r: "selftest_run (logged bank_ops) (Some ((\<lambda>a. 8), [])) = (rep, Some (c', l))" "rep_all_critical_passed rep"
    by (simp add: selftest_run_def selftest_read_def selftest_write_verify_def logged_def bank_ops_def selftest_value Let_def)
  with selftest_sound [OF r(1)] show ?thesis by blast
qed

theorem selftest_passes_and_restores_witness:
  "\<exists>rep c'. selftest_run (sim_ops (\<lambda>n. [])) (Some demo_client) = (rep, Some c') \<and> rep_all_critical_passed rep \<and>
    rep_passed rep = 6 \<and> rep_failed rep = 0 \<and> sim_ready c' \<and> (\<forall>s \<in> sim_held. sim_reg c' s = sim_reg demo_client s)"
proof (rule selftest_passes_and_restores)
  show "held_registers (sim_ops (\<lambda>n. [])) sim_ready sim_reg sim_held (dom initial_registers)"
    by (rule sim.held_registers_axioms)
  show "sim_ready demo_client" by (rule demo_client_ready)
qed (simp_all add: demo_client_reg initial_registers_def)

end
