(* ===== verification/Rtu_Frame.thy ===== *)
theory Rtu_Frame
  imports Prelude
begin

text \<open>
  The checksum of \<open>src/crc16.cpp\<close> and the request frames of
  \<open>src/modbus/modbus_rtu_frame.c\<close>. The lemmas give the algebra of the checksum (each byte
  step is a bijection in the running value and in the byte, the checksum of a message
  followed by its own checksum is zero) and the layout of the two request frames.
\<close>

section \<open>CRC16\<close>

text \<open>One round of the inner loop: shift right, and fold the polynomial in when a bit falls out.\<close>

definition crc16_bit :: "u16 \<Rightarrow> u16" where
  "crc16_bit crc =
     (if crc AND 0x0001 \<noteq> 0 then (drop_bit 1 crc) XOR 0xA001 else drop_bit 1 crc)"

text \<open>One round of the outer loop: \<open>crc ^= data[i]\<close>, then eight rounds of the inner loop.\<close>

definition crc16_byte :: "u16 \<Rightarrow> u8 \<Rightarrow> u16" where
  "crc16_byte crc b = (crc16_bit ^^ 8) (crc XOR ucast b)"

definition crc16 :: "u8 list \<Rightarrow> u16" where
  "crc16 data = foldl crc16_byte 0xFFFF data"

lemma crc16_snoc: "crc16 (xs @ [b]) = crc16_byte (crc16 xs) b"
  by (simp add: crc16_def)

subsection \<open>Each step is injective\<close>

text \<open>The polynomial has bit 15 set, so bit 15 of the result tells which branch ran.\<close>

definition crc16_poly :: u16 where
  "crc16_poly = 0xA001"

definition crc16_unbit :: "u16 \<Rightarrow> u16" where
  "crc16_unbit c = (if bit c 15 then push_bit 1 (c XOR crc16_poly) OR 1 else push_bit 1 c)"

lemma bit_crc16_poly: "bit crc16_poly n = (n \<in> {0, 13, 15})"
proof (cases "n < 16")
  case True
  then have "n \<in> set [0..<16]" by simp
  then show ?thesis by (auto simp: crc16_poly_def upt_rec)
qed (auto simp: crc16_poly_def bit_simps)

lemma bit_16_word: "\<not> bit (c::u16) 16"
  by (auto dest: bit_imp_le_length)

lemma bit_crc16_bit:
  "bit (crc16_bit c) n = (bit c (Suc n) \<noteq> (bit c 0 \<and> n \<in> {0, 13, 15}))"
proof -
  have "crc16_bit c = (if bit c 0 then drop_bit 1 c XOR crc16_poly else drop_bit 1 c)"
    by (simp add: crc16_bit_def crc16_poly_def and_one_eq bit_0 odd_iff_mod_2_eq_one)
  then show ?thesis
    by (auto simp: bit_xor_iff bit_drop_bit_eq bit_crc16_poly)
qed

lemma bit_crc16_unbit:
  "n < 16 \<Longrightarrow> bit (crc16_unbit c) n =
     (if n = 0 then bit c 15 else bit c (n - 1) \<noteq> (bit c 15 \<and> n - 1 \<in> {0, 13, 15}))"
  unfolding crc16_unbit_def
  by (auto simp: bit_or_iff bit_xor_iff bit_push_bit_iff bit_crc16_poly bit_1_iff
      simp del: push_bit_Suc)

lemma crc16_unbit_bit: "crc16_unbit (crc16_bit c) = c"
proof (rule bit_word_eqI)
  fix n assume "n < LENGTH(16)"
  then show "bit (crc16_unbit (crc16_bit c)) n = bit c n"
    by (auto simp: bit_crc16_unbit bit_crc16_bit bit_16_word)
qed

lemma inj_crc16_bit: "inj crc16_bit"
  by (rule inj_on_inverseI [where g = crc16_unbit]) (simp add: crc16_unbit_bit)

lemma inj_crc16_bits: "inj (crc16_bit ^^ n)"
  by (induction n) (auto intro: inj_compose inj_crc16_bit simp: inj_def dest: injD [OF inj_crc16_bit])

lemma crc16_byte_inj_crc: "inj (\<lambda>crc. crc16_byte crc b)"
  by (auto simp: inj_def crc16_byte_def xor_cancel_right dest!: injD [OF inj_crc16_bits])

lemma crc16_byte_inj_byte: "inj (crc16_byte crc)"
proof (rule injI)
  fix b c
  assume "crc16_byte crc b = crc16_byte crc c"
  then have "ucast b = (ucast c :: u16)"
    by (auto simp: crc16_byte_def xor_cancel_left dest!: injD [OF inj_crc16_bits])
  then show "b = c" by (rule ucast_u8_u16_inj)
qed

subsection \<open>The residue of a message with its own checksum\<close>

lemma crc16_bit_even: "\<not> bit c 0 \<Longrightarrow> crc16_bit c = drop_bit 1 c"
  by (rule bit_word_eqI) (auto simp: bit_crc16_bit bit_drop_bit_eq)

lemma crc16_bits_zeros:
  "(\<And>i. i < n \<Longrightarrow> \<not> bit c i) \<Longrightarrow> (crc16_bit ^^ n) c = drop_bit n c"
proof (induction n)
  case 0
  then show ?case by simp
next
  case (Suc n)
  then have "(crc16_bit ^^ n) c = drop_bit n c" by auto
  with Suc.prems show ?case
    by (simp add: crc16_bit_even bit_drop_bit_eq)
qed

lemma crc16_byte_lo: "crc16_byte w (lo_byte w) = ucast (hi_byte w)"
proof -
  have "(crc16_bit ^^ 8) (w XOR ucast (lo_byte w)) = drop_bit 8 (w XOR ucast (lo_byte w))"
    by (rule crc16_bits_zeros) (auto simp: bit_xor_iff bit_ucast_iff bit_lo_byte)
  moreover have "drop_bit 8 (w XOR ucast (lo_byte w)) = (ucast (hi_byte w) :: u16)"
    by (rule bit_word_eqI)
       (auto simp: bit_drop_bit_eq bit_xor_iff bit_ucast_iff bit_lo_byte bit_hi_byte ac_simps
         dest: bit_imp_le_length)
  ultimately show ?thesis by (simp add: crc16_byte_def)
qed

lemma crc16_byte_self: "crc16_byte (ucast b) b = 0"
  using crc16_bits_zeros [of 8 0] by (simp add: crc16_byte_def)

lemma crc16_residue: "crc16 (xs @ [lo_byte (crc16 xs), hi_byte (crc16 xs)]) = 0"
proof -
  have "crc16 (xs @ [lo_byte (crc16 xs), hi_byte (crc16 xs)])
      = crc16_byte (crc16_byte (crc16 xs) (lo_byte (crc16 xs))) (hi_byte (crc16 xs))"
    by (simp add: crc16_def)
  then show ?thesis by (simp add: crc16_byte_lo crc16_byte_self)
qed

lemma crc16_differ_one:
  assumes "b \<noteq> c"
  shows "crc16 (xs @ b # ys) \<noteq> crc16 (xs @ c # ys)"
proof
  assume "crc16 (xs @ b # ys) = crc16 (xs @ c # ys)"
  then have "foldl crc16_byte (crc16_byte (crc16 xs) b) ys
           = foldl crc16_byte (crc16_byte (crc16 xs) c) ys"
    by (simp add: crc16_def)
  then have "crc16_byte (crc16 xs) b = crc16_byte (crc16 xs) c"
    by (rule foldl_inj_acc [OF crc16_byte_inj_crc])
  with assms show False by (auto dest: injD [OF crc16_byte_inj_byte])
qed

section \<open>Request frames\<close>

text \<open>
  The builders write into the caller's buffer \<open>frame\<close> (at least eight bytes, the caller's
  duty): \<open>frame[k] = v\<close> is a list update.
\<close>

definition modbus_rtu_build_read_frame :: "u8 list \<Rightarrow> u8 \<Rightarrow> u16 \<Rightarrow> u16 \<Rightarrow> u8 list" where
  "modbus_rtu_build_read_frame frame slave_id address count =
     (let frame = frame[0 := slave_id];
          frame = frame[1 := 0x03];
          frame = frame[2 := hi_byte address];
          frame = frame[3 := lo_byte address];
          frame = frame[4 := hi_byte count];
          frame = frame[5 := lo_byte count];
          crc = crc16 (take 6 frame);
          frame = frame[6 := lo_byte crc]
      in frame[7 := hi_byte crc])"

definition modbus_rtu_build_write_frame :: "u8 list \<Rightarrow> u8 \<Rightarrow> u16 \<Rightarrow> u16 \<Rightarrow> u8 list" where
  "modbus_rtu_build_write_frame frame slave_id address value =
     (let frame = frame[0 := slave_id];
          frame = frame[1 := 0x06];
          frame = frame[2 := hi_byte address];
          frame = frame[3 := lo_byte address];
          frame = frame[4 := hi_byte value];
          frame = frame[5 := lo_byte value];
          crc = crc16 (take 6 frame);
          frame = frame[6 := lo_byte crc]
      in frame[7 := hi_byte crc])"

text \<open>What both builders put on the wire: a body of six bytes and its checksum, low byte first.\<close>

definition with_crc :: "u8 list \<Rightarrow> u8 list" where
  "with_crc body = body @ [lo_byte (crc16 body), hi_byte (crc16 body)]"

lemma split_8:
  assumes "8 \<le> length xs"
  obtains a b c d e f g h r where "xs = a # b # c # d # e # f # g # h # r"
  using assms by (metis (no_types, opaque_lifting) Suc_le_length_iff numeral_eq_Suc pred_numeral_simps(2,3) semiring_norm(26,27,28) eval_nat_numeral)

lemma read_frame_bytes [frame_simps]:
  assumes "8 \<le> length frame"
  shows "take 8 (modbus_rtu_build_read_frame frame slave_id address count) =
    with_crc [slave_id, 0x03, hi_byte address, lo_byte address, hi_byte count, lo_byte count]"
  using assms by (elim split_8) (simp add: modbus_rtu_build_read_frame_def with_crc_def Let_def numeral_eq_Suc)

lemma write_frame_bytes [frame_simps]:
  assumes "8 \<le> length frame"
  shows "take 8 (modbus_rtu_build_write_frame frame slave_id address value) =
    with_crc [slave_id, 0x06, hi_byte address, lo_byte address, hi_byte value, lo_byte value]"
  using assms by (elim split_8) (simp add: modbus_rtu_build_write_frame_def with_crc_def Let_def numeral_eq_Suc)

section \<open>Properties\<close>

text \<open>
  C29. A request frame built in a buffer of at least eight bytes carries the slave id, the function
  code, the register address and the count so that the receiver reads the same numbers back, its
  checksum over all eight bytes is zero as the receiver expects, and no byte behind it is touched.
\<close>

theorem read_frame_roundtrip:
  assumes "8 \<le> length buf" and "f = modbus_rtu_build_read_frame buf slave_id address count"
  shows "f ! 0 = slave_id \<and> f ! 1 = 0x03 \<and> join_bytes (f ! 2) (f ! 3) = address \<and>
    join_bytes (f ! 4) (f ! 5) = count \<and> crc16 (take 8 f) = 0 \<and> drop 8 f = drop 8 buf"
proof -
  have "crc16 (take 8 f) = 0"
    using assms by (simp add: frame_simps with_crc_def crc16_residue del: append.simps)
  then show ?thesis
    using assms by (elim split_8) (simp add: modbus_rtu_build_read_frame_def Let_def numeral_eq_Suc join_hi_lo)
qed

theorem read_frame_roundtrip_witness:
  "let f = modbus_rtu_build_read_frame (replicate 8 0) 11 0x2C 1
   in f ! 0 = 11 \<and> f ! 1 = 0x03 \<and> join_bytes (f ! 2) (f ! 3) = 0x2C \<and> join_bytes (f ! 4) (f ! 5) = 1 \<and>
      crc16 (take 8 f) = 0 \<and> drop 8 f = drop 8 (replicate 8 (0 :: u8))"
  unfolding Let_def by (rule read_frame_roundtrip) simp_all

text \<open>
  The same for a write request: slave id, function code, address and value come back as they
  were given, the checksum over the frame is zero, and the rest of the buffer is untouched.
\<close>

theorem write_frame_roundtrip:
  assumes "8 \<le> length buf" and "f = modbus_rtu_build_write_frame buf slave_id address v"
  shows "f ! 0 = slave_id \<and> f ! 1 = 0x06 \<and> join_bytes (f ! 2) (f ! 3) = address \<and>
    join_bytes (f ! 4) (f ! 5) = v \<and> crc16 (take 8 f) = 0 \<and> drop 8 f = drop 8 buf"
proof -
  have "crc16 (take 8 f) = 0"
    using assms by (simp add: frame_simps with_crc_def crc16_residue del: append.simps)
  then show ?thesis
    using assms by (elim split_8) (simp add: modbus_rtu_build_write_frame_def Let_def numeral_eq_Suc join_hi_lo)
qed

theorem write_frame_roundtrip_witness:
  "let f = modbus_rtu_build_write_frame (replicate 8 0) 11 0x194 450
   in f ! 0 = 11 \<and> f ! 1 = 0x06 \<and> join_bytes (f ! 2) (f ! 3) = 0x194 \<and> join_bytes (f ! 4) (f ! 5) = 450 \<and>
      crc16 (take 8 f) = 0 \<and> drop 8 f = drop 8 (replicate 8 (0 :: u8))"
  unfolding Let_def by (rule write_frame_roundtrip) simp_all

text \<open>
  C28. The checksum detects every corruption of a single byte: a message followed by its own
  checksum has residue zero, and after changing any one byte of it, checksum bytes included, to
  any other value the residue is no longer zero.
\<close>

theorem crc16_detects_one_byte:
  assumes "xs @ b # ys = msg @ [lo_byte (crc16 msg), hi_byte (crc16 msg)]" and "c \<noteq> b"
  shows "crc16 (xs @ b # ys) = 0 \<and> crc16 (xs @ c # ys) \<noteq> 0"
  using crc16_residue [of msg] crc16_differ_one [OF assms(2), of xs ys] assms(1) by simp

theorem crc16_detects_one_byte_witness:
  "crc16 ([11] @ 6 # [0, 0x2C, 0, 2, lo_byte (crc16 [11, 6, 0, 0x2C, 0, 2]), hi_byte (crc16 [11, 6, 0, 0x2C, 0, 2])]) = 0 \<and>
   crc16 ([11] @ 3 # [0, 0x2C, 0, 2, lo_byte (crc16 [11, 6, 0, 0x2C, 0, 2]), hi_byte (crc16 [11, 6, 0, 0x2C, 0, 2])]) \<noteq> 0"
  by (rule crc16_detects_one_byte [where msg = "[11, 6, 0, 0x2C, 0, 2]"]) simp_all

end
