(* ===== verification/Rtu_Response.thy ===== *)
theory Rtu_Response
  imports Rtu_Frame Device "HOL-Library.Monad_Syntax"
begin

text \<open>
  The checks that the TCP client (\<open>src/modbus_client.c\<close>) and the serial client
  (\<open>src/modbus/modbus_serial_client.c\<close>) share on the bytes of a response.
\<close>

definition bytes_to_uint16 :: "u8 \<Rightarrow> u8 \<Rightarrow> u16" where
  "bytes_to_uint16 b0 b1 = join_bytes b0 b1"

text \<open>The checksum sent with a frame, low byte first, against the one computed from the rest.\<close>

definition crc_matches :: "u8 list \<Rightarrow> bool" where
  "crc_matches full_frame \<longleftrightarrow>
     (let total_len = length full_frame;
          crc_received = join_bytes (full_frame ! (total_len - 1)) (full_frame ! (total_len - 2));
          crc_calculated = crc16 (take (total_len - 2) full_frame)
      in crc_received = crc_calculated)"

definition response_values :: "nat \<Rightarrow> u8 list \<Rightarrow> i16 list" where
  "response_values read_count data_and_crc =
     map (\<lambda>i. bytes_to_uint16 (data_and_crc ! (i * 2)) (data_and_crc ! (i * 2 + 1))) [0..<read_count]"

text \<open>The tests on the eight bytes that answer a write request.\<close>

definition write_response_ok :: "u8 \<Rightarrow> u8 list \<Rightarrow> bool" where
  "write_response_ok slave_id response \<longleftrightarrow>
     response ! 1 AND 0x80 = 0 \<and> \<not> (response ! 0 \<noteq> slave_id \<or> response ! 1 \<noteq> 0x06) \<and> crc_matches response"

lemma length_with_crc [simp]: "length (with_crc body) = length body + 2"
  by (simp add: with_crc_def)

lemma crc16_with_crc [simp]: "crc16 (with_crc body) = 0"
  by (simp add: with_crc_def crc16_residue)

lemma with_crc_nth: "i < length body \<Longrightarrow> with_crc body ! i = body ! i"
  by (simp add: with_crc_def nth_append)

lemma crc_matches_with_crc [frame_simps]: "crc_matches (with_crc body)"
  by (simp add: crc_matches_def with_crc_def nth_append join_hi_lo Let_def)

lemma crc_matches_residue:
  assumes "crc_matches f" "2 \<le> length f"
  shows "crc16 f = 0"
proof -
  let ?n = "length f - 2"
  have "f = take ?n f @ drop ?n f" by simp
  also have "drop ?n f = [f ! ?n, f ! (?n + 1)]"
    using assms(2) by (auto simp: Cons_nth_drop_Suc [symmetric])
  finally have f: "f = take ?n f @ [f ! ?n, f ! (?n + 1)]" .
  have i: "length f - Suc 0 = ?n + 1" using assms(2) by simp
  have "join_bytes (f ! (?n + 1)) (f ! ?n) = crc16 (take ?n f)"
    using assms by (simp add: crc_matches_def Let_def i)
  then have "lo_byte (crc16 (take ?n f)) = f ! ?n" "hi_byte (crc16 (take ?n f)) = f ! (?n + 1)"
    by (metis lo_join hi_join)+
  then show ?thesis using crc16_residue [of "take ?n f"] f by simp
qed

section \<open>A device that speaks the protocol\<close>

text \<open>
  The contract of a device for the two requests the clients send: \<open>f\<close> is the request, \<open>r\<close> the
  registers before it, \<open>bs\<close> the answer and \<open>r'\<close> the registers after it. A read of a readable
  register is answered with its value and any other with an exception response; a write to a held
  register is stored and echoed. Held registers change in no other way.
\<close>

definition read_request :: "u8 \<Rightarrow> u16 \<Rightarrow> u8 list" where
  "read_request slave a = with_crc [slave, 3, hi_byte a, lo_byte a, 0, 1]"

definition write_request :: "u8 \<Rightarrow> u16 \<Rightarrow> u16 \<Rightarrow> u8 list" where
  "write_request slave a w = with_crc [slave, 6, hi_byte a, lo_byte a, hi_byte w, lo_byte w]"

definition rtu_answers ::
    "u8 \<Rightarrow> u16 set \<Rightarrow> u16 set \<Rightarrow> u8 list \<Rightarrow> (u16 \<Rightarrow> i16) \<Rightarrow> u8 list \<Rightarrow> (u16 \<Rightarrow> i16) \<Rightarrow> bool" where
  "rtu_answers slave held readable f r bs r' \<longleftrightarrow>
     (\<forall>a \<in> readable. f = read_request slave a \<longrightarrow>
        (\<exists>v. bs = with_crc [slave, 3, 2, hi_byte v, lo_byte v] \<and> (a \<in> held \<longrightarrow> v = r a)) \<and> (\<forall>s \<in> held. r' s = r s)) \<and>
     (\<forall>a. a \<notin> readable \<longrightarrow> f = read_request slave a \<longrightarrow>
        (\<exists>e. bs = with_crc [slave, 0x83, e]) \<and> (\<forall>s \<in> held. r' s = r s)) \<and>
     (\<forall>a \<in> held. \<forall>w. f = write_request slave a w \<longrightarrow> bs = f \<and> (\<forall>s \<in> held. r' s = (r(a := w)) s))"

lemma length_request [simp]: "length (read_request slave a) = 8" "length (write_request slave a w) = 8"
  by (simp_all add: read_request_def write_request_def)

lemma request_frames [frame_simps]:
  assumes "8 \<le> length buf"
  shows "take 8 (modbus_rtu_build_read_frame buf slave a 1) = read_request slave a"
    and "take 8 (modbus_rtu_build_write_frame buf slave a w) = write_request slave a w"
proof -
  have "hi_byte (1::u16) = 0" "lo_byte (1::u16) = 1" by (simp_all add: hi_byte_def lo_byte_def)
  with assms show "take 8 (modbus_rtu_build_read_frame buf slave a 1) = read_request slave a"
    by (simp add: read_frame_bytes read_request_def)
  show "take 8 (modbus_rtu_build_write_frame buf slave a w) = write_request slave a w"
    by (simp add: write_frame_bytes [OF assms] write_request_def)
qed

text \<open>In a buffer of eight bytes the request is the whole buffer.\<close>

lemma request_buffers [frame_simps]:
  "modbus_rtu_build_read_frame (replicate 8 0) slave a 1 = read_request slave a"
  "modbus_rtu_build_write_frame (replicate 8 0) slave a w = write_request slave a w"
proof -
  have l: "length (modbus_rtu_build_read_frame (replicate 8 0) slave a c) = 8"
      "length (modbus_rtu_build_write_frame (replicate 8 0) slave a w) = 8" for c
    by (simp_all add: modbus_rtu_build_read_frame_def modbus_rtu_build_write_frame_def Let_def)
  show "modbus_rtu_build_read_frame (replicate 8 0) slave a 1 = read_request slave a"
    using request_frames(1) [of "replicate 8 0" slave a] l(1) [of 1] by simp
  show "modbus_rtu_build_write_frame (replicate 8 0) slave a w = write_request slave a w"
    using request_frames(2) [of "replicate 8 0" slave a w] l(2) by simp
qed

text \<open>A response of one register as the clients receive it: a header of three bytes, then four.\<close>

definition value_tail :: "u8 \<Rightarrow> i16 \<Rightarrow> u8 list" where
  "value_tail slave v = drop 3 (with_crc [slave, 3, 2, hi_byte v, lo_byte v])"

lemma value_response:
  "with_crc [slave, 3, 2, hi_byte v, lo_byte v] = [slave, 3, 2] @ value_tail slave v"
  "length (value_tail slave v) = 4" "crc_matches (slave # 3 # 2 # value_tail slave v)"
  "response_values (Suc 0) (value_tail slave v) = [v]"
proof -
  show w: "with_crc [slave, 3, 2, hi_byte v, lo_byte v] = [slave, 3, 2] @ value_tail slave v"
    by (simp add: with_crc_def value_tail_def)
  then show "crc_matches (slave # 3 # 2 # value_tail slave v)"
    using crc_matches_with_crc by (metis append_Cons append_Nil)
  show "length (value_tail slave v) = 4" by (simp add: value_tail_def)
  show "response_values (Suc 0) (value_tail slave v) = [v]"
    by (simp add: response_values_def bytes_to_uint16_def value_tail_def with_crc_def)
qed

lemma exception_response:
  obtains t where "with_crc [slave, 0x83, e] = [slave, 0x83, e] @ t" "length t = 2"
  by (simp add: with_crc_def)

lemma rtu_answers_read:
  assumes "rtu_answers slave held readable (read_request slave a) r bs r'" "a \<in> readable"
  obtains v where "bs = [slave, 3, 2] @ value_tail slave v" "\<forall>s \<in> held. r' s = r s" "a \<in> held \<longrightarrow> v = r a"
  using conjunct1 [OF assms(1) [unfolded rtu_answers_def], rule_format, OF assms(2) refl] value_response(1) by metis

lemma rtu_answers_refused:
  assumes "rtu_answers slave held readable (read_request slave a) r bs r'" "a \<notin> readable"
  obtains e t where "bs = [slave, 0x83, e] @ t" "length t = 2" "\<forall>s \<in> held. r' s = r s"
proof -
  obtain e where e: "bs = with_crc [slave, 0x83, e]" "\<forall>s \<in> held. r' s = r s"
    using conjunct1 [OF conjunct2 [OF assms(1) [unfolded rtu_answers_def]], rule_format, OF assms(2) refl] by metis
  obtain t where "with_crc [slave, 0x83, e] = [slave, 0x83, e] @ t" "length t = 2" by (rule exception_response)
  with e show thesis by (intro that) simp_all
qed

lemma rtu_answers_write:
  assumes "rtu_answers slave held readable (write_request slave a w) r bs r'" "a \<in> held"
  shows "bs = write_request slave a w" "\<forall>s \<in> held. r' s = (r(a := w)) s"
  using conjunct2 [OF conjunct2 [OF assms(1) [unfolded rtu_answers_def]], rule_format, OF assms(2) refl] by metis+

lemma write_response_echo: "write_response_ok slave (write_request slave a w)"
  by (simp add: write_response_ok_def write_request_def crc_matches_with_crc with_crc_nth)

text \<open>
  A device for the concrete runs: it decodes any frame of eight bytes, serves the registers in
  \<open>served\<close> and refuses the others.
\<close>

definition rtu_device :: "u8 \<Rightarrow> u16 list \<Rightarrow> u8 list \<Rightarrow> (u16 \<Rightarrow> i16) \<Rightarrow> u8 list \<times> (u16 \<Rightarrow> i16)" where
  "rtu_device slave served f r =
     (let a = join_bytes (f ! 2) (f ! 3)
      in if length f \<noteq> 8 \<or> f ! 0 \<noteq> slave \<or> crc16 f \<noteq> 0 then ([], r)
         else if a \<notin> set served then (with_crc [slave, f ! 1 OR 0x80, 2], r)
         else if f ! 1 = 3 then (with_crc [slave, 3, 2, hi_byte (r a), lo_byte (r a)], r)
         else (f, r(a := join_bytes (f ! 4) (f ! 5))))"

lemma rtu_device_read:
  "rtu_device slave served (read_request slave a) r =
     (if a \<in> set served then with_crc [slave, 3, 2, hi_byte (r a), lo_byte (r a)] else with_crc [slave, 0x83, 2], r)"
  by (simp add: rtu_device_def read_request_def with_crc_nth Let_def)

lemma rtu_device_write:
  "a \<in> set served \<Longrightarrow> rtu_device slave served (write_request slave a w) r = (write_request slave a w, r(a := w))"
  by (simp add: rtu_device_def write_request_def with_crc_nth Let_def)

lemma rtu_device_answers:
  assumes "rtu_device slave served f r = (bs, r')"
  shows "rtu_answers slave (set served) (set served) f r bs r'"
  unfolding rtu_answers_def
proof (intro conjI ballI allI impI)
  fix a w s
  show "\<exists>v. bs = with_crc [slave, 3, 2, hi_byte v, lo_byte v] \<and> (a \<in> set served \<longrightarrow> v = r a)" "r' s = r s"
    if "a \<in> set served" "f = read_request slave a"
    using that assms by (auto simp: rtu_device_read)
  show "\<exists>e. bs = with_crc [slave, 0x83, e]" "r' s = r s" if "a \<notin> set served" "f = read_request slave a"
    using that assms by (auto simp: rtu_device_read)
  show "bs = f" "r' s = (r(a := w)) s" if "a \<in> set served" "f = write_request slave a w"
    using that assms by (auto simp: rtu_device_write)
qed

text \<open>The registers the control loop relies on.\<close>

definition pump_registers :: "u16 list" where
  "pump_registers =
     [REG_RUNNING_MODE, REG_DHW_TARGET, REG_HEATING_TARGET, REG_DHW_PRIORITY, REG_OCCUPANCY_MODE,
      REG_OUTDOOR_TEMP, REG_INDOOR_TEMP, REG_LEAVING_WATER_TEMP, REG_ENTERING_WATER_TEMP,
      REG_DHW_TANK_TEMP, REG_RUNNING_STATUS]"

end
