(* ===== verification/Tcp_Client.thy ===== *)
theory Tcp_Client
  imports Rtu_Response Control_Converge
begin

text \<open>
  The client of the Modbus gateway: the C functions of \<open>src/modbus_client.c\<close> (in the POSIX
  build) and the class \<open>ModbusClient\<close> of \<open>src/modbus/ModbusClient.cpp\<close> around them. The socket
  calls of the operating system are the parameter \<open>sk\<close>, working on a state \<open>'n\<close> of the network
  and the gateway; \<open>recv\<close> gives at most as many bytes as were asked for, an empty list standing
  for the results 0 and -1. \<open>None\<close> is a call that does not return (the flush of a socket whose
  peer never stops sending) or that writes outside a buffer. Log output and sleeping are left out.
\<close>

record 'n sockets =
  sk_socket :: "'n \<Rightarrow> int \<times> 'n"
  sk_pton :: "string \<Rightarrow> bool"
  sk_connect :: "int \<Rightarrow> string \<Rightarrow> u16 \<Rightarrow> 'n \<Rightarrow> int \<times> 'n"
  sk_close :: "int \<Rightarrow> 'n \<Rightarrow> 'n"
  sk_select :: "int \<Rightarrow> nat \<Rightarrow> 'n \<Rightarrow> int \<times> 'n"
  sk_recv :: "int \<Rightarrow> nat \<Rightarrow> 'n \<Rightarrow> u8 list \<times> 'n"
  sk_send :: "int \<Rightarrow> u8 list \<Rightarrow> 'n \<Rightarrow> int \<times> 'n"

record modbus_client_t =
  mc_ip :: string
  mc_port :: int
  mc_slave_id :: u8
  mc_socket_fd :: int
  mc_connected :: bool

abbreviation INVALID_SOCKET :: int where "INVALID_SOCKET \<equiv> - 1"
abbreviation MODBUS_MAX_FRAME :: nat where "MODBUS_MAX_FRAME \<equiv> 256"
abbreviation MODBUS_RECV_TIMEOUT_MS :: nat where "MODBUS_RECV_TIMEOUT_MS \<equiv> 2000"
abbreviation MODBUS_WRITE_MAX_RETRIES :: nat where "MODBUS_WRITE_MAX_RETRIES \<equiv> 3"
abbreviation MODBUS_READ_HEADER_LEN :: nat where "MODBUS_READ_HEADER_LEN \<equiv> 3"

section \<open>Connections\<close>

definition modbus_client_create :: "bool \<Rightarrow> string \<Rightarrow> int \<Rightarrow> u8 \<Rightarrow> modbus_client_t option" where
  "modbus_client_create memory ip port slave_id =
     (if \<not> memory then None
      else Some \<lparr>mc_ip = take 15 ip, mc_port = port, mc_slave_id = slave_id,
                 mc_socket_fd = INVALID_SOCKET, mc_connected = False\<rparr>)"

definition modbus_client_connect ::
    "'n sockets \<Rightarrow> modbus_client_t \<times> 'n \<Rightarrow> bool \<times> modbus_client_t \<times> 'n" where
  "modbus_client_connect sk cn = (case cn of (client, n) \<Rightarrow>
     if mc_connected client then (False, client, n)
     else case sk_socket sk n of (sock, n) \<Rightarrow>
       if sock = INVALID_SOCKET then (False, client, n)
       else if \<not> sk_pton sk (mc_ip client) then (False, client, sk_close sk sock n)
       else case sk_connect sk sock (mc_ip client) (to_u16 (mc_port client)) n of (rc, n) \<Rightarrow>
         if rc < 0 then (False, client, sk_close sk sock n)
         else (True, client\<lparr>mc_socket_fd := sock, mc_connected := True\<rparr>, n))"

definition modbus_client_disconnect :: "'n sockets \<Rightarrow> modbus_client_t \<times> 'n \<Rightarrow> modbus_client_t \<times> 'n" where
  "modbus_client_disconnect sk cn = (case cn of (client, n) \<Rightarrow>
     if mc_connected client \<and> mc_socket_fd client \<noteq> INVALID_SOCKET
     then (client\<lparr>mc_socket_fd := INVALID_SOCKET, mc_connected := False\<rparr>, sk_close sk (mc_socket_fd client) n)
     else (client, n))"

text \<open>\<open>free\<close> leaves nothing but the network behind.\<close>

definition modbus_client_destroy :: "'n sockets \<Rightarrow> modbus_client_t \<times> 'n \<Rightarrow> 'n" where
  "modbus_client_destroy sk cn = (case cn of (client, n) \<Rightarrow>
     if mc_connected client then snd (modbus_client_disconnect sk (client, n)) else n)"

definition modbus_client_is_connected :: "modbus_client_t \<Rightarrow> bool" where
  "modbus_client_is_connected client = mc_connected client"

section \<open>Frames on the socket\<close>

partial_function (option) flush_loop :: "'n sockets \<Rightarrow> int \<Rightarrow> nat \<Rightarrow> 'n \<Rightarrow> (nat \<times> 'n) option" where
  "flush_loop sk fd flushed n =
     (case sk_select sk fd 0 n of (ready, n) \<Rightarrow>
        if ready \<le> 0 then Some (flushed, n)
        else case sk_recv sk fd 128 n of (bs, n) \<Rightarrow>
          if bs = [] then Some (flushed, n)
          else flush_loop sk fd (flushed + length (take 128 bs)) n)"

declare flush_loop.simps [code]

definition flush_read_buffer :: "'n sockets \<Rightarrow> modbus_client_t \<times> 'n \<Rightarrow> (nat \<times> 'n) option" where
  "flush_read_buffer sk cn = (case cn of (client, n) \<Rightarrow>
     if mc_socket_fd client = INVALID_SOCKET then Some (0, n)
     else flush_loop sk (mc_socket_fd client) 0 n)"

definition send_frame :: "'n sockets \<Rightarrow> u8 list \<Rightarrow> modbus_client_t \<times> 'n \<Rightarrow> (bool \<times> 'n) option" where
  "send_frame sk request cn = do {
     (_, n) \<leftarrow> flush_read_buffer sk cn;
     case sk_send sk (mc_socket_fd (fst cn)) request n of
       (delivered, n) \<Rightarrow> Some (delivered = int (length request), n) }"

function receive_exact :: "'n sockets \<Rightarrow> int \<Rightarrow> nat \<Rightarrow> u8 list \<Rightarrow> 'n \<Rightarrow> u8 list option \<times> 'n" where
  "receive_exact sk fd expected_len acc n =
     (if length acc < expected_len
      then case sk_select sk fd MODBUS_RECV_TIMEOUT_MS n of (ready, n) \<Rightarrow>
        if ready \<le> 0 then (None, n)
        else case sk_recv sk fd (expected_len - length acc) n of (bs, n) \<Rightarrow>
          if bs = [] then (None, n)
          else receive_exact sk fd expected_len
                 (acc @ take (expected_len - length acc) bs) n
      else (Some acc, n))"
  by pat_completeness auto
termination
  by (relation "measure (\<lambda>(sk, fd, expected_len, acc, n). expected_len - length acc)")
    (auto simp: length_greater_0_conv [symmetric] simp del: length_greater_0_conv)

declare receive_exact.simps [simp del]

section \<open>Registers\<close>

text \<open>
  \<open>modbus_read_write_registers_internal\<close>: the inner \<open>option\<close> of the result is the return code, with
  the values on success. The copy into \<open>full_frame\<close> runs over its end when the response is long.
\<close>

definition modbus_read_write_registers_internal ::
    "'n sockets \<Rightarrow> u16 \<Rightarrow> u16 \<Rightarrow> bool \<Rightarrow> modbus_client_t \<times> 'n \<Rightarrow> (i16 list option \<times> modbus_client_t \<times> 'n) option" where
  "modbus_read_write_registers_internal sk address count single cn =
     (if \<not> mc_connected (fst cn) \<or> count = 0 then Some (None, cn)
      else
        let client = fst cn;
            down = client\<lparr>mc_connected := False\<rparr>;
            fd = mc_socket_fd client;
            read_count = (if single then 1 else count);
            request = take 8 (modbus_rtu_build_read_frame (replicate MODBUS_MAX_FRAME 0)
                              (mc_slave_id client) address read_count)
        in do {
          (delivered, n) \<leftarrow> send_frame sk request cn;
          if \<not> delivered then Some (None, down, n)
          else case receive_exact sk fd MODBUS_READ_HEADER_LEN [] n of
            (None, n) \<Rightarrow> Some (None, down, n)
          | (Some header, n) \<Rightarrow>
              if header ! 0 \<noteq> mc_slave_id client then Some (None, client, n)
              else if header ! 1 AND 0x80 \<noteq> 0
              then Some (None, client, snd (receive_exact sk fd 2 [] n))
              else if unat (header ! 2) \<noteq> unat read_count * 2 then Some (None, client, n)
              else
                let remaining = unat (header ! 2) + 2
                in case receive_exact sk fd remaining [] n of
                     (None, n) \<Rightarrow> Some (None, down, n)
                   | (Some data_and_crc, n) \<Rightarrow>
                       if MODBUS_READ_HEADER_LEN + remaining > MODBUS_MAX_FRAME then None
                       else if \<not> crc_matches (header @ data_and_crc) then Some (None, client, n)
                       else Some (Some (response_values (unat read_count) data_and_crc), client, n) })"

definition modbus_read_register ::
    "'n sockets \<Rightarrow> u16 \<Rightarrow> modbus_client_t \<times> 'n \<Rightarrow> (i16 option \<times> modbus_client_t \<times> 'n) option" where
  "modbus_read_register sk address cn = do {
     (r, cn) \<leftarrow> modbus_read_write_registers_internal sk address 1 True cn;
     Some (map_option hd r, cn) }"

definition modbus_read_registers ::
    "'n sockets \<Rightarrow> u16 \<Rightarrow> u16 \<Rightarrow> modbus_client_t \<times> 'n \<Rightarrow> (i16 list option \<times> modbus_client_t \<times> 'n) option" where
  "modbus_read_registers sk address count cn =
     (if count = 0 then Some (None, cn)
      else modbus_read_write_registers_internal sk address count False cn)"

text \<open>One round of the retry loop of \<open>modbus_write_register\<close>: whether it reached \<open>return 0\<close>.\<close>

definition write_attempt ::
    "'n sockets \<Rightarrow> u16 \<Rightarrow> u16 \<Rightarrow> modbus_client_t \<times> 'n \<Rightarrow> (bool \<times> modbus_client_t \<times> 'n) option" where
  "write_attempt sk address value cn =
     (let client = fst cn;
          request = take 8 (modbus_rtu_build_write_frame (replicate MODBUS_MAX_FRAME 0)
                            (mc_slave_id client) address value)
      in do {
        (delivered, n) \<leftarrow> send_frame sk request cn;
        if \<not> delivered then Some (False, client, n)
        else case receive_exact sk (mc_socket_fd client) 8 [] n of
          (None, n) \<Rightarrow> Some (False, client, n)
        | (Some response, n) \<Rightarrow>
            if \<not> write_response_ok (mc_slave_id client) response then Some (False, client, n)
            else do {
              (r, cn) \<leftarrow> modbus_read_register sk address (client, n);
              Some (r = Some value, cn) } })"

primrec write_retries ::
    "nat \<Rightarrow> 'n sockets \<Rightarrow> u16 \<Rightarrow> u16 \<Rightarrow> modbus_client_t \<times> 'n \<Rightarrow> (bool \<times> modbus_client_t \<times> 'n) option" where
  "write_retries 0 sk address value cn = Some (False, cn)"
| "write_retries (Suc k) sk address value cn = do {
     (done, cn) \<leftarrow> write_attempt sk address value cn;
     if done then Some (True, cn) else write_retries k sk address value cn }"

definition modbus_write_register ::
    "'n sockets \<Rightarrow> u16 \<Rightarrow> u16 \<Rightarrow> modbus_client_t \<times> 'n \<Rightarrow> (bool \<times> modbus_client_t \<times> 'n) option" where
  "modbus_write_register sk address value cn =
     (if \<not> mc_connected (fst cn) then Some (False, cn)
      else write_retries MODBUS_WRITE_MAX_RETRIES sk address value cn)"

section \<open>The class around the functions\<close>

text \<open>
  \<open>impl_->client\<close> is null after \<open>disconnect\<close>. The interface of a client has no result for a call that does not
  return, so a flush that goes on forever is shown here as an exception of its own, and \<open>flushBuffer\<close> then as a call without
  effect; the lemmas on a working link exclude it. The calls of the class read one register, which runs over
  no buffer.
\<close>

type_synonym 'n ModbusClient = "modbus_client_t option \<times> 'n"

definition ModbusClient_init ::
    "bool \<Rightarrow> string \<Rightarrow> int \<Rightarrow> u8 \<Rightarrow> 'n \<Rightarrow> ModbusException + 'n ModbusClient" where
  "ModbusClient_init memory host port slave_id n =
     (case modbus_client_create memory host port slave_id of
        None \<Rightarrow> Inl (ModbusException ''Failed to create Modbus client'')
      | Some c \<Rightarrow> Inr (Some c, n))"

definition tcp_connect :: "'n sockets \<Rightarrow> 'n ModbusClient \<Rightarrow> bool \<times> 'n ModbusClient" where
  "tcp_connect sk m = (case m of
     (None, n) \<Rightarrow> (False, m)
   | (Some c, n) \<Rightarrow> (case modbus_client_connect sk (c, n) of (b, c', n') \<Rightarrow> (b, Some c', n')))"

definition tcp_disconnect :: "'n sockets \<Rightarrow> 'n ModbusClient \<Rightarrow> 'n ModbusClient" where
  "tcp_disconnect sk m = (case m of
     (None, n) \<Rightarrow> m
   | (Some c, n) \<Rightarrow> (None, modbus_client_destroy sk (modbus_client_disconnect sk (c, n))))"

definition tcp_isConnected :: "'n ModbusClient \<Rightarrow> bool" where
  "tcp_isConnected m = (case fst m of None \<Rightarrow> False | Some c \<Rightarrow> modbus_client_is_connected c)"

definition tcp_readRegister ::
    "'n sockets \<Rightarrow> u16 \<Rightarrow> 'n ModbusClient \<Rightarrow> (ModbusException, i16, 'n ModbusClient) outcome" where
  "tcp_readRegister sk a m = (case m of
     (None, n) \<Rightarrow> (Inl (ModbusException ''Not connected''), m)
   | (Some c, n) \<Rightarrow> (case modbus_read_register sk a (c, n) of
        None \<Rightarrow> (Inl (ModbusException ''(does not return)''), m)
      | Some (None, c', n') \<Rightarrow> (Inl (ModbusException ''Failed to read register''), Some c', n')
      | Some (Some v, c', n') \<Rightarrow> (Inr v, Some c', n')))"

definition tcp_writeRegister ::
    "'n sockets \<Rightarrow> u16 \<Rightarrow> u16 \<Rightarrow> 'n ModbusClient \<Rightarrow> (ModbusException, unit, 'n ModbusClient) outcome" where
  "tcp_writeRegister sk a v m = (case m of
     (None, n) \<Rightarrow> (Inl (ModbusException ''Not connected''), m)
   | (Some c, n) \<Rightarrow> (case modbus_write_register sk a v (c, n) of
        None \<Rightarrow> (Inl (ModbusException ''(does not return)''), m)
      | Some (False, c', n') \<Rightarrow> (Inl (ModbusException ''Failed to write register''), Some c', n')
      | Some (True, c', n') \<Rightarrow> (Inr (), Some c', n')))"

definition tcp_flushBuffer :: "'n sockets \<Rightarrow> 'n ModbusClient \<Rightarrow> 'n ModbusClient" where
  "tcp_flushBuffer sk m = (case m of
     (None, n) \<Rightarrow> m
   | (Some c, n) \<Rightarrow> (case flush_read_buffer sk (c, n) of None \<Rightarrow> m | Some (_, n') \<Rightarrow> (Some c, n')))"

definition tcp_ops :: "'n sockets \<Rightarrow> 'n ModbusClient IModbusClient" where
  "tcp_ops sk =
     \<lparr>m_connect = tcp_connect sk, m_disconnect = tcp_disconnect sk, m_isConnected = tcp_isConnected,
      m_readRegister = tcp_readRegister sk, m_writeRegister = tcp_writeRegister sk,
      m_flushBuffer = tcp_flushBuffer sk, m_getLastError = (\<lambda>m. ''No error'')\<rparr>"

section \<open>A working link\<close>

text \<open>
  The contract of an open socket \<open>fd\<close> to a device that speaks the protocol: \<open>rx\<close> are the bytes
  that have arrived and \<open>regs\<close> the registers of the device. Data arrives before the timeout, in
  pieces of any size, and a request is answered as \<open>rtu_answers\<close> says.
\<close>

locale rtu_link =
  fixes sk :: "'n sockets" and slave :: u8 and fd :: int and link :: "'n \<Rightarrow> bool"
    and rx :: "'n \<Rightarrow> u8 list" and regs :: "'n \<Rightarrow> u16 \<Rightarrow> i16"
    and held :: "u16 set" and readable :: "u16 set"
  assumes fd_valid: "fd \<noteq> INVALID_SOCKET"
    and select_rx: "link n \<Longrightarrow> sk_select sk fd t n = (if rx n = [] then 0 else 1, n)"
    and recv_rx: "link n \<Longrightarrow> rx n \<noteq> [] \<Longrightarrow> 0 < k \<Longrightarrow>
      \<exists>bs n'. sk_recv sk fd k n = (bs, n') \<and> bs \<noteq> [] \<and> length bs \<le> k \<and> rx n = bs @ rx n' \<and>
        link n' \<and> regs n' = regs n"
    and send_rx: "link n \<Longrightarrow> rx n = [] \<Longrightarrow>
      \<exists>n'. sk_send sk fd f n = (int (length f), n') \<and> link n' \<and>
        rtu_answers slave held readable f (regs n) (rx n') (regs n')"
    and held_readable: "held \<subseteq> readable"
begin

lemma flush_link:
  assumes "link n"
  shows "\<exists>m n'. flush_loop sk fd k n = Some (m, n') \<and> link n' \<and> rx n' = [] \<and> regs n' = regs n"
  using assms
proof (induction "length (rx n)" arbitrary: n k rule: less_induct)
  case less
  show ?case
  proof (cases "rx n = []")
    case True
    with less.prems select_rx [of n 0] show ?thesis by (subst flush_loop.simps) simp
  next
    case False
    obtain bs n1 where r: "sk_recv sk fd 128 n = (bs, n1)" "bs \<noteq> []" "rx n = bs @ rx n1" "link n1" "regs n1 = regs n"
      using recv_rx [OF less.prems False, of 128] by auto
    have "length (rx n1) < length (rx n)" using r(2,3) by (cases bs) auto
    from less.hyps [OF this r(4), of "k + length (take 128 bs)"] r False less.prems select_rx [of n 0]
    show ?thesis by (subst flush_loop.simps) simp
  qed
qed

lemma receive_link:
  assumes "link n" "rx n = ys @ zs" "length acc + length ys = want"
  shows "\<exists>n'. receive_exact sk fd want acc n = (Some (acc @ ys), n') \<and> link n' \<and> rx n' = zs \<and> regs n' = regs n"
  using assms
proof (induction "length ys" arbitrary: n ys acc rule: less_induct)
  case less
  show ?case
  proof (cases "ys = []")
    case True
    then show ?thesis using less.prems by (subst receive_exact.simps) simp
  next
    case False
    then have k: "0 < want - length acc" "rx n \<noteq> []" "length ys = want - length acc" using less.prems by auto
    obtain bs n1 where r: "sk_recv sk fd (want - length acc) n = (bs, n1)" "bs \<noteq> []" "length bs \<le> want - length acc"
        "rx n = bs @ rx n1" "link n1" "regs n1 = regs n"
      using recv_rx [OF less.prems(1) k(2,1)] by auto
    then have "bs @ rx n1 = ys @ zs" using less.prems(2) by simp
    then have "bs = take (length bs) ys" "rx n1 = drop (length bs) ys @ zs"
      using r(3) k(3) by (auto simp: append_eq_conv_conj)
    then obtain ys1 where ys: "ys = bs @ ys1" "rx n1 = ys1 @ zs"
      by (metis append_take_drop_id)
    have "length ys1 < length ys" using ys(1) r(2) by (cases bs) auto
    moreover have "length (acc @ bs) + length ys1 = want" using less.prems(3) ys(1) by simp
    ultimately obtain n' where "receive_exact sk fd want (acc @ bs) n1 = (Some ((acc @ bs) @ ys1), n')"
        "link n'" "rx n' = zs" "regs n' = regs n1"
      using less.hyps [of ys1 n1 "acc @ bs"] r(5) ys(2) by blast
    with r ys k less.prems select_rx [of n MODBUS_RECV_TIMEOUT_MS] show ?thesis
      by (subst receive_exact.simps) simp
  qed
qed

lemma send_link:
  assumes "link n" "mc_socket_fd c = fd"
  obtains n1 where "link n1" "send_frame sk f (c, n) = Some (True, n1)"
    "rtu_answers slave held readable f (regs n) (rx n1) (regs n1)"
proof -
  obtain m n0 where n0: "flush_loop sk fd 0 n = Some (m, n0)" "link n0" "rx n0 = []" "regs n0 = regs n"
    using flush_link [OF assms(1)] by blast
  obtain n1 where "sk_send sk fd f n0 = (int (length f), n1)" "link n1"
      "rtu_answers slave held readable f (regs n0) (rx n1) (regs n1)"
    using send_rx [OF n0(2,3)] by blast
  with n0 assms(2) fd_valid show thesis
    by (intro that [of n1]) (auto simp: send_frame_def flush_read_buffer_def)
qed

lemma receive_link0:
  assumes "link n" "rx n = ys @ zs" "length ys = want"
  obtains n' where "receive_exact sk fd want [] n = (Some ys, n')" "link n'" "rx n' = zs" "regs n' = regs n"
  using receive_link [OF assms(1,2), of "[]" want] assms(3) by auto

abbreviation linked :: "modbus_client_t \<Rightarrow> bool" where
  "linked c \<equiv> mc_connected c \<and> mc_socket_fd c = fd \<and> mc_slave_id c = slave"

lemma read_link:
  assumes "link n" "linked c" "a \<in> readable"
  shows "\<exists>v n'. modbus_read_register sk a (c, n) = Some (Some v, c, n') \<and> link n' \<and>
    (\<forall>s \<in> held. regs n' s = regs n s) \<and> (a \<in> held \<longrightarrow> v = regs n a)"
proof -
  obtain n1 where n1: "link n1" "send_frame sk (read_request slave a) (c, n) = Some (True, n1)"
      "rtu_answers slave held readable (read_request slave a) (regs n) (rx n1) (regs n1)"
    using send_link [of n c] assms(1,2) by blast
  obtain v where v: "rx n1 = [slave, 3, 2] @ value_tail slave v" "\<forall>s \<in> held. regs n1 s = regs n s"
      "a \<in> held \<longrightarrow> v = regs n a"
    using n1(3) assms(3) by (rule rtu_answers_read)
  obtain n2 where n2: "receive_exact sk fd 3 [] n1 = (Some [slave, 3, 2], n2)" "link n2" "rx n2 = value_tail slave v @ []"
      "regs n2 = regs n1"
    using receive_link0 [OF n1(1) v(1), of 3] by auto
  obtain n3 where n3: "receive_exact sk fd 4 [] n2 = (Some (value_tail slave v), n3)" "link n3" "regs n3 = regs n2"
    using receive_link0 [OF n2(2,3), of 4] by (auto simp: value_response)
  have "modbus_read_register sk a (c, n) = Some (Some v, c, n3)"
    using assms(2) n1(2) n2(1) n3(1)
    by (simp add: modbus_read_register_def modbus_read_write_registers_internal_def request_frames Let_def value_response)
  with v n2 n3 show ?thesis by auto
qed

lemma read_link_refused:
  assumes "link n" "linked c" "a \<notin> readable"
  shows "\<exists>n'. modbus_read_register sk a (c, n) = Some (None, c, n') \<and> link n' \<and> (\<forall>s \<in> held. regs n' s = regs n s)"
proof -
  obtain n1 where n1: "link n1" "send_frame sk (read_request slave a) (c, n) = Some (True, n1)"
      "rtu_answers slave held readable (read_request slave a) (regs n) (rx n1) (regs n1)"
    using send_link [of n c] assms(1,2) by blast
  obtain e t where e: "rx n1 = [slave, 0x83, e] @ t" "length t = 2" "\<forall>s \<in> held. regs n1 s = regs n s"
    using n1(3) assms(3) by (rule rtu_answers_refused)
  obtain n2 where n2: "receive_exact sk fd 3 [] n1 = (Some [slave, 0x83, e], n2)" "link n2" "rx n2 = t @ []" "regs n2 = regs n1"
    using receive_link0 [OF n1(1) e(1), of 3] by auto
  obtain n3 where n3: "receive_exact sk fd 2 [] n2 = (Some t, n3)" "link n3" "regs n3 = regs n2"
    using receive_link0 [OF n2(2,3) e(2)] by auto
  have "modbus_read_register sk a (c, n) = Some (None, c, n3)"
    using assms(2) n1(2) n2(1) n3(1)
    by (simp add: modbus_read_register_def modbus_read_write_registers_internal_def request_frames Let_def)
  with e n2 n3 show ?thesis by auto
qed

lemma write_link:
  assumes "link n" "linked c" "a \<in> held"
  shows "\<exists>n'. modbus_write_register sk a w (c, n) = Some (True, c, n') \<and> link n' \<and>
    (\<forall>s \<in> held. regs n' s = ((regs n)(a := w)) s)"
proof -
  obtain n1 where n1: "link n1" "send_frame sk (write_request slave a w) (c, n) = Some (True, n1)"
      "rtu_answers slave held readable (write_request slave a w) (regs n) (rx n1) (regs n1)"
    using send_link [of n c] assms(1,2) by blast
  have r: "rx n1 = write_request slave a w @ []" "\<forall>s \<in> held. regs n1 s = ((regs n)(a := w)) s"
    using rtu_answers_write [OF n1(3) assms(3)] by auto
  obtain n2 where n2: "receive_exact sk fd 8 [] n1 = (Some (write_request slave a w), n2)" "link n2" "regs n2 = regs n1"
    using receive_link0 [OF n1(1) r(1), of 8] by auto
  obtain v n3 where n3: "modbus_read_register sk a (c, n2) = Some (Some v, c, n3)" "link n3"
      "\<forall>s \<in> held. regs n3 s = regs n2 s" "a \<in> held \<longrightarrow> v = regs n2 a"
    using read_link [OF n2(2) assms(2), of a] assms(3) held_readable by blast
  have "v = w" using n3(4) n2(3) assms(3) bspec [OF r(2) assms(3)] by simp
  then have "write_attempt sk a w (c, n) = Some (True, c, n3)"
    using assms(2) n1(2) n2(1) n3(1) by (simp add: write_attempt_def request_frames Let_def write_response_echo)
  then have "modbus_write_register sk a w (c, n) = Some (True, c, n3)"
    using assms(2) by (simp add: modbus_write_register_def numeral_3_eq_3)
  moreover have "\<forall>s \<in> held. regs n3 s = ((regs n)(a := w)) s"
    using r(2) n2(3) n3(3) by simp
  ultimately show ?thesis using n3(2) by blast
qed

end

text \<open>The class over a working link, the descriptor and the slave id agreed on, keeps the contract of a device.\<close>

definition tcp_ready :: "u8 \<Rightarrow> int \<Rightarrow> ('n \<Rightarrow> bool) \<Rightarrow> 'n ModbusClient \<Rightarrow> bool" where
  "tcp_ready slave fd link m \<longleftrightarrow>
     (\<exists>c. fst m = Some c \<and> mc_connected c \<and> mc_socket_fd c = fd \<and> mc_slave_id c = slave) \<and> link (snd m)"

sublocale rtu_link \<subseteq> held_registers "tcp_ops sk" "tcp_ready slave fd link" "\<lambda>m. regs (snd m)" held readable
proof unfold_locales
  fix m :: "'n ModbusClient" and a v m' and r :: "ModbusException + i16"
  assume m: "tcp_ready slave fd link m"
  then obtain c n where c: "m = (Some c, n)" "linked c" "link n" by (cases m) (auto simp: tcp_ready_def)
  then show "m_isConnected (tcp_ops sk) m"
    by (simp add: tcp_ops_def tcp_isConnected_def modbus_client_is_connected_def)
  show "a \<in> readable \<Longrightarrow> \<exists>v m'. m_readRegister (tcp_ops sk) a m = (Inr v, m')"
    using read_link [OF c(3,2)] c(1) by (fastforce simp: tcp_ops_def tcp_readRegister_def)
  show "tcp_ready slave fd link m' \<and> (\<forall>s \<in> held. regs (snd m') s = regs (snd m) s)"
    if "m_readRegister (tcp_ops sk) a m = (r, m')"
    using that read_link [OF c(3,2), of a] read_link_refused [OF c(3,2), of a] c
    by (cases "a \<in> readable") (auto simp: tcp_ops_def tcp_readRegister_def tcp_ready_def)
  show "v = regs (snd m) a" if "a \<in> held" "m_readRegister (tcp_ops sk) a m = (Inr v, m')"
    using that read_link [OF c(3,2), of a] subsetD [OF held_readable, of a] c
    by (auto simp: tcp_ops_def tcp_readRegister_def)
  show "\<exists>m'. m_writeRegister (tcp_ops sk) a v m = (Inr (), m') \<and> tcp_ready slave fd link m' \<and>
      (\<forall>s \<in> held. regs (snd m') s = ((regs (snd m))(a := v)) s)" if "a \<in> held"
    using write_link [OF c(3,2) that, of v] c
    by (auto simp: tcp_ops_def tcp_writeRegister_def tcp_ready_def simp del: fun_upd_apply)
qed

text \<open>With the registers the control loop relies on among the held ones, the link is a heat pump for it.\<close>

locale rtu_heat_pump = rtu_link sk slave fd link rx regs held readable
  for sk :: "'n sockets" and slave fd link rx regs held readable +
  assumes link_held:
      "{REG_RUNNING_MODE, REG_DHW_TARGET, REG_HEATING_TARGET, REG_DHW_PRIORITY, REG_OCCUPANCY_MODE} \<subseteq> held"
    and link_readable:
      "{REG_OUTDOOR_TEMP, REG_INDOOR_TEMP, REG_LEAVING_WATER_TEMP, REG_ENTERING_WATER_TEMP,
        REG_DHW_TANK_TEMP, REG_RUNNING_MODE, REG_RUNNING_STATUS, REG_DHW_TARGET, REG_HEATING_TARGET,
        REG_DHW_PRIORITY} \<subseteq> readable"

sublocale rtu_heat_pump \<subseteq> heat_pump "tcp_ops sk" "tcp_ready slave fd link" "\<lambda>m. regs (snd m)" held readable
proof unfold_locales
  show "tcp_ready slave fd link m'" if "tcp_ready slave fd link m" "m_connect (tcp_ops sk) m = (b, m')" for m b m'
    using that by (cases m) (auto simp: tcp_ops_def tcp_connect_def modbus_client_connect_def tcp_ready_def)
qed (use link_held link_readable in simp_all)

section \<open>A gateway\<close>

text \<open>
  A gateway with one device behind it, for the concrete runs: it serves the registers in
  \<open>served\<close> and hands its answers out in pieces of at most \<open>Suc chunk\<close> bytes.
\<close>

record gateway =
  gw_rx :: "u8 list"
  gw_regs :: "u16 \<Rightarrow> i16"

definition gw_answer :: "u8 \<Rightarrow> u16 list \<Rightarrow> u8 list \<Rightarrow> gateway \<Rightarrow> gateway" where
  "gw_answer slave served f g = (case rtu_device slave served f (gw_regs g) of
     (bs, r) \<Rightarrow> \<lparr>gw_rx = gw_rx g @ bs, gw_regs = r\<rparr>)"

definition gateway_sockets :: "u8 \<Rightarrow> u16 list \<Rightarrow> nat \<Rightarrow> gateway sockets" where
  "gateway_sockets slave served chunk =
     \<lparr>sk_socket = (\<lambda>g. (3, g)), sk_pton = (\<lambda>ip. True), sk_connect = (\<lambda>fd ip port g. (0, g)),
      sk_close = (\<lambda>fd g. g), sk_select = (\<lambda>fd t g. (if gw_rx g = [] then 0 else 1, g)),
      sk_recv = (\<lambda>fd k g. let j = min k (Suc chunk) in (take j (gw_rx g), g\<lparr>gw_rx := drop j (gw_rx g)\<rparr>)),
      sk_send = (\<lambda>fd f g. (int (length f), gw_answer slave served f g))\<rparr>"

interpretation gw: rtu_link "gateway_sockets slave served chunk" slave 3 "\<lambda>g. True" gw_rx gw_regs "set served" "set served"
  for slave :: u8 and served :: "u16 list" and chunk :: nat
proof unfold_locales
  fix g :: gateway and a w :: u16 and k :: nat
  assume "0 < k" "gw_rx g \<noteq> []"
  then show "\<exists>bs g'. sk_recv (gateway_sockets slave served chunk) 3 k g = (bs, g') \<and> bs \<noteq> [] \<and> length bs \<le> k \<and>
      gw_rx g = bs @ gw_rx g' \<and> True \<and> gw_regs g' = gw_regs g"
    by (auto simp: gateway_sockets_def Let_def)
qed (auto simp: gateway_sockets_def gw_answer_def split: prod.splits dest: rtu_device_answers)

interpretation gwp: rtu_heat_pump "gateway_sockets slave pump_registers chunk" slave 3 "\<lambda>g. True" gw_rx gw_regs
    "set pump_registers" "set pump_registers"
  for slave :: u8 and chunk :: nat
  by unfold_locales (simp_all add: pump_registers_def)

end
