(* ===== verification/Tcp_Correct.thy ===== *)
theory Tcp_Correct
  imports Tcp_Client
begin

text \<open>
  What the network client guarantees: the evidence behind a successful read and a successful write,
  what is left of the object after a failure, that the flush returns, the bounds of the frame
  buffers, and the convergence of the control loop over the wire.
\<close>

section \<open>What a success means\<close>

lemma send_frame_SomeE:
  assumes "send_frame sk f cn = Some (b, n')"
  obtains k n1 where "flush_read_buffer sk cn = Some (k, n1)"
    "b = (fst (sk_send sk (mc_socket_fd (fst cn)) f n1) = int (length f))"
    "n' = snd (sk_send sk (mc_socket_fd (fst cn)) f n1)"
  using assms by (auto simp: send_frame_def split: bind_splits prod.splits)

lemma receive_exact_length:
  assumes "receive_exact sk fd want acc n = (Some bs, n')" "length acc \<le> want"
  shows "length bs = want"
  using assms
proof (induction sk fd want acc n rule: receive_exact.induct)
  case (1 sk fd want acc n)
  show ?case
    using 1 (2) [unfolded receive_exact.simps [of sk fd want acc n]] 1 (1,3)
    by (auto split: prod.splits if_splits)
qed

text \<open>A response that the checks accept, for \<open>k\<close> registers of the slave, and the values in it.\<close>

definition genuine :: "u8 \<Rightarrow> nat \<Rightarrow> u8 list \<Rightarrow> i16 list \<Rightarrow> bool" where
  "genuine slave k f vs \<longleftrightarrow>
     length f = 2 * k + 5 \<and> length f \<le> MODBUS_MAX_FRAME \<and> crc16 f = 0 \<and> f ! 0 = slave \<and>
     f ! 1 AND 0x80 = 0 \<and> unat (f ! 2) = 2 * k \<and> length vs = k \<and>
     (\<forall>i < k. hi_byte (vs ! i) = f ! (3 + 2 * i) \<and> lo_byte (vs ! i) = f ! (4 + 2 * i))"

lemma genuineI:
  assumes "length h = 3" "length d = 2 * k + 2" "2 * k + 5 \<le> MODBUS_MAX_FRAME" "crc_matches (h @ d)"
    and "h ! 0 = slave" "h ! 1 AND 0x80 = 0" "unat (h ! 2) = 2 * k"
  shows "genuine slave k (h @ d) (response_values k d)"
proof -
  have "crc16 (h @ d) = 0" using assms(1,2,4) by (intro crc_matches_residue) auto
  with assms show ?thesis
    by (auto simp: genuine_def response_values_def bytes_to_uint16_def nth_append ac_simps)
qed

lemma read_internal_success:
  assumes "modbus_read_write_registers_internal sk a count single (c, n) = Some (Some vs, c', n')"
    and "k = (if single then 1 else unat count)"
  obtains n1 h n2 d where "mc_connected c" "c' = c"
    "send_frame sk (take 8 (modbus_rtu_build_read_frame (replicate MODBUS_MAX_FRAME 0) (mc_slave_id c) a
        (if single then 1 else count))) (c, n) = Some (True, n1)"
    "receive_exact sk (mc_socket_fd c) 3 [] n1 = (Some h, n2)"
    "receive_exact sk (mc_socket_fd c) (2 * k + 2) [] n2 = (Some d, n')"
    "genuine (mc_slave_id c) k (h @ d) vs"
proof -
  let ?count = "if single then 1 else count"
  let ?req = "take 8 (modbus_rtu_build_read_frame (replicate MODBUS_MAX_FRAME 0) (mc_slave_id c) a ?count)"
  note run = assms(1) [unfolded modbus_read_write_registers_internal_def Let_def fst_conv snd_conv]
  have c: "mc_connected c" "\<not> (\<not> mc_connected c \<or> count = 0)" using run by (auto split: if_splits)
  note run = run [unfolded if_not_P [OF c(2)]]
  obtain b n1 where s: "send_frame sk ?req (c, n) = Some (b, n1)"
    using run by (cases "send_frame sk ?req (c, n)") (simp_all, metis prod.collapse)
  note run = run [unfolded s Option.bind.simps prod.case]
  have b: b using run by (cases b) simp_all
  obtain ho n2 where h: "receive_exact sk (mc_socket_fd c) 3 [] n1 = (ho, n2)" by (cases "receive_exact sk (mc_socket_fd c) 3 [] n1")
  obtain h where ho: "ho = Some h" using run b by (cases ho) (simp_all add: h)
  note run = run [simplified b h ho, simplified]
  have hs: "h ! 0 = mc_slave_id c" "h ! 1 AND 0x80 = 0" "unat (h ! 2) = unat ?count * 2"
    using run by (auto split: if_splits)
  obtain dop n3 where d: "receive_exact sk (mc_socket_fd c) (unat (h ! 2) + 2) [] n2 = (dop, n3)"
    by (cases "receive_exact sk (mc_socket_fd c) (unat (h ! 2) + 2) [] n2")
  obtain d where dd: "dop = Some d" using run hs d by (cases dop) (auto split: if_splits)
  have r: "3 + (unat (h ! 2) + 2) \<le> MODBUS_MAX_FRAME" "crc_matches (h @ d)"
      "vs = response_values (unat ?count) d" "c' = c" "n' = n3"
    using run hs d dd by (auto split: if_splits)
  have k: "unat (if single then 1 else count :: u16) = k" using assms(2) by simp
  have l: "length h = 3" "length d = 2 * k + 2"
    using receive_exact_length [OF h [unfolded ho]] receive_exact_length [OF d [unfolded dd]] hs(3) k by simp_all
  show thesis
    using s b h ho hs d dd r k genuineI [OF l, of "mc_slave_id c"] by (intro that [OF c(1) r(4), of n1 h n2 d]) (auto simp: ac_simps)
qed

lemma read_register_success:
  assumes "modbus_read_register sk a (c, n) = Some (Some v, c', n')"
  shows "modbus_read_write_registers_internal sk a 1 True (c, n) = Some (Some [v], c', n')"
proof -
  obtain vs where i: "modbus_read_write_registers_internal sk a 1 True (c, n) = Some (Some vs, c', n')" "v = hd vs"
    using assms by (auto simp: modbus_read_register_def split: bind_splits)
  have "length vs = 1" using read_internal_success [OF i(1) refl] by (auto simp: genuine_def)
  with i show ?thesis by (cases vs) auto
qed

lemma read_request_frame:
  "take 8 (modbus_rtu_build_read_frame (replicate MODBUS_MAX_FRAME 0) slave a k) =
     with_crc [slave, 3, hi_byte a, lo_byte a, hi_byte k, lo_byte k]"
  by (simp only: frame_simps length_replicate numeral_le_iff semiring_norm)

lemma read_register_frames:
  assumes "modbus_read_register sk a (c, n) = Some (Some v, c', n')"
  shows "mc_connected c \<and> c' = c \<and> (\<exists>n1 h n2 d.
    send_frame sk (with_crc [mc_slave_id c, 3, hi_byte a, lo_byte a, 0, 1]) (c, n) = Some (True, n1) \<and>
    receive_exact sk (mc_socket_fd c) 3 [] n1 = (Some h, n2) \<and> receive_exact sk (mc_socket_fd c) 4 [] n2 = (Some d, n') \<and>
    genuine (mc_slave_id c) 1 (h @ d) [v])"
proof -
  have "hi_byte 1 = 0" "lo_byte 1 = 1" by (simp_all add: hi_byte_def lo_byte_def)
  with read_internal_success [OF read_register_success [OF assms] refl, unfolded read_request_frame] show ?thesis by fastforce
qed

lemma read_unconnected:
  "\<not> mc_connected c \<Longrightarrow> modbus_read_register sk a (c, n) = Some (None, c, n)"
  by (simp add: modbus_read_register_def modbus_read_write_registers_internal_def)

text \<open>The calls keep the descriptor and the slave id; all they change in the object is the flag.\<close>

definition same_conn :: "modbus_client_t \<Rightarrow> modbus_client_t \<Rightarrow> bool" where
  "same_conn c c' \<longleftrightarrow> c' = c \<or> c' = c\<lparr>mc_connected := False\<rparr>"

lemma same_conn_trans: "same_conn c c' \<Longrightarrow> same_conn c' c'' \<Longrightarrow> same_conn c c''"
  by (auto simp: same_conn_def)

lemma same_conn_sel:
  "same_conn c c' \<Longrightarrow> mc_socket_fd c' = mc_socket_fd c \<and> mc_slave_id c' = mc_slave_id c \<and> (mc_connected c' \<longrightarrow> mc_connected c)"
  by (auto simp: same_conn_def)

lemma same_conn_simps [simp]: "same_conn c c" "same_conn c (c\<lparr>mc_connected := False\<rparr>)"
  by (simp_all add: same_conn_def)

lemma read_internal_conn:
  assumes "modbus_read_write_registers_internal sk a count single (c, n) = Some (r, c', n')"
  shows "same_conn c c'"
proof (cases "mc_connected c \<and> count \<noteq> 0")
  case True
  let ?req = "take 8 (modbus_rtu_build_read_frame (replicate MODBUS_MAX_FRAME 0) (mc_slave_id c) a (if single then 1 else count))"
  note run = assms [unfolded modbus_read_write_registers_internal_def Let_def fst_conv snd_conv]
  obtain b n1 where s: "send_frame sk ?req (c, n) = Some (b, n1)"
    using run True by (cases "send_frame sk ?req (c, n)") (simp_all, metis prod.collapse)
  obtain ho n2 where h: "receive_exact sk (mc_socket_fd c) 3 [] n1 = (ho, n2)" by (cases "receive_exact sk (mc_socket_fd c) 3 [] n1")
  show ?thesis
  proof (cases "b \<and> ho \<noteq> None")
    case True': True
    then obtain header where "ho = Some header" by auto
    with run True True' s h show ?thesis by (auto split: prod.splits option.splits if_splits)
  next
    case False
    with run True s h show ?thesis by (cases b; cases ho) auto
  qed
qed (use assms in \<open>auto simp: modbus_read_write_registers_internal_def split: if_splits\<close>)

lemma read_register_conn:
  "modbus_read_register sk a (c, n) = Some (r, c', n') \<Longrightarrow> same_conn c c'"
  by (auto simp: modbus_read_register_def split: bind_splits dest: read_internal_conn)

lemma write_attempt_conn:
  assumes "write_attempt sk a v (c, n) = Some (b, c', n')"
  shows "same_conn c c'"
  using assms read_register_conn
  by (fastforce simp: write_attempt_def Let_def split: bind_splits if_splits prod.splits option.splits)

lemma write_retries_success:
  assumes "write_retries k sk a v (c, n) = Some (True, c', n')"
  shows "\<exists>j < k. \<exists>c1 m0. write_retries j sk a v (c, n) = Some (False, c1, m0) \<and> same_conn c c1 \<and>
    write_attempt sk a v (c1, m0) = Some (True, c', n')"
  using assms
proof (induction k arbitrary: c n)
  case (Suc k)
  then obtain b c2 n2 where w: "write_attempt sk a v (c, n) = Some (b, c2, n2)" by (auto split: bind_splits)
  show ?case
  proof (cases b)
    case True
    with Suc.prems w show ?thesis by (intro exI [of _ 0]) simp
  next
    case False
    with Suc.prems w have "write_retries k sk a v (c2, n2) = Some (True, c', n')" by simp
    from Suc.IH [OF this] obtain j c1 m0 where "j < k" "write_retries j sk a v (c2, n2) = Some (False, c1, m0)"
      "same_conn c2 c1" "write_attempt sk a v (c1, m0) = Some (True, c', n')" by blast
    with w False write_attempt_conn [OF w] show ?thesis
      by (intro exI [of _ "Suc j"]) (auto intro: same_conn_trans)
  qed
qed simp

lemma write_request_frame:
  "take 8 (modbus_rtu_build_write_frame (replicate MODBUS_MAX_FRAME 0) slave a v) =
     with_crc [slave, 6, hi_byte a, lo_byte a, hi_byte v, lo_byte v]"
  by (simp only: frame_simps length_replicate numeral_le_iff semiring_norm)

lemma write_attempt_success:
  assumes "write_attempt sk a v (c, n) = Some (True, cn')"
  obtains m1 resp m2 where
    "send_frame sk (with_crc [mc_slave_id c, 6, hi_byte a, lo_byte a, hi_byte v, lo_byte v]) (c, n) = Some (True, m1)"
    "receive_exact sk (mc_socket_fd c) 8 [] m1 = (Some resp, m2)" "write_response_ok (mc_slave_id c) resp"
    "modbus_read_register sk a (c, m2) = Some (Some v, cn')"
  using assms unfolding write_attempt_def write_request_frame
  by (auto simp: Let_def split: bind_splits if_splits prod.splits option.splits)

lemma write_attempt_down:
  assumes "write_attempt sk a v (c, n) = Some (b, cn')" "\<not> mc_connected c"
  shows "\<not> b \<and> fst cn' = c"
  using assms
  by (auto simp: write_attempt_def Let_def read_unconnected split: bind_splits if_splits prod.splits option.splits)

lemma write_retries_down:
  assumes "write_retries k sk a v (c, n) = Some (b, cn')" "\<not> mc_connected c"
  shows "\<not> b \<and> fst cn' = c"
  using assms(1)
proof (induction k arbitrary: n)
  case (Suc k)
  then obtain b1 c1 n1 where w: "write_attempt sk a v (c, n) = Some (b1, c1, n1)" by (auto split: bind_splits)
  with write_attempt_down [OF w assms(2)] Suc show ?case by auto
qed auto

text \<open>Reading one register runs over no buffer: all that can keep it from returning is the flush.\<close>

lemma read_register_returns:
  assumes "flush_read_buffer sk (c, n) = Some r"
  shows "modbus_read_register sk a (c, n) \<noteq> None"
  using assms
  by (cases r) (auto simp: modbus_read_register_def modbus_read_write_registers_internal_def Let_def send_frame_def
      split: prod.splits option.splits bind_splits)

context rtu_heat_pump
begin

lemma as_heat_pump: "heat_pump (tcp_ops sk) (tcp_ready slave fd link) (\<lambda>m. regs (snd m)) held readable"
  by unfold_locales

end

section \<open>Properties\<close>

text \<open>
  C10. Over the network as in the simulation, one iteration brings the device in line with the
  working mode: whatever valid commands are waiting, if the socket leads to a device that answers
  the protocol, the bytes arriving in pieces of any size, then the iteration returns, and the
  registers of the device are as the table of the working mode says, through flush, frame
  building, checksums, response checks and read-back. There is one exception, for the priority
  register alone: where it differed from the priority the object remembers before the iteration, and no
  waiting command set it, both may be left as they were (the loop never compares them). Assumed are a mode
  register with one of the values 0 to 2 and saved targets in their ranges or as the device reported them.
\<close>

theorem tcp_iteration_converges:
  assumes "rtu_heat_pump sk slave fd link rx regs held readable"
    and "modbus_client s = Some m" "tcp_ready slave fd link m"
    and "sint (regs (snd m) REG_RUNNING_MODE) \<in> {0, 1, 2}"
    and "target_ok UNIV 40 63 (saved_dhw_target s)" "target_ok UNIV 25 63 (saved_heating_target s)"
    and "\<And>q. cmd_queue s = Some q \<Longrightarrow> queue_valid q"
  shows "\<exists>s' m'. loop_iteration (tcp_ops sk) stops s = Some s' \<and> modbus_client s' = Some m' \<and>
    tcp_ready slave fd link m' \<and> settings_table (regs (snd m')) s' \<and>
    (mode_table (regs (snd m')) s' \<or> stale_priority (regs (snd m)) s (regs (snd m')) s')"
  using assms(2-) by (rule heat_pump.iteration_meets_table [OF rtu_heat_pump.as_heat_pump [OF assms(1)]])

abbreviation tcp_pump :: "gateway ModbusClient" where
  "tcp_pump \<equiv>
     (Some \<lparr>mc_ip = ''192.168.1.5'', mc_port = 502, mc_slave_id = 11, mc_socket_fd = 3, mc_connected = True\<rparr>,
      \<lparr>gw_rx = [1, 2, 3], gw_regs = (\<lambda>a. if a = REG_RUNNING_MODE \<or> a = REG_DHW_PRIORITY then 0 else 400)\<rparr>)"

theorem tcp_iteration_converges_witness:
  "\<exists>s' m'. loop_iteration (tcp_ops (gateway_sockets 11 pump_registers 1)) (\<lambda>n. False)
      (ControlLoop_init\<lparr>modbus_client := Some tcp_pump, cmd_queue := Some demo_queue\<rparr>) = Some s' \<and>
    modbus_client s' = Some m' \<and> tcp_ready 11 3 (\<lambda>g. True) m' \<and> mode_table (gw_regs (snd m')) s'"
proof -
  let ?s = "ControlLoop_init\<lparr>modbus_client := Some tcp_pump, cmd_queue := Some demo_queue\<rparr>"
  have "rtu_heat_pump (gateway_sockets 11 pump_registers 1) 11 3 (\<lambda>g. True) gw_rx gw_regs (set pump_registers) (set pump_registers)"
    by (rule gwp.rtu_heat_pump_axioms)
  from tcp_iteration_converges [OF this, where s = ?s and m = tcp_pump and stops = "\<lambda>n. False"] show ?thesis
    using demo_queue_not_stale [of ?s] by (auto simp: ControlLoop_init_def target_ok_Fin demo_queue_valid tcp_ready_def)
qed

text \<open>The case of \<open>stale_priority_kept\<close> over the wire: mode 2 and heating saved, nothing waiting, the register at 1.\<close>

theorem tcp_stale_priority:
  "\<exists>s' m'. loop_iteration (tcp_ops (gateway_sockets 11 pump_registers 1)) (\<lambda>n. False)
      (ControlLoop_init\<lparr>modbus_client := Some (fst tcp_pump, \<lparr>gw_rx = [], gw_regs = (\<lambda>a. 1)\<rparr>),
         cmd_queue := Some (CmdQueue_init (replicate 16 heating_first)), desired_working_mode := 2, current_priority := Heating\<rparr>) = Some s' \<and>
    modbus_client s' = Some m' \<and> gw_regs (snd m') REG_DHW_PRIORITY = 1 \<and> current_priority s' = Heating \<and>
    \<not> mode_table (gw_regs (snd m')) s'"
  by (rule stale_priority_kept [OF rtu_heat_pump.as_heat_pump [OF gwp.rtu_heat_pump_axioms], where q = "CmdQueue_init (replicate 16 heating_first)"
      and c = "(fst tcp_pump, \<lparr>gw_rx = [], gw_regs = (\<lambda>a. 1)\<rparr>)"])
    (simp_all add: ControlLoop_init_def target_ok_Fin tcp_ready_def cq_inv_init)

text \<open>
  C8. A read that reports success is backed by a genuine response: after the request was sent whole,
  the client received exactly a frame of the slave it asked, without the exception bit, with the
  byte count of the registers asked for and a valid checksum, and every value it returns is the two
  bytes of that register in the frame; the frame fits the client's buffer and the client stays
  connected.
\<close>

theorem tcp_read_genuine:
  assumes "modbus_read_write_registers_internal sk a count single (c, n) = Some (Some vs, c', n')"
    and "k = (if single then 1 else unat count)"
  shows "mc_connected c \<and> c' = c \<and> (\<exists>n1 h n2 d.
    send_frame sk (with_crc [mc_slave_id c, 3, hi_byte a, lo_byte a, hi_byte (of_nat k), lo_byte (of_nat k)]) (c, n) = Some (True, n1) \<and>
    receive_exact sk (mc_socket_fd c) 3 [] n1 = (Some h, n2) \<and>
    receive_exact sk (mc_socket_fd c) (2 * k + 2) [] n2 = (Some d, n') \<and>
    genuine (mc_slave_id c) k (h @ d) vs)"
proof -
  have "(if single then 1 else count) = of_nat k" using assms(2) by simp
  then have req: "take 8 (modbus_rtu_build_read_frame (replicate MODBUS_MAX_FRAME 0) (mc_slave_id c) a (if single then 1 else count)) =
      with_crc [mc_slave_id c, 3, hi_byte a, lo_byte a, hi_byte (of_nat k), lo_byte (of_nat k)]"
    by (simp only: read_request_frame)
  show ?thesis by (rule read_internal_success [OF assms, unfolded req]) blast
qed

abbreviation pump_conn :: modbus_client_t where
  "pump_conn \<equiv> \<lparr>mc_ip = ''192.168.1.5'', mc_port = 502, mc_slave_id = 11, mc_socket_fd = 3, mc_connected = True\<rparr>"

abbreviation pump_wire :: gateway where
  "pump_wire \<equiv> \<lparr>gw_rx = [1, 2, 3], gw_regs = (\<lambda>a. 400)\<rparr>"

theorem tcp_read_genuine_witness:
  "\<exists>vs n'. modbus_read_write_registers_internal (gateway_sockets 11 pump_registers 1) REG_DHW_TARGET 1 True (pump_conn, pump_wire) =
     Some (Some vs, pump_conn, n') \<and>
   (\<exists>n1 h n2 d. receive_exact (gateway_sockets 11 pump_registers 1) 3 3 [] n1 = (Some h, n2) \<and>
     receive_exact (gateway_sockets 11 pump_registers 1) 3 4 [] n2 = (Some d, n') \<and> genuine 11 1 (h @ d) vs)"
proof -
  obtain v n' where "modbus_read_register (gateway_sockets 11 pump_registers 1) REG_DHW_TARGET (pump_conn, pump_wire) =
      Some (Some v, pump_conn, n')"
    using gw.read_link [where n = pump_wire and c = pump_conn and slave = 11 and a = REG_DHW_TARGET and served = pump_registers and chunk = 1] by (auto simp: pump_registers_def)
  from read_register_success [OF this] tcp_read_genuine [OF read_register_success [OF this] refl]
  show ?thesis by auto
qed

text \<open>
  C9. A write that reports success was read back: after some number of failed attempts, fewer than three, the client
  sent the write request for the register and the value, received a response that passes the checks,
  sent a read request for the same register, and the last thing it received is a genuine response to it in which
  the value is the value written. Each step starts in the state of the network that the one before left.
\<close>

theorem tcp_write_verified:
  assumes "modbus_write_register sk a v (c, n) = Some (True, c', n')"
  shows "mc_connected c \<and> c' = c \<and> (\<exists>j < 3. \<exists>m0 m1 resp m2 m3 h m4 d.
    write_retries j sk a v (c, n) = Some (False, c, m0) \<and>
    send_frame sk (with_crc [mc_slave_id c, 6, hi_byte a, lo_byte a, hi_byte v, lo_byte v]) (c, m0) = Some (True, m1) \<and>
    receive_exact sk (mc_socket_fd c) 8 [] m1 = (Some resp, m2) \<and> write_response_ok (mc_slave_id c) resp \<and>
    send_frame sk (with_crc [mc_slave_id c, 3, hi_byte a, lo_byte a, 0, 1]) (c, m2) = Some (True, m3) \<and>
    receive_exact sk (mc_socket_fd c) 3 [] m3 = (Some h, m4) \<and>
    receive_exact sk (mc_socket_fd c) 4 [] m4 = (Some d, n') \<and>
    genuine (mc_slave_id c) 1 (h @ d) [v])"
proof -
  have c: "mc_connected c" "write_retries 3 sk a v (c, n) = Some (True, c', n')"
    using assms by (auto simp: modbus_write_register_def split: if_splits)
  obtain j c1 m0 where j: "j < 3" "write_retries j sk a v (c, n) = Some (False, c1, m0)" "same_conn c c1"
      "write_attempt sk a v (c1, m0) = Some (True, c', n')"
    using write_retries_success [OF c(2)] by blast
  obtain m1 resp m2 where w:
      "send_frame sk (with_crc [mc_slave_id c1, 6, hi_byte a, lo_byte a, hi_byte v, lo_byte v]) (c1, m0) = Some (True, m1)"
      "receive_exact sk (mc_socket_fd c1) 8 [] m1 = (Some resp, m2)" "write_response_ok (mc_slave_id c1) resp"
      "modbus_read_register sk a (c1, m2) = Some (Some v, c', n')"
    using j(4) by (rule write_attempt_success)
  obtain m3 h m4 d where r: "mc_connected c1" "c' = c1"
      "send_frame sk (with_crc [mc_slave_id c1, 3, hi_byte a, lo_byte a, 0, 1]) (c1, m2) = Some (True, m3)"
      "receive_exact sk (mc_socket_fd c1) 3 [] m3 = (Some h, m4)" "receive_exact sk (mc_socket_fd c1) 4 [] m4 = (Some d, n')"
      "genuine (mc_slave_id c1) 1 (h @ d) [v]"
    using read_register_frames [OF w(4)] by blast
  have "c1 = c" using j(3) r(1) by (auto simp: same_conn_def)
  then show ?thesis using c(1) j(1,2) w(1-3) r(2-6) by blast
qed

theorem tcp_write_verified_witness:
  "\<exists>n'. modbus_write_register (gateway_sockets 11 pump_registers 1) REG_DHW_TARGET 450 (pump_conn, pump_wire) =
     Some (True, pump_conn, n') \<and>
   (\<exists>m2 m3 h m4 d.
     send_frame (gateway_sockets 11 pump_registers 1) (with_crc [11, 3, hi_byte REG_DHW_TARGET, lo_byte REG_DHW_TARGET, 0, 1])
       (pump_conn, m2) = Some (True, m3) \<and>
     receive_exact (gateway_sockets 11 pump_registers 1) 3 3 [] m3 = (Some h, m4) \<and>
     receive_exact (gateway_sockets 11 pump_registers 1) 3 4 [] m4 = (Some d, n') \<and> genuine 11 1 (h @ d) [450])"
proof -
  obtain n' where w: "modbus_write_register (gateway_sockets 11 pump_registers 1) REG_DHW_TARGET 450 (pump_conn, pump_wire) =
      Some (True, pump_conn, n')"
    using gw.write_link [where n = pump_wire and c = pump_conn and slave = 11 and a = REG_DHW_TARGET
        and served = pump_registers and chunk = 1 and w = 450] by (auto simp: pump_registers_def)
  from w tcp_write_verified [OF w] show ?thesis by simp blast
qed

text \<open>
  Retrying a write after the connection flag was lost is useless: when an attempt ends with the
  client marked as not connected, which a read-back does when no answer comes, all further attempts
  fail whatever the device does, because their own read-back refuses to run.
\<close>

theorem tcp_retries_after_loss_fail:
  assumes "write_attempt sk a v (c, n) = Some (b, c1, n1)" "\<not> mc_connected c1"
    and "write_retries k sk a v (c1, n1) = Some (r, cn')"
  shows "\<not> r \<and> \<not> mc_connected (fst cn')"
  using write_retries_down [OF assms(3,2)] assms(2) by simp

text \<open>A device that answers the first request only.\<close>

definition deaf_sockets :: "nat sockets" where
  "deaf_sockets =
     \<lparr>sk_socket = (\<lambda>g. (3, g)), sk_pton = (\<lambda>ip. True), sk_connect = (\<lambda>fd ip port g. (0, g)),
      sk_close = (\<lambda>fd g. g), sk_select = (\<lambda>fd t g. (if t = 0 \<or> g \<noteq> 1 then 0 else 1, g)),
      sk_recv = (\<lambda>fd k g. (with_crc [11, 6, 1, 148, 1, 194], g)),
      sk_send = (\<lambda>fd f g. (int (length f), Suc g))\<rparr>"

lemma deaf_sockets_sel [simp]:
  "sk_select deaf_sockets fd t g = (if t = 0 \<or> g \<noteq> 1 then 0 else 1, g)"
  "sk_recv deaf_sockets fd k g = (with_crc [11, 6, 1, 148, 1, 194], g)"
  "sk_send deaf_sockets fd f g = (int (length f), Suc g)"
  by (simp_all add: deaf_sockets_def)

theorem tcp_retries_after_loss_fail_witness:
  "\<not> False \<and> \<not> mc_connected (pump_conn\<lparr>mc_connected := False\<rparr>)"
proof -
  have f: "flush_loop deaf_sockets 3 0 g = Some (0, g)" for g
    by (subst flush_loop.simps) simp
  have e: "receive_exact deaf_sockets 3 8 [] (Suc 0) = (Some (with_crc [11, 6, 1, 148, 1, 194]), Suc 0)"
    by (subst receive_exact.simps, simp, subst receive_exact.simps, simp add: with_crc_def)
  have d: "receive_exact deaf_sockets 3 (Suc j) [] g = (None, g)" if "g \<noteq> 1" for j g
    using that by (subst receive_exact.simps) simp
  have ok: "write_response_ok 11 (with_crc [11, 6, 1, 148, 1, 194])"
    by (simp add: write_response_ok_def crc_matches_with_crc with_crc_nth)
  note run = write_attempt_def send_frame_def flush_read_buffer_def modbus_read_register_def
    modbus_read_write_registers_internal_def frame_simps Let_def f e ok
  have w: "write_attempt deaf_sockets REG_DHW_TARGET 450 (pump_conn, 0) = Some (False, pump_conn\<lparr>mc_connected := False\<rparr>, 2)"
    using d [of 2 2] by (simp add: run flip: numeral_2_eq_2)
  have r: "write_retries 1 deaf_sockets REG_DHW_TARGET 450 (pump_conn\<lparr>mc_connected := False\<rparr>, 2) =
      Some (False, pump_conn\<lparr>mc_connected := False\<rparr>, 3)"
    using d [of 3 7] by (simp add: run)
  show ?thesis using tcp_retries_after_loss_fail [OF w _ r] by simp
qed

text \<open>
  \<open>disconnect\<close> is final for the network client: it destroys the underlying client, so a later
  \<open>connect\<close> on the same object always returns false and every read and write throws, and none of
  these calls changes the object or reaches the network.
\<close>

theorem tcp_disconnect_final:
  shows "\<exists>n'. tcp_disconnect sk m = (None, n') \<and>
    m_connect (tcp_ops sk) (None, n') = (False, (None, n')) \<and> \<not> m_isConnected (tcp_ops sk) (None, n') \<and>
    m_readRegister (tcp_ops sk) a (None, n') = (Inl (ModbusException ''Not connected''), (None, n')) \<and>
    m_writeRegister (tcp_ops sk) a v (None, n') = (Inl (ModbusException ''Not connected''), (None, n')) \<and>
    m_disconnect (tcp_ops sk) (None, n') = (None, n') \<and> m_flushBuffer (tcp_ops sk) (None, n') = (None, n')"
  by (cases m; cases "fst m")
    (auto simp: tcp_ops_def tcp_disconnect_def tcp_connect_def tcp_isConnected_def tcp_readRegister_def
      tcp_writeRegister_def tcp_flushBuffer_def)

text \<open>
  C31. The flush before every request returns if the peer sends only finitely many bytes, whenever they arrive: let
  \<open>left\<close> bound what is still to come out of the socket, so that waiting does not raise it and receiving lowers it
  by at least what is received. Then the flush returns, the bytes it counts were taken from that bound, and it
  ends because nothing is there to read, or with an error or the end of the stream.
\<close>

theorem flush_returns:
  assumes "\<And>n t r n'. sk_select sk fd t n = (r, n') \<Longrightarrow> left n' \<le> (left n :: nat)"
    and "\<And>n k bs n'. sk_recv sk fd k n = (bs, n') \<Longrightarrow> length bs \<le> k \<and> left n' + length bs \<le> left n"
  shows "\<exists>m n'. flush_loop sk fd j n = Some (m, n') \<and> j \<le> m \<and> m + left n' \<le> j + left n \<and>
    ((\<exists>n1 r. sk_select sk fd 0 n1 = (r, n') \<and> r \<le> 0) \<or> (\<exists>n1. sk_recv sk fd 128 n1 = ([], n')))"
proof (induction "left n" arbitrary: j n rule: less_induct)
  case less
  obtain r n1 where s: "sk_select sk fd 0 n = (r, n1)" by (cases "sk_select sk fd 0 n")
  obtain bs n2 where v: "sk_recv sk fd 128 n1 = (bs, n2)" by (cases "sk_recv sk fd 128 n1")
  note b = assms(1) [OF s] assms(2) [OF v]
  show ?case
  proof (cases "r \<le> 0 \<or> bs = []")
    case True
    then show ?thesis using s v b by (subst flush_loop.simps) auto
  next
    case False
    then have "left n2 < left n" using b by (cases bs) auto
    from less.hyps [OF this, of "j + length bs"] obtain m n' where m: "flush_loop sk fd (j + length bs) n2 = Some (m, n')"
        "j + length bs \<le> m" "m + left n' \<le> j + length bs + left n2"
        "(\<exists>n1 r. sk_select sk fd 0 n1 = (r, n') \<and> r \<le> 0) \<or> (\<exists>n1. sk_recv sk fd 128 n1 = ([], n'))" by blast
    have "flush_loop sk fd j n = Some (m, n')" using False s v b m(1) by (subst flush_loop.simps) simp
    moreover have "j \<le> m" "m + left n' \<le> j + left n" using m(2,3) b by linarith+
    ultimately show ?thesis using m(4) by blast
  qed
qed

theorem flush_returns_witness:
  "\<exists>m n'. flush_loop (gateway_sockets 11 pump_registers 1) 3 0 pump_wire = Some (m, n') \<and> 0 \<le> m \<and>
    m + length (gw_rx n') \<le> 0 + length (gw_rx pump_wire) \<and>
    ((\<exists>n1 r. sk_select (gateway_sockets 11 pump_registers 1) 3 0 n1 = (r, n') \<and> r \<le> 0) \<or>
     (\<exists>n1. sk_recv (gateway_sockets 11 pump_registers 1) 3 128 n1 = ([], n')))"
  by (rule flush_returns [where left = "\<lambda>g. length (gw_rx g)"]) (auto simp: gateway_sockets_def Let_def)

text \<open>Against a peer that always has something to read the flush runs forever.\<close>

theorem flush_diverges:
  assumes "\<And>n. fst (sk_select sk fd 0 n) > 0" "\<And>n. fst (sk_recv sk fd 128 n) \<noteq> []"
  shows "flush_loop sk fd j n = None"
proof (rule ccontr)
  assume "flush_loop sk fd j n \<noteq> None"
  then obtain r where r: "flush_loop sk fd j n = Some r" by auto
  have "x = sk \<and> y = fd \<longrightarrow> False" if "flush_loop x y i k = Some z" for x y i k z
    by (rule flush_loop.raw_induct [OF _ that, of "\<lambda>x y i k z. x = sk \<and> y = fd \<longrightarrow> False"])
      (use assms in \<open>auto split: prod.splits if_splits, (metis fst_conv not_le)+\<close>)
  from this [OF r] show False by simp
qed

text \<open>
  C32. Reading up to 125 registers, the limit of the protocol, stays within the buffers: when the flush
  returns, so does the read, whatever the device sends. The function itself has no such limit: asked
  for 126 registers it accepts a response of 257 bytes and copies it into a buffer of 256.
\<close>

theorem tcp_read_bounds:
  assumes "count \<le> 125" "flush_read_buffer sk (c, n) = Some r"
  shows "modbus_read_registers sk a count (c, n) \<noteq> None"
proof -
  obtain k n1 where f: "flush_read_buffer sk (c, n) = Some (k, n1)" using assms(2) by (cases r) auto
  have u: "unat count \<le> 125" using assms(1) by (simp add: word_le_nat_alt)
  then show ?thesis
    by (auto simp: modbus_read_registers_def modbus_read_write_registers_internal_def Let_def send_frame_def f
        split: prod.splits option.splits)
qed

text \<open>A peer that answers any request with one response of 126 registers.\<close>

definition long_sockets :: "u8 list sockets" where
  "long_sockets =
     \<lparr>sk_socket = (\<lambda>g. (3, g)), sk_pton = (\<lambda>ip. True), sk_connect = (\<lambda>fd ip port g. (0, g)),
      sk_close = (\<lambda>fd g. g), sk_select = (\<lambda>fd t g. (if g = [] then 0 else 1, g)),
      sk_recv = (\<lambda>fd k g. (take k g, drop k g)),
      sk_send = (\<lambda>fd f g. (int (length f), [11, 3, 252] @ replicate 254 0))\<rparr>"

theorem tcp_read_bounds_witness:
  "modbus_read_registers long_sockets 1 2 (pump_conn, []) \<noteq> None"
proof (rule tcp_read_bounds)
  have "flush_loop long_sockets 3 0 [] = Some (0, [])"
    by (subst flush_loop.simps) (simp add: long_sockets_def)
  then show "flush_read_buffer long_sockets (pump_conn, []) = Some (0, [])"
    by (simp add: flush_read_buffer_def)
qed simp

text \<open>
  The overrun happens: connected to a peer that sends such a response, a read of 126 registers
  writes past the end of its frame buffer although the flush before it returned.
\<close>

theorem tcp_read_126_overruns:
  "flush_read_buffer long_sockets (pump_conn, []) = Some (0, []) \<and>
   modbus_read_registers long_sockets 1 126 (pump_conn, []) = None"
proof -
  have l: "sk_select long_sockets fd t g = (if g = [] then 0 else 1, g)" "sk_recv long_sockets fd k g = (take k g, drop k g)"
      "sk_send long_sockets fd f g = (int (length f), [11, 3, 252] @ replicate 254 0)" for fd t g k f
    by (simp_all add: long_sockets_def)
  have f: "flush_loop long_sockets 3 0 [] = Some (0, [])" by (subst flush_loop.simps) (simp add: l)
  have e: "receive_exact long_sockets 3 k [] (xs @ ys) = (Some xs, ys)" if "length xs = k" "xs \<noteq> []" for k xs ys
    using that by (subst receive_exact.simps, simp add: l, subst receive_exact.simps) auto
  have h: "receive_exact long_sockets 3 3 [] ([11, 3, 252] @ replicate 254 0) = (Some [11, 3, 252], replicate 254 0)"
    by (rule e) simp_all
  have d: "receive_exact long_sockets 3 254 [] (replicate 254 0) = (Some (replicate 254 0), [])"
    using e [of "replicate 254 0" 254 "[]"] by simp
  show ?thesis
    by (simp add: modbus_read_registers_def modbus_read_write_registers_internal_def Let_def send_frame_def
        flush_read_buffer_def f l frame_simps h [simplified] d del: replicate.simps)
qed

end
