(* ===== verification/Text_Format.thy ===== *)
theory Text_Format
  imports Ieee_Float
begin

text \<open>
  The conversions between numbers and text that the sources take from the C and C++ library:
  the formats of \<open>snprintf\<close>, \<open>std::to_string\<close>, \<open>atoi\<close>, \<open>std::stoi\<close> and \<open>std::stod\<close>.
\<close>

section \<open>Printing\<close>

text \<open>The conversions of \<open>snprintf\<close>: \<open>%d\<close>, and \<open>%.1f\<close> and \<open>%.2f\<close> with exact rounding to even.\<close>

fun digits :: "nat \<Rightarrow> string" where
  "digits n = (if n < 10 then [char_of (48 + n)] else digits (n div 10) @ [char_of (48 + n mod 10)])"

declare digits.simps [simp del]

definition fmt_d :: "int \<Rightarrow> string" where
  "fmt_d i = (if i < 0 then ''-'' @ digits (nat (- i)) else digits (nat i))"

definition pad_left :: "nat \<Rightarrow> string \<Rightarrow> string" where
  "pad_left k s = replicate (k - length s) (CHR ''0'') @ s"

definition fmt_fixed :: "nat \<Rightarrow> rat \<Rightarrow> string" where
  "fmt_fixed p x =
     (let n = nat (round_even (\<bar>x\<bar> * 10 ^ p))
      in (if x < 0 then ''-'' else []) @ digits (n div 10 ^ p) @ ''.'' @ pad_left p (digits (n mod 10 ^ p)))"

fun fmt_f :: "nat \<Rightarrow> fp \<Rightarrow> string" where
  "fmt_f p (Fin x) = fmt_fixed p x"
| "fmt_f p (Inf neg) = (if neg then ''-inf'' else ''inf'')"
| "fmt_f p NaN = ''nan''"

lemma length_digits: "0 < k \<Longrightarrow> n < 10 ^ k \<Longrightarrow> length (digits n) \<le> k"
proof (induction n arbitrary: k rule: digits.induct)
  case (1 n)
  show ?case
  proof (cases "n < 10")
    case True
    then show ?thesis using "1.prems"(1) by (simp add: digits.simps [of n])
  next
    case False
    obtain j where j: "k = Suc j" using "1.prems"(1) by (cases k) auto
    with False "1.prems"(2) have k: "k = Suc j" "0 < j" by (cases j; simp)+
    then have "n div 10 < 10 ^ j" using "1.prems"(2) by (simp add: less_mult_imp_div_less mult.commute)
    with "1.IH" [OF False k(2)] k show ?thesis by (simp add: digits.simps [of n] False)
  qed
qed

definition to_string :: "int \<Rightarrow> string" where
  "to_string i = fmt_d i"

text \<open>\<open>std::to_string\<close> of a \<open>float\<close> prints with \<open>%f\<close>, six digits after the point.\<close>

definition to_string_f :: "fp \<Rightarrow> string" where
  "to_string_f v = fmt_f 6 v"

section \<open>Reading\<close>

definition is_space :: "char \<Rightarrow> bool" where
  "is_space c \<longleftrightarrow> c = CHR '' '' \<or> of_char c \<in> {9..13 :: nat}"

definition digit_val :: "char \<Rightarrow> nat" where
  "digit_val c =
     (let k = of_char c :: nat
      in if k \<in> {48..57} then k - 48 else if k \<in> {97..122} then k - 87
         else if k \<in> {65..90} then k - 55 else 99)"

fun take_digits :: "nat \<Rightarrow> string \<Rightarrow> nat list \<times> string" where
  "take_digits b [] = ([], [])"
| "take_digits b (c # cs) =
     (if digit_val c < b then (case take_digits b cs of (ds, r) \<Rightarrow> (digit_val c # ds, r)) else ([], c # cs))"

definition horner :: "nat \<Rightarrow> nat list \<Rightarrow> nat" where
  "horner b ds = foldl (\<lambda>n d. n * b + d) 0 ds"

text \<open>An optional sign, after white space: whether it is a minus, and the rest.\<close>

definition take_sign :: "string \<Rightarrow> bool \<times> string" where
  "take_sign s = (case s of c # cs \<Rightarrow>
       if c = CHR ''-'' then (True, cs) else if c = CHR ''+'' then (False, cs) else (False, s)
     | [] \<Rightarrow> (False, []))"

text \<open>The number at the start of a text, as \<open>strtol\<close> finds it in base 10; \<open>None\<close> when there is none.\<close>

definition strtol10 :: "string \<Rightarrow> int option" where
  "strtol10 s = (case take_sign (dropWhile is_space s) of (neg, r) \<Rightarrow>
     case take_digits 10 r of (ds, _) \<Rightarrow>
       if ds = [] then None
       else Some (if neg then - int (horner 10 ds) else int (horner 10 ds)))"

text \<open>\<open>std::stoi\<close>: \<open>None\<close> for the two exceptions. \<open>atoi\<close>: the low 32 bits of the saturated \<open>long\<close>, as in glibc.\<close>

definition stoi :: "string \<Rightarrow> int option" where
  "stoi s = (case strtol10 s of None \<Rightarrow> None
     | Some v \<Rightarrow> if - (2 ^ 31) \<le> v \<and> v < 2 ^ 31 then Some v else None)"

definition atoi :: "string \<Rightarrow> int" where
  "atoi s = (case strtol10 s of None \<Rightarrow> 0 | Some v \<Rightarrow> to_int32 (max (- (2 ^ 63)) (min (2 ^ 63 - 1) v)))"

text \<open>
  \<open>strtod\<close>: digits with an optional point and exponent, decimal or after \<open>0x\<close> hexadecimal with a
  binary exponent, or the words for infinity and not-a-number. The result is the sign and the
  exact value of the digits.
\<close>

definition take_exponent :: "string \<Rightarrow> string \<Rightarrow> int" where
  "take_exponent marks s = (case s of [] \<Rightarrow> 0
     | c # cs \<Rightarrow> if c \<notin> set marks then 0
         else (case take_sign cs of (neg, r) \<Rightarrow> case take_digits 10 r of (ds, _) \<Rightarrow>
            if neg then - int (horner 10 ds) else int (horner 10 ds)))"

definition take_real :: "nat \<Rightarrow> nat \<Rightarrow> string \<Rightarrow> string \<Rightarrow> rat option" where
  "take_real b eb marks s = (case take_digits b s of (whole, r) \<Rightarrow>
     case (case r of c # cs \<Rightarrow> if c = CHR ''.'' then take_digits b cs else ([], r) | [] \<Rightarrow> ([], [])) of (part, r) \<Rightarrow>
       if whole = [] \<and> part = [] then None
       else Some (of_nat (horner b (whole @ part)) / of_nat b ^ length part * of_nat eb powi take_exponent marks r))"

definition lower :: "char \<Rightarrow> char" where
  "lower c = (if of_char c \<in> {65..90 :: nat} then char_of (of_char c + 32 :: nat) else c)"

definition has_prefix :: "string \<Rightarrow> string \<Rightarrow> bool" where
  "has_prefix p s \<longleftrightarrow> take (length p) (map lower s) = p"

definition strtod :: "string \<Rightarrow> (bool \<times> (rat, bool) sum) option" where
  "strtod s = (case take_sign (dropWhile is_space s) of (neg, r) \<Rightarrow>
     if has_prefix ''inf'' r then Some (neg, Inr True)
     else if has_prefix ''nan'' r then Some (neg, Inr False)
     else case (if has_prefix ''0x'' r then take_real 16 2 ''pP'' (drop 2 r) else None) of
       Some v \<Rightarrow> Some (neg, Inl v)
     | None \<Rightarrow> map_option (\<lambda>v. (neg, Inl v)) (take_real 10 10 ''eE'' r))"

text \<open>\<open>std::stod\<close>: \<open>None\<close> when there is no number, and when the number overflows or underflows a \<open>double\<close>.\<close>

definition stod :: "string \<Rightarrow> fp option" where
  "stod s = (case strtod s of
     None \<Rightarrow> None
   | Some (neg, Inr word) \<Rightarrow> Some (if word then Inf neg else NaN)
   | Some (neg, Inl v) \<Rightarrow>
       (case f64 (if neg then - v else v) of
          Fin x \<Rightarrow> if x \<noteq> v \<and> x \<noteq> - v \<and> \<bar>v\<bar> < 2 powi (- 1022) then None else Some (Fin x)
        | _ \<Rightarrow> None))"

subsection \<open>Reading what was printed\<close>

lemma digit_val_char: "k < 10 \<Longrightarrow> digit_val (char_of (48 + k)) = k"
  by (simp add: digit_val_def Let_def)

lemma digits_vals: "map digit_val (digits n) \<noteq> []" "\<forall>c \<in> set (digits n). digit_val c < 10"
    "horner 10 (map digit_val (digits n)) = n"
proof -
  show "map digit_val (digits n) \<noteq> []" by (subst digits.simps) simp
  show "\<forall>c \<in> set (digits n). digit_val c < 10"
  proof (induction n rule: digits.induct)
    case (1 n)
    then show ?case by (subst digits.simps) (auto simp: digit_val_char)
  qed
  show "horner 10 (map digit_val (digits n)) = n"
  proof (induction n rule: digits.induct)
    case (1 n)
    then show ?case by (subst digits.simps) (auto simp: digit_val_char horner_def)
  qed
qed

lemma take_digits_append:
  "\<forall>c \<in> set s. digit_val c < b \<Longrightarrow> take_digits b (s @ r) = (map digit_val s @ fst (take_digits b r), snd (take_digits b r))"
  by (induction s) (auto split: prod.split)

lemma stoi_to_string:
  assumes "- (2 ^ 31) \<le> i" "i < 2 ^ 31"
  shows "stoi (to_string i) = Some i"
proof -
  have d: "take_digits 10 (digits n) = (map digit_val (digits n), [])" for n
    using take_digits_append [OF digits_vals(2), of n "[]"] by simp
  have h: "\<not> is_space (hd (digits n)) \<and> hd (digits n) \<noteq> CHR ''-'' \<and> hd (digits n) \<noteq> CHR ''+'' \<and> digits n \<noteq> []" for n
  proof -
    have n: "digits n \<noteq> []" using digits_vals(1) by auto
    then have "digit_val (hd (digits n)) < 10" using digits_vals(2) [of n] by simp
    with n show ?thesis by (auto simp: digit_val_def is_space_def Let_def split: if_splits)
  qed
  have s: "dropWhile is_space (digits n) = digits n" "take_sign (digits n) = (False, digits n)" for n
    using h [of n] by (cases "digits n"; simp add: take_sign_def)+
  have m: "\<not> is_space (CHR ''-'')" by code_simp
  have "strtol10 (to_string i) = Some i"
  proof (cases "i < 0")
    case True
    then show ?thesis using m d [of "nat (- i)"] digits_vals(1,3) [of "nat (- i)"]
      by (simp add: strtol10_def to_string_def fmt_d_def take_sign_def)
  next
    case False
    then show ?thesis using s d [of "nat i"] digits_vals(1,3) [of "nat i"]
      by (simp add: strtol10_def to_string_def fmt_d_def)
  qed
  with assms show ?thesis by (simp add: stoi_def)
qed

text \<open>
  A \<open>float\<close> from 16 up to 64 is a multiple of at least \<open>2 powi (- 19)\<close>, more than the millionth that
  \<open>%f\<close> prints, so the nearest \<open>float\<close> of the printed number is the number itself.
\<close>

lemma r32_of_near:
  assumes e: "2 powi e \<le> x" "x < 2 powi (e + 1)" and x: "r32 x = x" "- 126 \<le> e"
    and y: "2 powi e \<le> y" "\<bar>y - x\<bar> < 2 powi (e - 24)"
  shows "r32 y = x"
proof -
  have x0: "0 < x" using e(1) by (rule less_le_trans [rotated]) simp
  have y0: "0 < y" using y(1) by (rule less_le_trans [rotated]) simp
  have "ilog2 x = e" using e by (rule ilog2_unique)
  then have qx: "ulp_exp 24 (- 149) x = e - 23" using x(2) x0 by (simp add: ulp_exp_def)
  define m where "m = round_even (x / 2 powi (e - 23))"
  have m: "x = of_int m * 2 powi (e - 23)" using fround_eq [OF _ qx] x(1) x0 by (simp add: m_def)
  obtain k where k: "2 powi (e + 1) / 2 powi (e - 23) = (of_int k :: rat)" using powi_integral [of "e - 23" "e + 1"] by auto
  have "(of_int m :: rat) < of_int k" unfolding k [symmetric] using e(2) m by (simp add: field_simps)
  then have "m \<le> k - 1" by simp
  then have "(of_int m :: rat) \<le> of_int (k - 1)" by (simp only: of_int_le_iff)
  then have "(of_int m :: rat) \<le> of_int k - 1" by simp
  then have "of_int m * 2 powi (e - 23) \<le> (of_int k - 1) * (2::rat) powi (e - 23)" by (intro mult_right_mono) auto
  then have top: "x \<le> 2 powi (e + 1) - 2 powi (e - 23)" using m k by (simp add: field_simps)
  have half: "(2::rat) powi (e - 23) = 2 * 2 powi (e - 24)" 
    using power_int_add_1 [of "2::rat" "e - 24"] by (simp add: mult.commute)
  have "y < 2 powi (e + 1)" using top half y(2) by (simp add: abs_less_iff)
  then have "ilog2 y = e" using y(1) by (intro ilog2_unique)
  then have qy: "ulp_exp 24 (- 149) y = e - 23" using x(2) y0 by (simp add: ulp_exp_def)
  have "\<bar>y / 2 powi (e - 23) - of_int m\<bar> = \<bar>y - x\<bar> / 2 powi (e - 23)" using m by (simp add: field_simps abs_divide)
  also have "\<dots> < 1 / 2" using y(2) half by (simp add: field_simps)
  finally have "round_even (y / 2 powi (e - 23)) = m" by (rule round_even_near)
  then show ?thesis using fround_eq [OF _ qy] y0 m by simp
qed

text \<open>The text of six decimals is off by half a unit of the last one, and stays above a power of two below \<open>x\<close>.\<close>

lemma six_decimals:
  assumes "2 powi e \<le> x" "e = 4 \<or> e = 5" "N = round_even (x * 10 ^ 6)"
  shows "\<bar>of_int N / 10 ^ 6 - x\<bar> \<le> 1 / (2 * 10 ^ 6)" "2 powi e \<le> (of_int N / 10 ^ 6 :: rat)" "16 \<le> N div 10 ^ 6"
proof -
  show "\<bar>of_int N / 10 ^ 6 - x\<bar> \<le> 1 / (2 * 10 ^ 6)"
    using round_even_error [of "x * 10 ^ 6"] assms(3) by (simp add: abs_le_iff field_simps)
  have "round_even (of_int (2 ^ nat e * 10 ^ 6)) \<le> round_even (x * 10 ^ 6)"
    using assms(1,2) by (intro round_even_mono) (auto simp: power_int_def)
  then have "of_int (2 ^ nat e * 10 ^ 6) \<le> (of_int N :: rat)" using assms(3) by (simp only: round_even_of_int of_int_le_iff)
  then have N: "of_int N \<ge> 2 powi e * (10 ^ 6 :: rat)" using assms(2) by (auto simp: power_int_def)
  then show "2 powi e \<le> (of_int N / 10 ^ 6 :: rat)" by (simp add: field_simps)
  have "(16 * 10 ^ 6 :: rat) \<le> of_int N" using N assms(2) by auto
  then have "16 * 10 ^ 6 \<le> N" by (simp only: of_int_le_iff [symmetric, where 'a = rat]) simp
  then show "16 \<le> N div 10 ^ 6" by simp
qed

text \<open>A \<open>double\<close> between 16 and 65 is off by at most \<open>2 powi (- 47)\<close>.\<close>

lemma double_near:
  assumes "16 \<le> v" "v < 65"
  shows "\<bar>fround 53 (- 1074) v - v\<bar> \<le> 2 powi (- 46) / 2" "f64 v = Fin (fround 53 (- 1074) v)"
proof -
  have "2 powi ilog2 v \<le> v" using assms(1) by (intro ilog2_bounds) auto
  then have "2 powi ilog2 v < (2::rat) powi 7" using assms(2) by simp
  then have l: "ilog2 v < 7" by (rule powi_less_cancel)
  have "\<bar>fround 53 (- 1074) v - v\<bar> \<le> 2 powi ulp_exp 53 (- 1074) v / 2" using assms(1) by (intro fround_error) auto
  also have "\<dots> \<le> 2 powi (- 46) / 2"
    using l assms(1) by (intro divide_right_mono power_int_increasing) (auto simp: ulp_exp_def)
  finally show ey: "\<bar>fround 53 (- 1074) v - v\<bar> \<le> 2 powi (- 46) / 2" .
  have "(2::rat) powi (- 46) / 2 \<le> 1" by (simp add: power_int_def power_one_over)
  then have "\<bar>fround 53 (- 1074) v\<bar> < 66" using ey assms by linarith
  then show "f64 v = Fin (fround 53 (- 1074) v)" by (intro f64_eq) simp_all
qed

lemma printed_near:
  assumes "16 \<le> x" "x < 64" "r32 x = x" "N = round_even (x * 10 ^ 6)"
  shows "\<exists>y. f64 (of_int N / 10 ^ 6) = Fin y \<and> r32 y = x \<and> 16 \<le> N div 10 ^ 6"
proof -
  define v :: rat where "v = of_int N / 10 ^ 6"
  define y where "y = fround 53 (- 1074) v"
  obtain e where e: "2 powi e \<le> x" "x < 2 powi (e + 1)" "e = 4 \<or> e = 5"
    using assms(1,2) by (cases "x < 32") (auto intro: that [of 4] that [of 5])
  note six = six_decimals [OF e(1,3) assms(4), folded v_def]
  have v16: "16 \<le> v" using six(2) e(3) by auto
  have "v \<le> x + 1 / (2 * 10 ^ 6)" using six(1) by linarith
  also have "\<dots> < 65" using assms(2) by simp
  finally have v65: "v < 65" .
  note d = double_near [OF v16 v65, folded y_def]
  have "2 powi e = fround 53 (- 1074) (2 powi e)"
    using e(3) by (intro fround_exact [symmetric, where m = 1 and q = e]) (auto simp: power_int_def)
  also have "\<dots> \<le> y" unfolding y_def by (rule fround_mono [OF six(2)]) simp
  finally have y: "2 powi e \<le> y" .
  have "\<bar>y - x\<bar> \<le> \<bar>y - v\<bar> + \<bar>v - x\<bar>" by simp
  also have "\<dots> \<le> 2 powi (- 46) / 2 + 1 / (2 * 10 ^ 6)" using d(1) six(1) by linarith
  also have "\<dots> < 2 powi (- 20)" by (simp add: power_int_def power_one_over)
  also have "\<dots> \<le> (2::rat) powi (e - 24)" using e(3) by (intro power_int_increasing) auto
  finally have "\<bar>y - x\<bar> < 2 powi (e - 24)" .
  with e(1,2) assms(3) _ y have "r32 y = x" by (rule r32_of_near) (use e(3) in auto)
  with d(2) six(3) show ?thesis by (auto simp: v_def)
qed

definition plain :: "char \<Rightarrow> bool" where
  "plain c \<longleftrightarrow> digit_val c < 10 \<or> c = CHR ''.''"

lemma plain_char:
  assumes "plain c"
  shows "lower c = c" "\<not> is_space c" "c \<noteq> CHR ''-''" "c \<noteq> CHR ''+''" "c \<noteq> CHR ''i''" "c \<noteq> CHR ''n''" "c \<noteq> CHR ''x''"
  using assms by (auto simp: plain_def digit_val_def lower_def is_space_def Let_def split: if_splits)

lemma plain_no_prefix:
  assumes "\<forall>c \<in> set s. plain c" "c \<in> set p" "\<not> plain c"
  shows "\<not> has_prefix p s"
proof
  assume "has_prefix p s"
  moreover have "map lower s = s" using assms(1) by (simp add: map_idI plain_char)
  ultimately have "c \<in> set s" using assms(2) by (metis has_prefix_def in_set_takeD)
  with assms(1,3) show False by blast
qed

lemma horner_append: "horner b (xs @ ys) = horner b xs * b ^ length ys + horner b ys"
proof (induction ys rule: rev_induct)
  case (snoc y ys)
  then show ?case by (simp add: horner_def foldl_append algebra_simps flip: append_assoc)
qed (simp add: horner_def)

lemma horner_zeros: "horner b (replicate k 0) = 0"
  by (induction k) (simp_all add: horner_def foldl_conv_fold)

lemma pad_left_vals:
  assumes "n < 10 ^ k" "0 < k"
  shows "\<forall>c \<in> set (pad_left k (digits n)). digit_val c < 10" "length (pad_left k (digits n)) = k"
    "horner 10 (map digit_val (pad_left k (digits n))) = n"
proof -
  have z: "digit_val (CHR ''0'') = 0" by code_simp
  show "\<forall>c \<in> set (pad_left k (digits n)). digit_val c < 10"
    using digits_vals(2) [of n] z by (auto simp: pad_left_def)
  show "length (pad_left k (digits n)) = k" using length_digits [OF assms(2,1)] by (simp add: pad_left_def)
  show "horner 10 (map digit_val (pad_left k (digits n))) = n"
    by (simp add: pad_left_def horner_append map_replicate_const z horner_zeros digits_vals(3))
qed

lemma strtod_printed:
  assumes "n < 10 ^ 6"
  shows "strtod (digits w @ ''.'' @ pad_left 6 (digits n)) = Some (False, Inl (of_nat (w * 10 ^ 6 + n) / 10 ^ 6))"
proof -
  let ?s = "digits w @ ''.'' @ pad_left 6 (digits n)"
  have n: "n < 10 ^ 6" "0 < (6::nat)" using assms by simp_all
  have plain: "\<forall>c \<in> set ?s. plain c" using digits_vals(2) [of w] pad_left_vals(1) [OF n] by (auto simp: plain_def)
  have np: "\<not> plain (CHR ''i'')" "\<not> plain (CHR ''n'')" "\<not> plain (CHR ''x'')" using plain_char by blast+
  have "\<not> has_prefix ''inf'' ?s" "\<not> has_prefix ''nan'' ?s" "\<not> has_prefix ''0x'' ?s"
    using plain_no_prefix [OF plain _ np(1), of "''inf''"] plain_no_prefix [OF plain _ np(2), of "''nan''"]
      plain_no_prefix [OF plain _ np(3), of "''0x''"] by auto
  moreover have "take_sign (dropWhile is_space ?s) = (False, ?s)"
  proof (cases ?s)
    case (Cons c cs)
    then have "plain c" using plain by simp
    with Cons show ?thesis using plain_char [of c] by (simp add: take_sign_def)
  qed simp
  moreover have "take_real 10 10 ''eE'' ?s = Some (of_nat (w * 10 ^ 6 + n) / 10 ^ 6)"
  proof -
    have dot: "\<not> digit_val (CHR ''.'') < 10" by code_simp
    have "take_digits 10 ?s = (map digit_val (digits w), ''.'' @ pad_left 6 (digits n))"
      using take_digits_append [OF digits_vals(2), of w "''.'' @ pad_left 6 (digits n)"] dot by simp
    moreover have "take_digits 10 (pad_left 6 (digits n)) = (map digit_val (pad_left 6 (digits n)), [])"
      using take_digits_append [OF pad_left_vals(1) [OF n], of "[]"] by simp
    ultimately show ?thesis
      using digits_vals(1) [of w] pad_left_vals(2,3) [OF n] digits_vals(3) [of w]
      by (simp add: take_real_def take_exponent_def horner_append)
  qed
  ultimately show ?thesis by (simp add: strtod_def)
qed

lemma stod_to_string_f:
  assumes "16 \<le> x" "x < 64" "r32 x = x"
  shows "map_option fp_to_f32 (stod (to_string_f (Fin x))) = Some (Fin x)"
proof -
  define N where "N = round_even (x * 10 ^ 6)"
  define n where "n = nat N"
  obtain y where y: "f64 (of_int N / 10 ^ 6) = Fin y" "r32 y = x" "16 \<le> N div 10 ^ 6"
    using printed_near [OF assms N_def] by blast
  have N: "0 \<le> N" using y(3) by simp
  have s: "to_string_f (Fin x) = digits (n div 10 ^ 6) @ ''.'' @ pad_left 6 (digits (n mod 10 ^ 6))"
    using assms(1) by (simp add: to_string_f_def fmt_fixed_def Let_def n_def N_def abs_if)
  have "of_nat (n div 10 ^ 6 * 10 ^ 6 + n mod 10 ^ 6) = (of_int N :: rat)"
    using N by (simp only: div_mult_mod_eq n_def of_nat_nat)
  then have t: "strtod (to_string_f (Fin x)) = Some (False, Inl (of_int N / 10 ^ 6))"
    unfolding s using strtod_printed [of "n mod 10 ^ 6" "n div 10 ^ 6"] by simp
  have "(1::rat) \<le> of_int N / 10 ^ 6"
  proof -
    have "16 * 10 ^ 6 \<le> N" using y(3) by simp
    then have "of_int (16 * 10 ^ 6) \<le> (of_int N :: rat)" by (simp only: of_int_le_iff)
    then show ?thesis by simp
  qed
  moreover have "(2::rat) powi (- 1022) \<le> 1" using power_int_increasing [of "- 1022" 0 "2::rat"] by simp
  ultimately have "stod (to_string_f (Fin x)) = Some (Fin y)"
    using y(1) by (simp add: stod_def t)
  moreover have "f32 y = Fin x"
    using y(2) assms(1,2) by (simp add: f32_def fp_round_def Let_def power_int_def)
  ultimately show ?thesis by simp
qed

end
