(* ===== verification/Logger.thy ===== *)
theory Logger
  imports Text_Format
begin

text \<open>
  The logger of \<open>src/utils/Logger.cpp\<close>, its macros in \<open>include/utils/Logger.hpp\<close> and the C bridge
  \<open>src/utils/LoggerC.cpp\<close>: which messages are written, where, and the text of a line. The mutex
  makes every call of \<open>log\<close> one step. \<open>gmtime_r\<close> and \<open>snprintf\<close> are modelled as far as the lines need them.
\<close>

section \<open>Levels and entries\<close>

datatype LogLevel = Trace | Debug | Info | Warn | Error | Fatal

primrec level_int :: "LogLevel \<Rightarrow> int" where
  "level_int Trace = 0"
| "level_int Debug = 1"
| "level_int Info = 2"
| "level_int Warn = 3"
| "level_int Error = 4"
| "level_int Fatal = 5"

text \<open>The level of an entry is an \<open>int\<close>: the C functions cast any number. The time is in milliseconds since 1970.\<close>

record LogEntry =
  le_level :: int
  le_tag :: string
  le_message :: string
  le_file :: string
  le_line :: int
  le_function :: string
  le_timestamp :: nat

section \<open>Dates\<close>

definition leap :: "nat \<Rightarrow> bool" where
  "leap y \<longleftrightarrow> y mod 4 = 0 \<and> (y mod 100 \<noteq> 0 \<or> y mod 400 = 0)"

definition year_days :: "nat \<Rightarrow> nat" where
  "year_days y = (if leap y then 366 else 365)"

definition month_days :: "nat \<Rightarrow> nat list" where
  "month_days y = [31, if leap y then 29 else 28, 31, 30, 31, 30, 31, 31, 30, 31, 30, 31]"

text \<open>The year, counted from \<open>y\<close>, in which day \<open>d\<close> falls, and the day of that year.\<close>

function year_of :: "nat \<Rightarrow> nat \<Rightarrow> nat \<times> nat" where
  "year_of y d = (if d < year_days y then (y, d) else year_of (Suc y) (d - year_days y))"
  by pat_completeness auto
termination
  by (relation "measure snd") (auto simp: year_days_def)

declare year_of.simps [simp del]

fun month_of :: "nat list \<Rightarrow> nat \<Rightarrow> nat \<Rightarrow> nat \<times> nat" where
  "month_of [] m d = (m, d)"
| "month_of (l # ls) m d = (if d < l then (m, d) else month_of ls (Suc m) (d - l))"

text \<open>\<open>tm_year + 1900\<close>, \<open>tm_mon + 1\<close>, \<open>tm_mday\<close>, \<open>tm_hour\<close>, \<open>tm_min\<close> and \<open>tm_sec\<close> of a time in seconds.\<close>

definition gmtime :: "nat \<Rightarrow> nat \<times> nat \<times> nat \<times> nat \<times> nat \<times> nat" where
  "gmtime t = (case year_of 1970 (t div 86400) of (y, d) \<Rightarrow>
     case month_of (month_days y) 1 d of (m, d) \<Rightarrow>
       (y, m, d + 1, t mod 86400 div 3600, t mod 3600 div 60, t mod 60))"

section \<open>The text of a line\<close>

definition pad_right :: "nat \<Rightarrow> string \<Rightarrow> string" where
  "pad_right k s = s @ replicate (k - length s) (CHR '' '')"

definition fmt_0d :: "nat \<Rightarrow> nat \<Rightarrow> string" where
  "fmt_0d k n = pad_left k (digits n)"

definition formatTimestamp :: "nat \<Rightarrow> string" where
  "formatTimestamp tp = (case gmtime (tp div 1000) of (y, mo, d, h, mi, s) \<Rightarrow>
     fmt_0d 4 y @ ''-'' @ fmt_0d 2 mo @ ''-'' @ fmt_0d 2 d @ '' '' @
     fmt_0d 2 h @ '':'' @ fmt_0d 2 mi @ '':'' @ fmt_0d 2 s @ ''.'' @ fmt_0d 3 (tp mod 1000))"

definition formatLevel :: "int \<Rightarrow> string" where
  "formatLevel level =
     (if level = 0 then ''Trace'' else if level = 1 then ''Debug'' else if level = 2 then ''Info ''
      else if level = 3 then ''Warn '' else if level = 4 then ''Error'' else if level = 5 then ''Fatal''
      else ''?????'')"

definition log_line :: "LogEntry \<Rightarrow> string" where
  "log_line entry =
     ''['' @ formatTimestamp (le_timestamp entry) @ ''] ['' @ pad_right 5 (formatLevel (le_level entry)) @ ''] ['' @
     pad_right 9 (le_tag entry) @ ''] '' @ le_message entry @ '' ('' @ le_file entry @ '':'' @ fmt_d (le_line entry) @ '')'' @
     [CHR 0x0A]"

section \<open>The outputs\<close>

text \<open>What has been written: the standard streams, and the file behind each handle.\<close>

record streams =
  to_stdout :: string
  to_stderr :: string
  to_file :: "nat \<Rightarrow> string"

text \<open>A file output that could not be opened has no handle.\<close>

datatype LogOutput = ConsoleLogOutput | FileLogOutput "nat option"

fun output_write :: "LogOutput \<Rightarrow> LogEntry \<Rightarrow> streams \<Rightarrow> streams" where
  "output_write ConsoleLogOutput entry w =
     (if le_level entry \<ge> level_int Warn then w\<lparr>to_stderr := to_stderr w @ log_line entry\<rparr>
      else w\<lparr>to_stdout := to_stdout w @ log_line entry\<rparr>)"
| "output_write (FileLogOutput None) entry w = w"
| "output_write (FileLogOutput (Some h)) entry w = w\<lparr>to_file := (to_file w)(h := to_file w h @ log_line entry)\<rparr>"

record Logger =
  lg_level :: int
  lg_outputs :: "LogOutput list"

definition Logger_init :: Logger where
  "Logger_init = \<lparr>lg_level = level_int Info, lg_outputs = [ConsoleLogOutput]\<rparr>"

definition setLevel :: "LogLevel \<Rightarrow> Logger \<Rightarrow> Logger" where
  "setLevel level g = g\<lparr>lg_level := level_int level\<rparr>"

definition shouldLog :: "int \<Rightarrow> Logger \<Rightarrow> bool" where
  "shouldLog level g \<longleftrightarrow> level \<ge> lg_level g"

definition addOutput :: "LogOutput \<Rightarrow> Logger \<Rightarrow> Logger" where
  "addOutput out g = g\<lparr>lg_outputs := lg_outputs g @ [out]\<rparr>"

definition setOutput :: "LogOutput \<Rightarrow> Logger \<Rightarrow> Logger" where
  "setOutput out g = g\<lparr>lg_outputs := [out]\<rparr>"

definition Logger_log :: "Logger \<Rightarrow> LogEntry \<Rightarrow> streams \<Rightarrow> streams" where
  "Logger_log g entry w = fold (\<lambda>out. output_write out entry) (lg_outputs g) w"

text \<open>
  The macro \<open>WINDMI_LOG\<close>: the test of the level, then the formatted message, cut to the 512-byte buffer, and the
  call. \<open>WINDMI_C_LOG\<close> with \<open>windmi_should_log\<close> and \<open>windmi_log\<close> does the same with a level that is any number.
\<close>

definition WINDMI_LOG :: "Logger \<Rightarrow> LogEntry \<Rightarrow> streams \<Rightarrow> streams" where
  "WINDMI_LOG g entry w =
     (if shouldLog (le_level entry) g then Logger_log g (entry\<lparr>le_message := take 511 (le_message entry)\<rparr>) w else w)"

definition windmi_should_log :: "int \<Rightarrow> Logger \<Rightarrow> bool" where
  "windmi_should_log level g = shouldLog level g"

definition windmi_log :: "Logger \<Rightarrow> LogEntry \<Rightarrow> streams \<Rightarrow> streams" where
  "windmi_log g entry w = Logger_log g (entry\<lparr>le_message := take 511 (le_message entry)\<rparr>) w"

definition WINDMI_C_LOG :: "Logger \<Rightarrow> LogEntry \<Rightarrow> streams \<Rightarrow> streams" where
  "WINDMI_C_LOG g entry w = (if windmi_should_log (le_level entry) g then windmi_log g entry w else w)"

lemma WINDMI_C_LOG_eq: "WINDMI_C_LOG = WINDMI_LOG"
  by (intro ext) (simp add: WINDMI_C_LOG_def WINDMI_LOG_def windmi_should_log_def windmi_log_def)

section \<open>What is written\<close>

text \<open>The lines of the entries that pass the level, in order.\<close>

definition logged_text :: "(LogEntry \<Rightarrow> bool) \<Rightarrow> Logger \<Rightarrow> LogEntry list \<Rightarrow> string" where
  "logged_text P g es =
     concat (map (\<lambda>e. log_line (e\<lparr>le_message := take 511 (le_message e)\<rparr>)) (filter (\<lambda>e. lg_level g \<le> le_level e \<and> P e) es))"

lemma logged_text_Nil [simp]: "logged_text P g [] = []"
  by (simp add: logged_text_def)

lemma logged_text_Cons [simp]:
  "logged_text P g (e # es) =
     (if lg_level g \<le> le_level e \<and> P e then log_line (e\<lparr>le_message := take 511 (le_message e)\<rparr>) else []) @ logged_text P g es"
  by (simp add: logged_text_def)

section \<open>Reading a timestamp back\<close>

text \<open>The number in the \<open>k\<close> characters from \<open>i\<close> on, the days since 1970 of a date, and the time a timestamp stands for.\<close>

definition field :: "nat \<Rightarrow> nat \<Rightarrow> string \<Rightarrow> nat" where
  "field i k s = horner 10 (map digit_val (take k (drop i s)))"

definition days_of :: "nat \<Rightarrow> nat \<Rightarrow> nat \<Rightarrow> nat" where
  "days_of y m d = (\<Sum>i = 1970..<y. year_days i) + sum_list (take (m - 1) (month_days y)) + (d - 1)"

definition read_timestamp :: "string \<Rightarrow> nat" where
  "read_timestamp s =
     (((days_of (field 0 4 s) (field 5 2 s) (field 8 2 s) * 24 + field 11 2 s) * 60 + field 14 2 s) * 60 + field 17 2 s) * 1000 +
     field 20 3 s"

lemma year_of_spec:
  "year_of y d = (y', r) \<Longrightarrow> y \<le> y' \<and> r < year_days y' \<and> d = (\<Sum>i = y..<y'. year_days i) + r"
proof (induction y d rule: year_of.induct)
  case (1 y d)
  show ?case
  proof (cases "d < year_days y")
    case True
    then show ?thesis using "1.prems" by (simp add: year_of.simps [of y d])
  next
    case False
    then have "year_of (Suc y) (d - year_days y) = (y', r)" using "1.prems" by (simp add: year_of.simps [of y d])
    from "1.IH" [OF False this] False show ?thesis by (auto simp: sum.atLeast_Suc_lessThan)
  qed
qed

lemma month_of_spec:
  "month_of ls m d = (m', r) \<Longrightarrow> d < sum_list ls \<Longrightarrow>
     m \<le> m' \<and> m' - m < length ls \<and> d = sum_list (take (m' - m) ls) + r \<and> r < ls ! (m' - m)"
proof (induction ls m d rule: month_of.induct)
  case (2 l ls m d)
  show ?case
  proof (cases "d < l")
    case False
    then have "Suc m \<le> m' \<and> m' - Suc m < length ls \<and> d - l = sum_list (take (m' - Suc m) ls) + r \<and> r < ls ! (m' - Suc m)"
      using 2 by simp
    moreover from this have "m' - m = Suc (m' - Suc m)" by arith
    ultimately show ?thesis using False by auto
  qed (use 2 in simp)
qed simp

lemma month_days_bounds: "sum_list (month_days y) = year_days y" "length (month_days y) = 12"
    "i < 12 \<Longrightarrow> month_days y ! i \<le> 31"
  by (auto simp: month_days_def year_days_def nth_Cons' numeral_eq_Suc less_Suc_eq)

lemma hms_sum:
  fixes r :: nat
  shows "r = h * 3600 + q \<Longrightarrow> q = m * 60 + s \<Longrightarrow> d * 86400 + r = t \<Longrightarrow> ((d * 24 + h) * 60 + m) * 60 + s = t"
  by simp

lemma gmtime_spec:
  assumes "gmtime t = (y, mo, d, h, mi, s)"
  shows "1 \<le> mo \<and> mo \<le> 12 \<and> 1 \<le> d \<and> d \<le> 31 \<and> h < 24 \<and> mi < 60 \<and> s < 60 \<and>
    t = ((days_of y mo d * 24 + h) * 60 + mi) * 60 + s"
proof -
  obtain r where r: "year_of 1970 (t div 86400) = (y, r)" "month_of (month_days y) 1 r = (mo, d - 1)" "1 \<le> d"
    and hms: "h = t mod 86400 div 3600" "mi = t mod 3600 div 60" "s = t mod 60"
    using assms by (auto simp: gmtime_def split: prod.splits)
  note yr = year_of_spec [OF r(1)]
  have "r < sum_list (month_days y)" using yr by (simp add: month_days_bounds)
  note mo = month_of_spec [OF r(2) this]
  have "days_of y mo d = t div 86400" using yr mo by (simp add: days_of_def)
  moreover have "((t div 86400 * 24 + t mod 86400 div 3600) * 60 + t mod 3600 div 60) * 60 + t mod 60 = t"
  proof -
    have "t mod 86400 mod 3600 = t mod 3600" "t mod 3600 mod 60 = t mod 60" by (simp_all add: mod_mod_cancel)
    then have "t mod 86400 = t mod 86400 div 3600 * 3600 + t mod 3600" "t mod 3600 = t mod 3600 div 60 * 60 + t mod 60"
      by (metis div_mult_mod_eq)+
    then show ?thesis using div_mult_mod_eq [of t 86400] by (intro hms_sum)
  qed
  moreover have "d \<le> 31" using mo month_days_bounds(2) [of y] month_days_bounds(3) [of "mo - 1" y] r(3) by fastforce
  moreover have "mo - 1 < 12" using mo month_days_bounds(2) [of y] by simp
  then have "mo \<le> 12" by simp
  moreover have "h < 24" "mi < 60" "s < 60" using hms by (auto simp: less_mult_imp_div_less)
  ultimately show ?thesis using mo r(3) hms month_days_bounds(2) [of y] by auto
qed

lemma field_at:
  assumes "length a = i" "n < 10 ^ k" "0 < k"
  shows "field i k (a @ fmt_0d k n @ b) = n"
  using assms pad_left_vals [OF assms(2,3)] by (simp add: field_def fmt_0d_def)

section \<open>Properties\<close>

text \<open>
  The console and the log file get every message that passes the level, once, whole lines in the order
  of the calls: with the outputs that \<open>main\<close> installs, after any sequence of log calls the standard output has
  the lines below \<open>Warn\<close>, the error output those from \<open>Warn\<close> on, the file all of them, and nothing else
  is written.
\<close>

theorem log_lines_complete:
  assumes "lg_outputs g = [ConsoleLogOutput, FileLogOutput (Some h)]"
  shows "fold (WINDMI_LOG g) es w =
    \<lparr>to_stdout = to_stdout w @ logged_text (\<lambda>e. le_level e < level_int Warn) g es,
     to_stderr = to_stderr w @ logged_text (\<lambda>e. le_level e \<ge> level_int Warn) g es,
     to_file = (to_file w)(h := to_file w h @ logged_text (\<lambda>e. True) g es)\<rparr>"
proof (induction es arbitrary: w)
  case Nil
  then show ?case by (cases w) simp
next
  case (Cons e es)
  show ?case unfolding fold_Cons comp_apply Cons.IH
    using assms by (auto simp: WINDMI_LOG_def shouldLog_def Logger_log_def)
qed

theorem log_lines_complete_witness:
  "to_stderr (fold (WINDMI_LOG (addOutput (FileLogOutput (Some 3)) Logger_init))
     [\<lparr>le_level = 1, le_tag = ''Main'', le_message = ''x'', le_file = ''m'', le_line = 1, le_function = ''f'', le_timestamp = 0\<rparr>]
     \<lparr>to_stdout = [], to_stderr = ''e'', to_file = (\<lambda>h. [])\<rparr>) = ''e''"
  by (subst log_lines_complete [where h = 3]) (simp_all add: addOutput_def Logger_init_def)

text \<open>
  A log line says exactly when it was written: up to the year 9999 the timestamp of a time has 23
  characters, and the date and the time of day in it are those of this millisecond.
\<close>

theorem timestamp_roundtrip:
  assumes "fst (gmtime (tp div 1000)) < 10000"
  shows "length (formatTimestamp tp) = 23 \<and> read_timestamp (formatTimestamp tp) = tp"
proof -
  obtain y mo d h mi s where g: "gmtime (tp div 1000) = (y, mo, d, h, mi, s)" by (cases "gmtime (tp div 1000)")
  note b = gmtime_spec [OF g]
  have y: "y < 10000" using assms g by simp
  have len: "length (fmt_0d 4 y) = 4" "length (fmt_0d 2 mo) = 2" "length (fmt_0d 2 d) = 2" "length (fmt_0d 2 h) = 2"
      "length (fmt_0d 2 mi) = 2" "length (fmt_0d 2 s) = 2" "length (fmt_0d 3 (tp mod 1000)) = 3"
    using b y by (simp_all add: fmt_0d_def pad_left_vals(2))
  let ?f = "formatTimestamp tp"
  have f: "?f = fmt_0d 4 y @ ''-'' @ fmt_0d 2 mo @ ''-'' @ fmt_0d 2 d @ '' '' @ fmt_0d 2 h @ '':'' @ fmt_0d 2 mi @ '':'' @
      fmt_0d 2 s @ ''.'' @ fmt_0d 3 (tp mod 1000)"
    by (simp add: formatTimestamp_def g)
  have "field 0 4 ?f = y" "field 5 2 ?f = mo" "field 8 2 ?f = d" "field 11 2 ?f = h" "field 14 2 ?f = mi" "field 17 2 ?f = s"
      "field 20 3 ?f = tp mod 1000"
    using field_at [of "[]" 0 y 4] field_at [of "fmt_0d 4 y @ ''-''" 5 mo 2]
      field_at [of "fmt_0d 4 y @ ''-'' @ fmt_0d 2 mo @ ''-''" 8 d 2]
      field_at [of "fmt_0d 4 y @ ''-'' @ fmt_0d 2 mo @ ''-'' @ fmt_0d 2 d @ '' ''" 11 h 2]
      field_at [of "fmt_0d 4 y @ ''-'' @ fmt_0d 2 mo @ ''-'' @ fmt_0d 2 d @ '' '' @ fmt_0d 2 h @ '':''" 14 mi 2]
      field_at [of "fmt_0d 4 y @ ''-'' @ fmt_0d 2 mo @ ''-'' @ fmt_0d 2 d @ '' '' @ fmt_0d 2 h @ '':'' @ fmt_0d 2 mi @ '':''" 17 s 2]
      field_at [of "fmt_0d 4 y @ ''-'' @ fmt_0d 2 mo @ ''-'' @ fmt_0d 2 d @ '' '' @ fmt_0d 2 h @ '':'' @ fmt_0d 2 mi @ '':'' @
        fmt_0d 2 s @ ''.''" 20 "tp mod 1000" 3 "[]"] b y len
    unfolding f by simp_all
  moreover have "tp = (tp div 1000) * 1000 + tp mod 1000" by simp
  ultimately have "read_timestamp ?f = tp" unfolding read_timestamp_def using b by metis
  then show ?thesis using len by (simp add: f)
qed

theorem timestamp_roundtrip_witness:
  "length (formatTimestamp 5097600123) = 23 \<and> read_timestamp (formatTimestamp 5097600123) = 5097600123"
  by (rule timestamp_roundtrip) (simp add: gmtime_def year_of.simps year_days_def leap_def month_days_def)

end
