(* ===== verification/Selftest_C.thy ===== *)
theory Selftest_C
  imports Selftest Tcp_Correct Logger
begin

text \<open>
  The self-test in C, \<open>src/selftest.c\<close>, on the functions of the network client, its equivalence with the
  self-test of \<open>src/selftest.cpp\<close> on the class around these functions, and the report that both
  print. \<open>None\<close> is a call that does not return.
\<close>

section \<open>The tests\<close>

definition c_test_read ::
    "'n sockets \<Rightarrow> string \<Rightarrow> u16 \<Rightarrow> (i16 \<Rightarrow> bool) \<Rightarrow> modbus_client_t \<times> 'n \<Rightarrow>
     (SelftestResult \<times> bool \<times> modbus_client_t \<times> 'n) option" where
  "c_test_read sk nm a accept cn =
     (let r = SelftestResult_default\<lparr>r_name := nm, r_address := a, r_write_ok := True, r_verify_ok := True\<rparr>
      in do {
        (v, cn) \<leftarrow> modbus_read_register sk a cn;
        Some (case v of
            None \<Rightarrow> (r, False, cn)
          | Some w \<Rightarrow> (r\<lparr>r_read_ok := True, r_read_value := w\<rparr>, accept w, cn)) })"

definition c_test_write :: "'n sockets \<Rightarrow> modbus_client_t \<times> 'n \<Rightarrow> (SelftestResult \<times> bool \<times> modbus_client_t \<times> 'n) option" where
  "c_test_write sk cn =
     (let r = SelftestResult_default\<lparr>r_name := ''Write Verify Test'', r_address := REG_HEATING_TARGET, r_read_ok := True\<rparr>
      in do {
        (original_heating, cn) \<leftarrow> modbus_read_register sk REG_HEATING_TARGET cn;
        case original_heating of
          None \<Rightarrow> Some (r, False, cn)
        | Some original_heating \<Rightarrow> do {
            (written, cn) \<leftarrow> modbus_write_register sk REG_HEATING_TARGET selftest_value cn;
            if \<not> written then Some (r, False, cn)
            else do {
              (verify_value, cn) \<leftarrow> modbus_read_register sk REG_HEATING_TARGET cn;
              let good = (verify_value = Some selftest_value);
                  r = r\<lparr>r_write_ok := True, r_verify_ok := good\<rparr>
              in do {
                (restored, cn) \<leftarrow> modbus_write_register sk REG_HEATING_TARGET original_heating cn;
                Some (r, good \<and> restored, cn) } } } })"

definition selftest_run_c :: "'n sockets \<Rightarrow> modbus_client_t \<times> 'n \<Rightarrow> (SelftestReport \<times> modbus_client_t \<times> 'n) option" where
  "selftest_run_c sk cn = do {
     (r1, b1, cn) \<leftarrow> c_test_read sk ''Device Type'' REG_DEVICE_TYPE (\<lambda>v. v = 8) cn;
     (r2, b2, cn) \<leftarrow> c_test_read sk ''Heating Setpoint'' REG_HEATING_TARGET (\<lambda>v. True) cn;
     (r3, b3, cn) \<leftarrow> c_test_read sk ''DHW Setpoint'' REG_DHW_TARGET (\<lambda>v. True) cn;
     (r4, b4, cn) \<leftarrow> c_test_read sk ''Outdoor Temp'' REG_OUTDOOR_TEMP (\<lambda>v. True) cn;
     (r5, b5, cn) \<leftarrow> c_test_read sk ''DHW Tank Temp'' REG_DHW_TANK_TEMP (\<lambda>v. True) cn;
     (r6, b6, cn) \<leftarrow> c_test_write sk cn;
     let rs = [r1, r2, r3, r4, r5, r6]
     in Some (\<lparr>rep_total = 6, rep_passed = length (filter result_passed rs),
               rep_failed = length (filter (\<lambda>r. \<not> result_passed r) rs),
               rep_all_critical_passed = (b1 \<and> b2 \<and> b3 \<and> b4 \<and> b5 \<and> b6), rep_results = rs\<rparr>, cn) }"

section \<open>Equivalence with the class\<close>

text \<open>The class throws where the functions return an error code.\<close>

lemma tcp_ops_calls:
  "modbus_read_register sk a (c, n) = Some (v, c', n') \<Longrightarrow>
     \<exists>e. m_readRegister (tcp_ops sk) a (Some c, n) = ((case v of None \<Rightarrow> Inl e | Some w \<Rightarrow> Inr w), (Some c', n'))"
  "modbus_write_register sk a w (c, n) = Some (b, c', n') \<Longrightarrow>
     \<exists>e. m_writeRegister (tcp_ops sk) a w (Some c, n) = ((if b then Inr () else Inl e), (Some c', n'))"
  by (simp_all add: tcp_ops_def tcp_readRegister_def tcp_writeRegister_def split: option.split)

lemma c_test_read_eq:
  assumes "c_test_read sk nm a accept (c, n) = Some (r, b, c', n')"
  shows "selftest_read (tcp_ops sk) nm a accept (Some c, n) = (r, b, (Some c', n'))"
proof -
  obtain v c1 n1 where v: "modbus_read_register sk a (c, n) = Some (v, c1, n1)"
    using assms by (auto simp: c_test_read_def Let_def bind_eq_Some_conv)
  with assms tcp_ops_calls(1) [OF v] show ?thesis
    by (cases v) (auto simp: c_test_read_def selftest_read_def Let_def)
qed

text \<open>The write test of the class also reports the setpoint that it read, where the C code leaves zero.\<close>

text \<open>The part after a successful first read and write.\<close>

lemma c_test_write_written:
  assumes "c_test_write sk (c, n) = Some (r, b, c', n')"
    and v1: "modbus_read_register sk REG_HEATING_TARGET (c, n) = Some (Some w, c1, n1)"
    and v2: "modbus_write_register sk REG_HEATING_TARGET selftest_value (c1, n1) = Some (True, c2, n2)"
    and r1: "m_readRegister (tcp_ops sk) REG_HEATING_TARGET (Some c, n) = (Inr w, (Some c1, n1))"
    and w2: "m_writeRegister (tcp_ops sk) REG_HEATING_TARGET selftest_value (Some c1, n1) = (Inr (), (Some c2, n2))"
  shows "\<exists>v. selftest_write_verify (tcp_ops sk) (Some c, n) = (r\<lparr>r_read_value := v\<rparr>, b, (Some c', n'))"
proof -
  obtain v3 c3 n3 where v3: "modbus_read_register sk REG_HEATING_TARGET (c2, n2) = Some (v3, c3, n3)"
    using assms(1) v1 v2 by (auto simp: c_test_write_def Let_def bind_eq_Some_conv)
  obtain b4 c4 n4 where v4: "modbus_write_register sk REG_HEATING_TARGET w (c3, n3) = Some (b4, c4, n4)"
    using assms(1) v1 v2 v3 by (auto simp: c_test_write_def Let_def bind_eq_Some_conv)
  obtain e3 where r3: "m_readRegister (tcp_ops sk) REG_HEATING_TARGET (Some c2, n2) =
      ((case v3 of None \<Rightarrow> Inl e3 | Some x \<Rightarrow> Inr x), (Some c3, n3))"
    using tcp_ops_calls(1) [OF v3] by blast
  obtain e4 where w4: "m_writeRegister (tcp_ops sk) REG_HEATING_TARGET w (Some c3, n3) =
      ((if b4 then Inr () else Inl e4), (Some c4, n4))"
    using tcp_ops_calls(2) [OF v4] by blast
  have res: "r = SelftestResult_default\<lparr>r_name := ''Write Verify Test'', r_address := REG_HEATING_TARGET, r_read_ok := True,
        r_write_ok := True, r_verify_ok := (v3 = Some selftest_value)\<rparr>"
      "b = (v3 = Some selftest_value \<and> b4)" "c' = c4" "n' = n4"
    using assms(1) by (simp_all add: c_test_write_def v1 v2 v3 v4 Let_def)
  show ?thesis
    unfolding res selftest_write_verify_def r1 w2 Let_def prod.case sum.case option.case if_True r3
    by (rule exI [of _ w], cases v3) (simp_all add: w4 SelftestResult_default_def)
qed

lemma c_test_write_eq:
  assumes "c_test_write sk (c, n) = Some (r, b, c', n')"
  shows "\<exists>v. selftest_write_verify (tcp_ops sk) (Some c, n) = (r\<lparr>r_read_value := v\<rparr>, b, (Some c', n'))"
proof -
  obtain v1 c1 n1 where v1: "modbus_read_register sk REG_HEATING_TARGET (c, n) = Some (v1, c1, n1)"
    using assms by (auto simp: c_test_write_def Let_def bind_eq_Some_conv)
  obtain e1 where r1: "m_readRegister (tcp_ops sk) REG_HEATING_TARGET (Some c, n) =
      ((case v1 of None \<Rightarrow> Inl e1 | Some x \<Rightarrow> Inr x), (Some c1, n1))"
    using tcp_ops_calls(1) [OF v1] by blast
  show ?thesis
  proof (cases v1)
    case None
    then show ?thesis using assms v1 r1 by (auto simp: c_test_write_def selftest_write_verify_def Let_def)
  next
    case (Some w)
    obtain b2 c2 n2 where v2: "modbus_write_register sk REG_HEATING_TARGET selftest_value (c1, n1) = Some (b2, c2, n2)"
      using assms v1 Some by (auto simp: c_test_write_def Let_def bind_eq_Some_conv)
    obtain e2 where w2: "m_writeRegister (tcp_ops sk) REG_HEATING_TARGET selftest_value (Some c1, n1) =
        ((if b2 then Inr () else Inl e2), (Some c2, n2))"
      using tcp_ops_calls(2) [OF v2] by blast
    show ?thesis
    proof (cases b2)
      case False
      then show ?thesis using assms v1 v2 r1 w2 Some by (auto simp: c_test_write_def selftest_write_verify_def Let_def)
    next
      case True
      then show ?thesis using v1 v2 r1 w2 Some by (intro c_test_write_written [OF assms]) simp_all
    qed
  qed
qed

lemma test_bindE:
  assumes "do { (r, b, cn) \<leftarrow> x; f r b cn } = Some y"
  obtains r b c n where "x = Some (r, b, c, n)" "f r b (c, n) = Some y"
  using assms by (cases x) auto

lemma selftest_run_c_eq:
  assumes "selftest_run_c sk (c, n) = Some (rep, c', n')"
  shows "\<exists>v. selftest_run (tcp_ops sk) (Some (Some c, n)) =
    (rep\<lparr>rep_results := (rep_results rep)[5 := (rep_results rep ! 5)\<lparr>r_read_value := v\<rparr>]\<rparr>, Some (Some c', n'))"
proof -
  obtain r1 b1 c1 n1 r2 b2 c2 n2 r3 b3 c3 n3 r4 b4 c4 n4 r5 b5 c5 n5 r6 b6 where
      1: "c_test_read sk ''Device Type'' REG_DEVICE_TYPE (\<lambda>v. v = 8) (c, n) = Some (r1, b1, c1, n1)" and
      2: "c_test_read sk ''Heating Setpoint'' REG_HEATING_TARGET (\<lambda>v. True) (c1, n1) = Some (r2, b2, c2, n2)" and
      3: "c_test_read sk ''DHW Setpoint'' REG_DHW_TARGET (\<lambda>v. True) (c2, n2) = Some (r3, b3, c3, n3)" and
      4: "c_test_read sk ''Outdoor Temp'' REG_OUTDOOR_TEMP (\<lambda>v. True) (c3, n3) = Some (r4, b4, c4, n4)" and
      5: "c_test_read sk ''DHW Tank Temp'' REG_DHW_TANK_TEMP (\<lambda>v. True) (c4, n4) = Some (r5, b5, c5, n5)" and
      6: "c_test_write sk (c5, n5) = Some (r6, b6, c', n')" and
      rep: "rep = \<lparr>rep_total = 6, rep_passed = length (filter result_passed [r1, r2, r3, r4, r5, r6]),
               rep_failed = length (filter (\<lambda>r. \<not> result_passed r) [r1, r2, r3, r4, r5, r6]),
               rep_all_critical_passed = (b1 \<and> b2 \<and> b3 \<and> b4 \<and> b5 \<and> b6), rep_results = [r1, r2, r3, r4, r5, r6]\<rparr>"
    using assms unfolding selftest_run_c_def Let_def
    by (elim test_bindE) (rule that, assumption+, auto)
  obtain v where v: "selftest_write_verify (tcp_ops sk) (Some c5, n5) = (r6\<lparr>r_read_value := v\<rparr>, b6, (Some c', n'))"
    using c_test_write_eq [OF 6] by blast
  have "result_passed (r6\<lparr>r_read_value := v\<rparr>) = result_passed r6" by (simp add: result_passed_def)
  then show ?thesis
    unfolding selftest_run_def option.case c_test_read_eq [OF 1] c_test_read_eq [OF 2] c_test_read_eq [OF 3]
      c_test_read_eq [OF 4] c_test_read_eq [OF 5] v prod.case Let_def rep
    by (intro exI [of _ v]) simp
qed

section \<open>The printed report\<close>

definition nl :: string where
  "nl = [CHR 0x0A]"

definition pad_blank :: "nat \<Rightarrow> string \<Rightarrow> string" where
  "pad_blank k s = replicate (k - length s) (CHR '' '') @ s"

definition hex_char :: "nat \<Rightarrow> char" where
  "hex_char d = (if d < 10 then char_of (48 + d) else char_of (55 + d))"

text \<open>\<open>%04X\<close> of a \<open>uint16_t\<close>: four digits, whatever the value.\<close>

definition fmt_04X :: "u16 \<Rightarrow> string" where
  "fmt_04X a = map (\<lambda>k. hex_char (unat a div 16 ^ k mod 16)) [3, 2, 1, 0]"

definition ok_text :: "bool \<Rightarrow> string" where
  "ok_text b = (if b then ''OK'' else ''FAIL'')"

definition report_row :: "SelftestResult \<Rightarrow> string" where
  "report_row r = pad_right 20 (r_name r) @ ''  0x'' @ fmt_04X (r_address r) @ ''  '' @
     pad_blank 6 (ok_text (r_read_ok r)) @ ''  '' @ pad_blank 6 (ok_text (r_write_ok r)) @ ''  '' @
     pad_blank 6 (ok_text (r_verify_ok r)) @ ''  '' @ pad_blank 10 (fmt_d (sint (r_read_value r))) @ nl"

definition report_rule :: string where
  "report_rule = ''----------------------------------------------------------------'' @ nl"

definition report_columns :: string where
  "report_columns = pad_right 20 ''Test'' @ ''  '' @ pad_blank 8 ''Address'' @ ''  '' @ pad_blank 6 ''Read'' @ ''  '' @
     pad_blank 6 ''Write'' @ ''  '' @ pad_blank 6 ''Verify'' @ ''  '' @ pad_blank 10 ''Value'' @ nl"

definition report_head :: string where
  "report_head = nl @ ''========== Self-Test Report =========='' @ nl @ nl @ ''Test Results:'' @ nl @
     report_columns @ report_rule"

definition report_summary :: "SelftestReport \<Rightarrow> string" where
  "report_summary rep = report_rule @ nl @ ''Summary:'' @ nl @
     ''  Total tests: '' @ fmt_d (int (rep_total rep)) @ nl @
     ''  Passed: '' @ fmt_d (int (rep_passed rep)) @ nl @
     ''  Failed: '' @ fmt_d (int (rep_failed rep)) @ nl @
     ''  All critical passed: '' @ (if rep_all_critical_passed rep then ''YES'' else ''NO'') @ nl @
     nl @ ''========================================'' @ nl"

definition selftest_print_report :: "SelftestReport \<Rightarrow> string" where
  "selftest_print_report rep =
     report_head @ concat (map (\<lambda>i. report_row (rep_results rep ! i)) [0..<rep_total rep]) @ report_summary rep"

text \<open>The C function also takes a null pointer.\<close>

definition selftest_print_report_c :: "SelftestReport option \<Rightarrow> string" where
  "selftest_print_report_c report = (case report of None \<Rightarrow> [] | Some rep \<Rightarrow> selftest_print_report rep)"

text \<open>A row is 64 characters wide, as the rule is; the line of headings is two wider, for the wider column of the address.\<close>

lemma fmt_d_i16: "length (fmt_d (sint (v::i16))) \<le> 6"
proof -
  have "nat (sint v) < 10 ^ 5" "nat (- sint v) < 10 ^ 5" using sint_i16_range [of v] by auto
  then have "length (digits (nat (sint v))) \<le> 5" "length (digits (nat (- sint v))) \<le> 5"
    by (auto intro!: length_digits)
  then show ?thesis by (simp add: fmt_d_def)
qed

lemma length_pad [simp]: "length (pad_right k s) = max k (length s)" "length (pad_blank k s) = max k (length s)"
  by (simp_all add: pad_right_def pad_blank_def)

lemma report_row_width: "length (r_name r) \<le> 20 \<Longrightarrow> length (report_row r) = 65"
  using fmt_d_i16 [of "r_read_value r"] by (simp add: report_row_def fmt_04X_def ok_text_def nl_def)

lemma report_columns_width: "length report_columns = 67" "length report_rule = 65"
  by (simp_all add: report_columns_def report_rule_def nl_def)

section \<open>A working link\<close>

context rtu_link
begin

lemma c_test_read_link:
  assumes "link n" "linked c"
  shows "\<exists>r b n'. c_test_read sk nm a accept (c, n) = Some (r, b, c, n') \<and> link n'"
proof -
  obtain v n' where "modbus_read_register sk a (c, n) = Some (v, c, n')" "link n'"
    using read_link [OF assms, of a] read_link_refused [OF assms, of a] by blast
  then show ?thesis by (cases v) (auto simp: c_test_read_def Let_def)
qed

lemma c_test_write_link:
  assumes "link n" "linked c" "REG_HEATING_TARGET \<in> held"
  shows "\<exists>r b n'. c_test_write sk (c, n) = Some (r, b, c, n') \<and> link n'"
proof -
  let ?h = REG_HEATING_TARGET
  obtain v n1 where n1: "modbus_read_register sk ?h (c, n) = Some (v, c, n1)" "link n1"
    using read_link [OF assms(1,2), of ?h] read_link_refused [OF assms(1,2), of ?h] by blast
  show ?thesis
  proof (cases v)
    case None
    with n1 show ?thesis by (auto simp: c_test_write_def Let_def)
  next
    case (Some w)
    obtain n2 where n2: "modbus_write_register sk ?h selftest_value (c, n1) = Some (True, c, n2)" "link n2"
      using write_link [OF n1(2) assms(2,3)] by blast
    obtain v3 n3 where n3: "modbus_read_register sk ?h (c, n2) = Some (v3, c, n3)" "link n3"
      using read_link [OF n2(2) assms(2), of ?h] read_link_refused [OF n2(2) assms(2), of ?h] by blast
    obtain n4 where n4: "modbus_write_register sk ?h w (c, n3) = Some (True, c, n4)" "link n4"
      using write_link [OF n3(2) assms(2,3)] by blast
    show ?thesis using n4(2) by (simp add: c_test_write_def n1(1) n2(1) n3(1) n4(1) Some Let_def)
  qed
qed

lemma selftest_run_c_link:
  assumes "link n" "linked c" "REG_HEATING_TARGET \<in> held"
  shows "\<exists>rep n'. selftest_run_c sk (c, n) = Some (rep, c, n') \<and> link n'"
proof -
  note test = c_test_read_link [OF _ assms(2)]
  obtain r1 b1 n1 where 1: "c_test_read sk ''Device Type'' REG_DEVICE_TYPE (\<lambda>v. v = 8) (c, n) = Some (r1, b1, c, n1)" "link n1"
    using test [OF assms(1)] by blast
  obtain r2 b2 n2 where 2: "c_test_read sk ''Heating Setpoint'' REG_HEATING_TARGET (\<lambda>v. True) (c, n1) = Some (r2, b2, c, n2)" "link n2"
    using test [OF 1(2)] by blast
  obtain r3 b3 n3 where 3: "c_test_read sk ''DHW Setpoint'' REG_DHW_TARGET (\<lambda>v. True) (c, n2) = Some (r3, b3, c, n3)" "link n3"
    using test [OF 2(2)] by blast
  obtain r4 b4 n4 where 4: "c_test_read sk ''Outdoor Temp'' REG_OUTDOOR_TEMP (\<lambda>v. True) (c, n3) = Some (r4, b4, c, n4)" "link n4"
    using test [OF 3(2)] by blast
  obtain r5 b5 n5 where 5: "c_test_read sk ''DHW Tank Temp'' REG_DHW_TANK_TEMP (\<lambda>v. True) (c, n4) = Some (r5, b5, c, n5)" "link n5"
    using test [OF 4(2)] by blast
  obtain r6 b6 n6 where 6: "c_test_write sk (c, n5) = Some (r6, b6, c, n6)" "link n6"
    using c_test_write_link [OF 5(2) assms(2,3)] by blast
  show ?thesis
    unfolding selftest_run_c_def 1(1) 2(1) 3(1) 4(1) 5(1) 6(1) bind.bind_lunit prod.case Let_def using 6(2) by blast
qed

end

section \<open>Properties\<close>

text \<open>
  C35. The self-test in C and the one in C++ are the same test: whenever the C function returns, on any device,
  the C++ one does the same with the device and reports the same, but for the value of the last row, where
  the C code leaves zero; and on a working connection, with any device that lets the heating target be
  written, the C function does return.
\<close>

theorem selftest_c_agrees:
  "(\<forall>rep c' n'. selftest_run_c sk (c, n) = Some (rep, c', n') \<longrightarrow>
      (\<exists>v. selftest_run (tcp_ops sk) (Some (Some c, n)) =
        (rep\<lparr>rep_results := (rep_results rep)[5 := (rep_results rep ! 5)\<lparr>r_read_value := v\<rparr>]\<rparr>, Some (Some c', n')))) \<and>
   (rtu_link sk slave fd link rx regs held readable \<and> link n \<and> mc_connected c \<and> mc_socket_fd c = fd \<and>
      mc_slave_id c = slave \<and> REG_HEATING_TARGET \<in> held \<longrightarrow> selftest_run_c sk (c, n) \<noteq> None)"
  using selftest_run_c_eq [of sk c n] rtu_link.selftest_run_c_link [of sk slave fd link rx regs held readable n c] by auto

theorem selftest_c_agrees_witness:
  "\<exists>rep c' n' v. selftest_run_c (gateway_sockets 11 pump_registers 1) (pump_conn, pump_wire) = Some (rep, c', n') \<and>
    selftest_run (tcp_ops (gateway_sockets 11 pump_registers 1)) (Some (Some pump_conn, pump_wire)) =
      (rep\<lparr>rep_results := (rep_results rep)[5 := (rep_results rep ! 5)\<lparr>r_read_value := v\<rparr>]\<rparr>, Some (Some c', n'))"
proof -
  have "rtu_link (gateway_sockets 11 pump_registers 1) 11 3 (\<lambda>g. True) gw_rx gw_regs (set pump_registers) (set pump_registers)"
    by (rule gw.rtu_link_axioms)
  then show ?thesis
    using selftest_c_agrees [of "gateway_sockets 11 pump_registers 1" pump_conn pump_wire 11 3 "\<lambda>g. True" gw_rx gw_regs
        "set pump_registers" "set pump_registers"]
    by (simp add: pump_registers_def) blast
qed

end
