(* ===== verification/Web_Server.thy ===== *)
theory Web_Server
  imports Control_Thread Text_Format
begin

text \<open>
  \<open>WebServer\<close> of \<open>include/web/WebServer.hpp\<close> and \<open>src/web/WebServer.cpp\<close>: the routing of
  requests, the handlers of the API and the status text. The HTTP library is not part of the
  program: its string comparisons and its JSON getters are the parameter \<open>mg\<close>, and an open
  connection is the reply that is sent on it. The queues are the ones shared with the control
  loop; \<open>wake_calls\<close> counts the calls of the wake-up callback. Log output is left out.
\<close>

section \<open>The library and the object\<close>

record mongoose =
  mg_strcmp :: "string \<Rightarrow> string \<Rightarrow> int"
  mg_strcasecmp :: "string \<Rightarrow> string \<Rightarrow> int"
  mg_json_get_num :: "string \<Rightarrow> string \<Rightarrow> fp option"
  mg_json_get_str :: "string \<Rightarrow> string \<Rightarrow> string option"
  mg_json_get_long :: "string \<Rightarrow> string \<Rightarrow> int \<Rightarrow> int"

record mg_http_message =
  hm_method :: string
  hm_uri :: string
  hm_body :: string

datatype reply = JsonReply int string | ServeDir string

record WebServer =
  static_dir :: string
  w_cmd_queue :: "Command CmdQueue option"
  w_status_queue :: "StatusSnapshot StatusQueue option"
  last_status :: StatusSnapshot
  w_running :: bool
  shutting_down :: bool
  mgr_freed :: bool
  wake_callback :: bool
  wake_calls :: nat

text \<open>The constructor, for the case that the library could (or could not) listen on the port.\<close>

definition WebServer_init ::
    "bool \<Rightarrow> string \<Rightarrow> Command CmdQueue option \<Rightarrow> StatusSnapshot StatusQueue option \<Rightarrow> bool \<Rightarrow> WebServer option" where
  "WebServer_init listening dir cmds stats wake =
     (if \<not> listening then None
      else Some \<lparr>static_dir = dir, w_cmd_queue = cmds, w_status_queue = stats,
                 last_status = StatusSnapshot_default, w_running = True, shutting_down = False,
                 mgr_freed = False, wake_callback = wake, wake_calls = 0\<rparr>)"

definition WebServer_stop :: "WebServer \<Rightarrow> WebServer" where
  "WebServer_stop w = w\<lparr>shutting_down := True, w_running := False\<rparr>"

definition isShuttingDown :: "WebServer \<Rightarrow> bool" where
  "isShuttingDown w = shutting_down w"

definition WebServer_destroy :: "WebServer \<Rightarrow> WebServer" where
  "WebServer_destroy w = (WebServer_stop w)\<lparr>mgr_freed := True\<rparr>"

section \<open>Text\<close>

definition mode_to_string :: "int \<Rightarrow> string" where
  "mode_to_string mode =
     (if mode = MODE_SET_OFF then ''off''
      else if mode = MODE_SET_COOL_DHW then ''cool+dhw''
      else if mode = MODE_SET_HEAT_DHW then ''heat+dhw''
      else ''unknown'')"

definition status_to_string :: "int \<Rightarrow> string" where
  "status_to_string stat =
     (if stat = MODE_STATUS_OFF then ''off''
      else if stat = MODE_STATUS_COOL then ''cool''
      else if stat = MODE_STATUS_HEAT then ''heat''
      else if stat = MODE_STATUS_DHW then ''dhw''
      else if stat = MODE_STATUS_DEFROST then ''defrost''
      else if stat = MODE_STATUS_ANTIFREEZE then ''antifreeze''
      else ''unknown'')"

definition json_bool :: "bool \<Rightarrow> string" where
  "json_bool b = (if b then ''true'' else ''false'')"

text \<open>The text that the format of \<open>apiStatusHandler\<close> describes, before it is cut to the buffer.\<close>

definition status_parts :: "StatusSnapshot \<Rightarrow> string list" where
  \<open>status_parts st =
     [''{"dhwTemperature":'', fmt_f 1 (dhw_tank_temp st),
      '',"dhwTarget":'', fmt_f 1 (dhw_target st),
      '',"heatingTemperature":'', fmt_f 1 (leaving_water_temp st),
      '',"heatingTarget":'', fmt_f 1 (heating_target st),
      '',"outdoorTemperature":'', fmt_f 1 (outdoor_temp st),
      '',"leavingWaterTemperature":'', fmt_f 1 (leaving_water_temp st),
      '',"enteringWaterTemperature":'', fmt_f 1 (entering_water_temp st),
      '',"mode":"'', mode_to_string (running_mode st),
      ''","runningStatus":"'', status_to_string (running_status st),
      ''","priority":"'', (if dhw_priority st then ''dhw'' else ''heating''),
      ''","status":"'', (if is_running st then ''running'' else ''stopped''),
      ''","deviceOnline":'', json_bool (device_online st),
      '',"acCurrent":'', fmt_f 2 (ac_current st),
      '',"dcCurrent":'', fmt_f 2 (dc_current st),
      '',"acVoltage":'', fmt_f 1 (ac_voltage st),
      '',"dcVoltage":'', fmt_f 1 (dc_voltage st),
      '',"acPowerVA":'', fmt_f 1 (ac_power_va st),
      '',"acPowerW":'', fmt_f 1 (ac_power_w st),
      '',"powerValid":'', json_bool (power_valid st),
      '',"compressorFrequency":'', fmt_f 1 (compressor_freq st),
      '',"waterFlow":'', fmt_f 2 (water_flow st),
      '',"unitCapacityKw":'', fmt_d (unit_capacity_kw st),
      '',"actualCapacityOutput":'', fmt_d (actual_capacity_output st),
      '',"oduInputStatus":'', fmt_d (odu_input_status st),
      '',"compressorRuntimeHours":'', fmt_d (compressor_runtime_h st),
      '',"pumpRuntimeHours":'', fmt_d (pump_runtime_h st),
      '',"heatOutputW":'', fmt_f 1 (heat_output_w st),
      '',"cop":'', fmt_f 2 (cop st),
      '',"copValid":'', json_bool (cop_valid st),
      '',"dhwValveStatus":'', fmt_d (dhw_valve_status st),
      '',"dhwModeStatus":'', fmt_d (dhw_mode_status st),
      '',"workingMode":'', fmt_d (working_mode st),
      '',"occupancyMode":'', fmt_d (occupancy_mode st), ''}'', [CHR 0x0A]]\<close>

definition status_text :: "StatusSnapshot \<Rightarrow> string" where
  "status_text st = concat (status_parts st)"

section \<open>The handlers\<close>

definition sendJsonReply :: "int \<Rightarrow> string \<Rightarrow> reply" where
  "sendJsonReply status_code json = JsonReply status_code json"

text \<open>\<open>char response[4096]\<close>: \<open>snprintf\<close> keeps at most 4095 characters.\<close>

definition apiStatusHandler :: "WebServer \<Rightarrow> reply \<times> WebServer" where
  "apiStatusHandler w =
     (let w = (case w_status_queue w of
                 None \<Rightarrow> w
               | Some q \<Rightarrow> (case StatusQueue_latest q of
                              None \<Rightarrow> w
                            | Some snapshot \<Rightarrow> w\<lparr>last_status := snapshot\<rparr>))
      in (sendJsonReply 200 (take 4095 (status_text (last_status w))), w))"

text \<open>The end of every command handler: push, wake the loop, answer.\<close>

definition queue_command :: "Command \<Rightarrow> WebServer \<Rightarrow> reply \<times> WebServer" where
  \<open>queue_command cmd w =
     (let (pushed, w) = (case w_cmd_queue w of
                           None \<Rightarrow> (False, w)
                         | Some q \<Rightarrow> (case CmdQueue_push cmd q of (b, q') \<Rightarrow> (b, w\<lparr>w_cmd_queue := Some q'\<rparr>)));
          w = (if pushed \<and> wake_callback w then w\<lparr>wake_calls := wake_calls w + 1\<rparr> else w)
      in (sendJsonReply 202 ''{"success":true,"verified":false,"message":"Command queued"}'', w))\<close>

definition apiSetDhwHandler :: "mongoose \<Rightarrow> string \<Rightarrow> WebServer \<Rightarrow> reply \<times> WebServer" where
  \<open>apiSetDhwHandler mg body w =
     (if isShuttingDown w then (sendJsonReply 503 ''{"error":"Server is shutting down"}'', w)
      else if length body = 0 then (sendJsonReply 400 ''{"error":"Empty request body"}'', w)
      else case mg_json_get_num mg body ''$.temperature'' of
        None \<Rightarrow> (sendJsonReply 400 ''{"error":"Missing or invalid temperature"}'', w)
      | Some temperature \<Rightarrow>
          if fp_less temperature DHW_TEMP_MIN \<or> fp_less DHW_TEMP_MAX temperature
          then (sendJsonReply 422 ''{"error":"Temperature out of range"}'', w)
          else queue_command \<lparr>cmd_type = CMD_SET_DHW_TEMP, float_val = fp_to_f32 temperature, int_val = 0\<rparr> w)\<close>

definition apiSetHeatingHandler :: "mongoose \<Rightarrow> string \<Rightarrow> WebServer \<Rightarrow> reply \<times> WebServer" where
  \<open>apiSetHeatingHandler mg body w =
     (if isShuttingDown w then (sendJsonReply 503 ''{"error":"Server is shutting down"}'', w)
      else if length body = 0 then (sendJsonReply 400 ''{"error":"Empty request body"}'', w)
      else case mg_json_get_num mg body ''$.temperature'' of
        None \<Rightarrow> (sendJsonReply 400 ''{"error":"Missing or invalid temperature"}'', w)
      | Some temperature \<Rightarrow>
          if fp_less temperature HEATING_TEMP_MIN \<or> fp_less HEATING_TEMP_MAX temperature
          then (sendJsonReply 422 ''{"error":"Temperature out of range"}'', w)
          else queue_command \<lparr>cmd_type = CMD_SET_HEATING_TEMP, float_val = fp_to_f32 temperature, int_val = 0\<rparr> w)\<close>

text \<open>\<open>strncmp(s, t, n) == 0\<close> for a \<open>t\<close> of \<open>n\<close> characters.\<close>

definition starts_with :: "string \<Rightarrow> string \<Rightarrow> bool" where
  "starts_with s t \<longleftrightarrow> take (length t) s = t"

definition apiSetPriorityHandler :: "mongoose \<Rightarrow> string \<Rightarrow> WebServer \<Rightarrow> reply \<times> WebServer" where
  \<open>apiSetPriorityHandler mg body w =
     (if isShuttingDown w then (sendJsonReply 503 ''{"error":"Server is shutting down"}'', w)
      else if length body = 0 then (sendJsonReply 400 ''{"error":"Empty request body"}'', w)
      else case mg_json_get_str mg body ''$.priority'' of
        None \<Rightarrow> (sendJsonReply 400 ''{"error":"Missing or invalid priority"}'', w)
      | Some priority \<Rightarrow>
          if starts_with priority ''dhw''
          then queue_command \<lparr>cmd_type = CMD_SET_PRIORITY, float_val = Fin 0, int_val = 1\<rparr> w
          else if starts_with priority ''heating''
          then queue_command \<lparr>cmd_type = CMD_SET_PRIORITY, float_val = Fin 0, int_val = 0\<rparr> w
          else (sendJsonReply 422 ''{"error":"Invalid priority value"}'', w))\<close>

definition apiSetModeHandler :: "mongoose \<Rightarrow> string \<Rightarrow> WebServer \<Rightarrow> reply \<times> WebServer" where
  \<open>apiSetModeHandler mg body w =
     (if isShuttingDown w then (sendJsonReply 503 ''{"error":"Server is shutting down"}'', w)
      else if length body = 0 then (sendJsonReply 400 ''{"error":"Empty request body"}'', w)
      else let mode = mg_json_get_long mg body ''$.mode'' (- 1)
           in if mode = - 1 then (sendJsonReply 400 ''{"error":"Missing mode parameter"}'', w)
              else queue_command
                     \<lparr>cmd_type = CMD_SET_RUNNING_MODE, float_val = Fin 0, int_val = to_int32 mode\<rparr> w)\<close>

definition apiSetOccupancyHandler :: "mongoose \<Rightarrow> string \<Rightarrow> WebServer \<Rightarrow> reply \<times> WebServer" where
  \<open>apiSetOccupancyHandler mg body w =
     (if isShuttingDown w then (sendJsonReply 503 ''{"error":"Server is shutting down"}'', w)
      else if length body = 0 then (sendJsonReply 400 ''{"error":"Empty request body"}'', w)
      else let mode = mg_json_get_long mg body ''$.mode'' (- 1)
           in if mode < 0 \<or> mode > 2
              then (sendJsonReply 422 ''{"error":"Invalid occupancy mode (0=Away, 1=Sleep, 2=Home)"}'', w)
              else queue_command
                     \<lparr>cmd_type = CMD_SET_OCCUPANCY_MODE, float_val = Fin 0, int_val = to_int32 mode\<rparr> w)\<close>

definition method_not_allowed :: reply where
  \<open>method_not_allowed = sendJsonReply 405 ''{"error":"Method not allowed"}''\<close>

definition handleRequest :: "mongoose \<Rightarrow> mg_http_message \<Rightarrow> WebServer \<Rightarrow> reply \<times> WebServer" where
  "handleRequest mg hm w =
     (let is_uri = (\<lambda>u. mg_strcmp mg (hm_uri hm) u = 0);
          is_method = (\<lambda>m. mg_strcasecmp mg (hm_method hm) m = 0);
          post = (\<lambda>h. if is_method ''POST'' then h mg (hm_body hm) w else (method_not_allowed, w))
      in if is_uri ''/api/status''
         then (if is_method ''GET'' then apiStatusHandler w else (method_not_allowed, w))
         else if is_uri ''/api/set-dhw'' then post apiSetDhwHandler
         else if is_uri ''/api/set-heating'' then post apiSetHeatingHandler
         else if is_uri ''/api/set-priority'' then post apiSetPriorityHandler
         else if is_uri ''/api/set-mode'' then post apiSetModeHandler
         else if is_uri ''/api/set-occupancy'' then post apiSetOccupancyHandler
         else (ServeDir (static_dir w), w))"

text \<open>A poll hands the requests that have arrived to \<open>handleRequest\<close>, while the server runs.\<close>

fun handle_all :: "mongoose \<Rightarrow> mg_http_message list \<Rightarrow> WebServer \<Rightarrow> reply list \<times> WebServer" where
  "handle_all mg [] w = ([], w)"
| "handle_all mg (hm # hms) w =
     (let (r, w) = handleRequest mg hm w; (rs, w) = handle_all mg hms w in (r # rs, w))"

definition pollOnce :: "mongoose \<Rightarrow> mg_http_message list \<Rightarrow> WebServer \<Rightarrow> reply list \<times> WebServer" where
  "pollOnce mg hms w = (if w_running w then handle_all mg hms w else ([], w))"

section \<open>What a request does to the command queue\<close>

text \<open>JSON has no notation for a value that is not a number; nor does the getter produce one.\<close>

definition json_numbers :: "mongoose \<Rightarrow> bool" where
  "json_numbers mg \<longleftrightarrow> (\<forall>body path. mg_json_get_num mg body path \<noteq> Some NaN)"

definition pushes_valid :: "WebServer \<Rightarrow> WebServer \<Rightarrow> bool" where
  "pushes_valid w w' \<longleftrightarrow> w_status_queue w' = w_status_queue w \<and>
     (w_cmd_queue w' = w_cmd_queue w \<or>
      (\<exists>q cmd. w_cmd_queue w = Some q \<and> cmd_valid cmd \<and> w_cmd_queue w' = Some (snd (CmdQueue_push cmd q))))"

lemma pushes_valid_refl [simp]: "pushes_valid w w"
  by (simp add: pushes_valid_def)

lemma queue_command_pushes: "cmd_valid cmd \<Longrightarrow> pushes_valid w (snd (queue_command cmd w))"
  by (auto simp: queue_command_def pushes_valid_def Let_def simp del: cmd_valid.simps
      split: option.split prod.split)

lemma f32_in_range:
  assumes "t \<noteq> NaN" "\<not> fp_less t (Fin (of_int a))" "\<not> fp_less (Fin (of_int b)) t" "0 \<le> a" "b < 1000"
  obtains y where "fp_to_f32 t = Fin y" "of_int a \<le> y" "y \<le> of_int b"
proof -
  obtain x where x: "t = Fin x" "of_int a \<le> x" "x \<le> of_int b"
    using assms(1-3) by (cases t) auto
  have "a \<le> b" using x(2,3) by (metis of_int_le_iff order_trans)
  then have "\<bar>a\<bar> < 2 ^ 24" "\<bar>b\<bar> < 2 ^ 24" using assms(4,5) by auto
  from f32_between [OF x(2,3) this] x(1) that show thesis by (metis fp_to_f32.simps(1))
qed

lemma to_int32_small: "0 \<le> i \<Longrightarrow> i \<le> 2 \<Longrightarrow> to_int32 i = i"
  by (auto simp: to_int32_def signed_take_bit_int_eq_self sint_sbintrunc')

lemma apiSetDhw_pushes:
  assumes "json_numbers mg"
  shows "pushes_valid w (snd (apiSetDhwHandler mg body w))"
proof (cases "mg_json_get_num mg body ''$.temperature''")
  case (Some t)
  then have "t \<noteq> NaN" using assms by (auto simp: json_numbers_def)
  show ?thesis
  proof (cases "fp_less t DHW_TEMP_MIN \<or> fp_less DHW_TEMP_MAX t")
    case False
    with \<open>t \<noteq> NaN\<close> f32_in_range [of t 40 63] obtain y where "fp_to_f32 t = Fin y" "40 \<le> y" "y \<le> 63" by auto
    with Some False show ?thesis by (simp add: apiSetDhwHandler_def queue_command_pushes)
  qed (use Some in \<open>auto simp: apiSetDhwHandler_def\<close>)
qed (simp add: apiSetDhwHandler_def)

lemma apiSetHeating_pushes:
  assumes "json_numbers mg"
  shows "pushes_valid w (snd (apiSetHeatingHandler mg body w))"
proof (cases "mg_json_get_num mg body ''$.temperature''")
  case (Some t)
  then have "t \<noteq> NaN" using assms by (auto simp: json_numbers_def)
  show ?thesis
  proof (cases "fp_less t HEATING_TEMP_MIN \<or> fp_less HEATING_TEMP_MAX t")
    case False
    with \<open>t \<noteq> NaN\<close> f32_in_range [of t 25 63] obtain y where "fp_to_f32 t = Fin y" "25 \<le> y" "y \<le> 63" by auto
    with Some False show ?thesis by (simp add: apiSetHeatingHandler_def queue_command_pushes)
  qed (use Some in \<open>auto simp: apiSetHeatingHandler_def\<close>)
qed (simp add: apiSetHeatingHandler_def)

lemma apiSetPriority_pushes: "pushes_valid w (snd (apiSetPriorityHandler mg body w))"
  by (simp add: apiSetPriorityHandler_def queue_command_pushes split: option.split)

lemma apiSetMode_pushes: "pushes_valid w (snd (apiSetModeHandler mg body w))"
  by (simp add: apiSetModeHandler_def Let_def queue_command_pushes)

lemma apiSetOccupancy_pushes: "pushes_valid w (snd (apiSetOccupancyHandler mg body w))"
proof -
  have "m = 0 \<or> m = 1 \<or> m = 2" if "\<not> (m < 0 \<or> m > 2)" for m :: int using that by auto
  then show ?thesis
    by (simp add: apiSetOccupancyHandler_def Let_def queue_command_pushes to_int32_small)
qed

lemma apiStatus_pushes: "pushes_valid w (snd (apiStatusHandler w))"
  by (simp add: apiStatusHandler_def pushes_valid_def Let_def split: option.split)

lemmas handler_pushes = apiSetDhw_pushes apiSetHeating_pushes apiSetPriority_pushes apiSetMode_pushes
  apiSetOccupancy_pushes apiStatus_pushes

lemma handleRequest_pushes: "json_numbers mg \<Longrightarrow> pushes_valid w (snd (handleRequest mg hm w))"
  by (simp add: handleRequest_def Let_def handler_pushes)

section \<open>The length of the status text\<close>

text \<open>The values a \<open>float\<close> and an \<open>int\<close> can have.\<close>

definition is_float :: "fp \<Rightarrow> bool" where
  "is_float v = (case v of Fin x \<Rightarrow> \<bar>x\<bar> < 2 ^ 128 | _ \<Rightarrow> True)"

definition is_int :: "int \<Rightarrow> bool" where
  "is_int i \<longleftrightarrow> \<bar>i\<bar> \<le> 2 ^ 31"

definition representable :: "StatusSnapshot \<Rightarrow> bool" where
  "representable st \<longleftrightarrow>
     list_all is_float [outdoor_temp st, leaving_water_temp st, entering_water_temp st, dhw_tank_temp st,
       dhw_target st, heating_target st, ac_current st, dc_current st, ac_voltage st, dc_voltage st,
       ac_power_va st, ac_power_w st, compressor_freq st, water_flow st, heat_output_w st, cop st] \<and>
     list_all is_int [unit_capacity_kw st, actual_capacity_output st, dhw_valve_status st, dhw_mode_status st,
       odu_input_status st, compressor_runtime_h st, pump_runtime_h st, working_mode st, occupancy_mode st]"

lemma length_fmt_d: "is_int i \<Longrightarrow> length (fmt_d i) \<le> 11"
  using length_digits [of 10 "nat i"] length_digits [of 10 "nat (- i)"]
  by (simp add: fmt_d_def is_int_def nat_less_iff abs_if split: if_splits)

lemma length_fmt_fixed:
  assumes "\<bar>x\<bar> < 2 ^ 128" "p \<le> 2" "0 < p"
  shows "length (fmt_fixed p x) \<le> 43"
proof -
  define n where "n = nat (round_even (\<bar>x\<bar> * 10 ^ p))"
  have "round_even (\<bar>x\<bar> * 10 ^ p) \<le> round_even (of_int (2 ^ 128 * 10 ^ p))"
    using assms(1) by (intro round_even_mono) simp
  also have "\<dots> = 2 ^ 128 * 10 ^ p" by (simp only: round_even_def Let_def floor_of_int) simp
  finally have "n \<le> 2 ^ 128 * 10 ^ p" by (simp add: n_def nat_le_iff)
  then have "n div 10 ^ p \<le> 2 ^ 128" by (metis div_le_mono nonzero_mult_div_cancel_right power_not_zero zero_neq_numeral)
  also have "\<dots> < (10::nat) ^ 39" by simp
  finally have "length (digits (n div 10 ^ p)) \<le> 39" by (intro length_digits) auto
  moreover have "length (digits (n mod 10 ^ p)) \<le> p" using assms(3) by (intro length_digits) auto
  then have "length (pad_left p (digits (n mod 10 ^ p))) \<le> 2" using assms(2) by (simp add: pad_left_def)
  ultimately show ?thesis by (simp add: fmt_fixed_def n_def [symmetric] Let_def)
qed

lemma length_fmt_f: "is_float v \<Longrightarrow> p \<in> {1, 2} \<Longrightarrow> length (fmt_f p v) \<le> 43"
  using length_fmt_fixed [of _ p] by (cases v) (auto simp: is_float_def)

lemma length_status_text:
  assumes "representable st"
  shows "length (status_text st) \<le> 4095"
proof -
  have f: "length (fmt_f 1 v) \<le> 43" "length (fmt_f 2 v) \<le> 43" if "is_float v" for v
    using length_fmt_f [OF that] by auto
  have b: "length (json_bool x) \<le> 5" for x by (simp add: json_bool_def)
  have m: "length (mode_to_string x) \<le> 8" for x by (simp add: mode_to_string_def)
  have s: "length (status_to_string x) \<le> 10" for x by (simp add: status_to_string_def)
  have p: "length (if x then ''dhw'' else ''heating'') \<le> 7" "length (if x then ''running'' else ''stopped'') \<le> 7" for x
    by simp_all
  note fl = assms [unfolded representable_def, THEN conjunct1]
  note il = assms [unfolded representable_def, THEN conjunct2]
  show ?thesis
    using fl il f(1) [of "dhw_tank_temp st"] f(1) [of "dhw_target st"] f(1) [of "leaving_water_temp st"]
      f(1) [of "heating_target st"] f(1) [of "outdoor_temp st"] f(1) [of "entering_water_temp st"]
      f(2) [of "ac_current st"] f(2) [of "dc_current st"] f(1) [of "ac_voltage st"] f(1) [of "dc_voltage st"]
      f(1) [of "ac_power_va st"] f(1) [of "ac_power_w st"] f(1) [of "compressor_freq st"] f(2) [of "water_flow st"]
      f(1) [of "heat_output_w st"] f(2) [of "cop st"]
      length_fmt_d [of "unit_capacity_kw st"] length_fmt_d [of "actual_capacity_output st"]
      length_fmt_d [of "dhw_valve_status st"] length_fmt_d [of "dhw_mode_status st"]
      length_fmt_d [of "odu_input_status st"] length_fmt_d [of "compressor_runtime_h st"]
      length_fmt_d [of "pump_runtime_h st"] length_fmt_d [of "working_mode st"] length_fmt_d [of "occupancy_mode st"]
      b [of "device_online st"] b [of "power_valid st"] b [of "cop_valid st"] m [of "running_mode st"]
      s [of "running_status st"] p(1) [of "dhw_priority st"] p(2) [of "is_running st"]
    by (simp add: status_text_def status_parts_def del: fmt_f.simps)
qed

section \<open>Published snapshots are representable\<close>

lemma is_float_f32 [simp]: "is_float (f32 x)"
  by (simp add: f32_def fp_round_def Let_def is_float_def)

lemma is_float_ops [simp]:
  "is_float (fp_mult f32 a b)" "is_float (fp_div f32 a b)" "is_float (fp_add f32 a b)" "is_float (fp_sub f32 a b)"
  "is_float (f32_of_int i)" "is_float (raw_to_temp w)" "is_float (Fin 0)"
proof -
  show m: "is_float (fp_mult f32 a b)" for a b by (cases a; cases b) (auto simp: is_float_def [of "Inf _"] is_float_def [of NaN])
  show d: "is_float (fp_div f32 a b)" for a b by (cases a; cases b) (auto simp: is_float_def [of "Inf _"] is_float_def [of NaN] is_float_def [of "Fin 0"])
  show s: "is_float (fp_add f32 a b)" for a b by (cases a; cases b) (auto simp: is_float_def [of "Inf _"] is_float_def [of NaN])
  then show "is_float (fp_sub f32 a b)" by (simp add: fp_sub_def)
  show "is_float (f32_of_int i)" by (simp add: f32_of_int_def)
  show "is_float (raw_to_temp w)" using d by (simp add: raw_to_temp_def)
  show "is_float (Fin 0)" by (simp add: is_float_def)
qed

lemma is_int_sint [simp]: "is_int (sint (w::i16))" "is_int 0" "is_int (- 1)" "is_int 2"
  using sint_i16_range [of w] by (auto simp: is_int_def)

text \<open>What every \<open>try\<close> block keeps.\<close>

definition read_rep :: "'c read_state \<Rightarrow> bool" where
  "read_rep x \<longleftrightarrow> representable (status x) \<and> is_float (last_heating_target (self x))"

definition block_rep :: "'c try_block \<Rightarrow> bool" where
  "block_rep b \<longleftrightarrow> (\<forall>x. read_rep x \<longrightarrow> read_rep (snd (snd b) x) \<and> (\<forall>v. read_rep (fst (snd b) v x)))"

lemma fold_read_rep:
  "list_all block_rep bs \<Longrightarrow> read_rep (snd cx) \<Longrightarrow> read_rep (snd (fold (try_read ops) bs cx))"
  by (induction bs arbitrary: cx)
    (auto simp: try_read_def block_rep_def split: prod.splits sum.splits)

lemma main_blocks_rep: "list_all block_rep main_blocks"
  by (simp add: main_blocks_def block_rep_def read_rep_def representable_def got_running_mode_def
      got_dhw_target_def got_heating_target_def Let_def)

lemma power_blocks_rep: "list_all block_rep power_blocks"
  by (simp add: power_blocks_def block_rep_def read_rep_def representable_def got_ac_current_def
      got_ac_voltage_def Let_def)

lemma diagnostic_blocks_rep: "list_all block_rep diagnostic_blocks"
  by (simp add: diagnostic_blocks_def block_rep_def read_rep_def representable_def)

lemma compute_rep: "read_rep x \<Longrightarrow> read_rep (compute_power x)" "representable st \<Longrightarrow> representable (compute_cop st)"
  by (simp_all add: read_rep_def representable_def compute_power_def compute_cop_def Let_def)

lemma representable_default: "representable StatusSnapshot_default"
  by (simp add: representable_def StatusSnapshot_default_def)

lemma readStatus_representable:
  assumes "is_float (last_heating_target s)" "readStatus ops StatusSnapshot_default s = (b, st, s')"
  shows "representable st"
proof (cases "modbus_client s")
  case None
  with assms show ?thesis by (simp add: readStatus_def representable_default)
next
  case (Some c)
  let ?x = "\<lparr>self = s, status = StatusSnapshot_default, ok = True, l_ac_current = Fin 0, l_ac_voltage = Fin 0,
    got_current = False, got_voltage = False\<rparr>"
  obtain c1 x1 where 1: "fold (try_read ops) main_blocks (c, ?x) = (c1, x1)" by (metis surj_pair)
  obtain c2 x2 where 2: "fold (try_read ops) power_blocks (c1, x1) = (c2, x2)" by (metis surj_pair)
  obtain c3 x3 where 3: "fold (try_read ops) diagnostic_blocks (c2, compute_power x2) = (c3, x3)" by (metis surj_pair)
  have "read_rep ?x" using assms(1) by (simp add: read_rep_def representable_default)
  then have "read_rep x1" using fold_read_rep [OF main_blocks_rep, of "(c, ?x)" ops] 1 by simp
  then have "read_rep x2" using fold_read_rep [OF power_blocks_rep, of "(c1, x1)" ops] 2 by simp
  then have "read_rep (compute_power x2)" by (rule compute_rep(1))
  then have "read_rep x3"
    using fold_read_rep [OF diagnostic_blocks_rep, of "(c2, compute_power x2)" ops] 3 by simp
  then have "representable (compute_cop (status x3))" using compute_rep(2) by (simp add: read_rep_def)
  moreover have "st = (compute_cop (status x3))\<lparr>device_online := ok x3\<rparr>"
    using assms(2) Some 1 2 3 by (auto simp: readStatus_def Let_def)
  ultimately show ?thesis by (simp add: representable_def)
qed

lemma queue_command_spec:
  assumes "w_cmd_queue w = Some q" "cq_inv q"
  shows "\<exists>txt w' q'. queue_command cmd w = (JsonReply 202 txt, w') \<and> w_cmd_queue w' = Some q' \<and>
    cq_list q' = cq_list q @ (if length (cq_list q) < 15 then [cmd] else [])"
  using cq.push_ok [OF assms(2), of cmd] cq.push_full [OF assms(2), of cmd] assms(1)
  by (cases "length (cq_list q) < 15") (auto simp: queue_command_def Let_def sendJsonReply_def)

section \<open>Properties\<close>

text \<open>
  C24. A request to set the hot-water target is accepted (202) exactly when the server is not
  shutting down, the body is not empty and names a temperature of 40 to 63 degrees; then the
  command with that temperature rounded to \<open>float\<close> is appended to the queue if there is room.
  In every other case nothing changes and the reply is the error of the first check that fails: 503 while shutting
  down, 400 for an empty body or a missing temperature, 422 for one out of range.
\<close>

theorem set_dhw_request:
  assumes "w_cmd_queue w = Some q" "cq_inv q" "apiSetDhwHandler mg body w = (JsonReply code txt, w')"
  shows "(code = 202 \<longleftrightarrow> \<not> shutting_down w \<and> body \<noteq> [] \<and>
      (\<exists>t. mg_json_get_num mg body ''$.temperature'' = Some t \<and> \<not> fp_less t (Fin 40) \<and> \<not> fp_less (Fin 63) t)) \<and>
    (code = 202 \<longrightarrow> (\<exists>t q'. mg_json_get_num mg body ''$.temperature'' = Some t \<and> w_cmd_queue w' = Some q' \<and>
      cq_list q' = cq_list q @ (if length (cq_list q) < 15
        then [\<lparr>cmd_type = CMD_SET_DHW_TEMP, float_val = fp_to_f32 t, int_val = 0\<rparr>] else []))) \<and>
    (code \<noteq> 202 \<longrightarrow> w' = w \<and> code = (if shutting_down w then 503
      else if body = [] \<or> mg_json_get_num mg body ''$.temperature'' = None then 400 else 422))"
proof -
  let ?get = "mg_json_get_num mg body ''$.temperature''"
  consider (busy) "shutting_down w \<or> body = []" | (none) "\<not> shutting_down w" "body \<noteq> []" "?get = None"
    | (out) t where "\<not> shutting_down w" "body \<noteq> []" "?get = Some t" "fp_less t (Fin 40) \<or> fp_less (Fin 63) t"
    | (fits) t where "\<not> shutting_down w" "body \<noteq> []" "?get = Some t" "\<not> fp_less t (Fin 40)" "\<not> fp_less (Fin 63) t"
    by fastforce
  then show ?thesis
  proof cases
    case busy
    then show ?thesis
      using assms(3) by (auto simp: apiSetDhwHandler_def isShuttingDown_def sendJsonReply_def split: if_splits)
  next
    case none
    then show ?thesis using assms(3) by (simp add: apiSetDhwHandler_def isShuttingDown_def sendJsonReply_def)
  next
    case (out t)
    then show ?thesis using assms(3) by (auto simp: apiSetDhwHandler_def isShuttingDown_def sendJsonReply_def)
  next
    case (fits t)
    let ?cmd = "\<lparr>cmd_type = CMD_SET_DHW_TEMP, float_val = fp_to_f32 t, int_val = 0\<rparr>"
    have "queue_command ?cmd w = (JsonReply code txt, w')"
      using fits assms(3) by (simp add: apiSetDhwHandler_def isShuttingDown_def)
    then have "code = 202" "\<exists>q'. w_cmd_queue w' = Some q' \<and>
        cq_list q' = cq_list q @ (if length (cq_list q) < 15 then [?cmd] else [])"
      using queue_command_spec [OF assms(1,2), of ?cmd] by auto
    with fits show ?thesis by auto
  qed
qed

abbreviation test_mg :: mongoose where
  "test_mg \<equiv> \<lparr>mg_strcmp = (\<lambda>a b. if a = b then 0 else 1), mg_strcasecmp = (\<lambda>a b. if a = b then 0 else 1),
     mg_json_get_num = (\<lambda>body path. Some (Fin 50)), mg_json_get_str = (\<lambda>body path. Some ''heating''),
     mg_json_get_long = (\<lambda>body path d. 7)\<rparr>"

abbreviation test_server :: WebServer where
  "test_server \<equiv> the (WebServer_init True ''static'' (Some (CmdQueue_init (replicate 16 noop)))
     (Some (StatusQueue_init (replicate 32 StatusSnapshot_default))) True)"

theorem set_dhw_request_witness:
  "\<exists>code txt w'. apiSetDhwHandler test_mg ''x'' test_server = (JsonReply code txt, w') \<and> code = 202 \<and>
    (\<exists>q'. w_cmd_queue w' = Some q' \<and>
       cq_list q' = [\<lparr>cmd_type = CMD_SET_DHW_TEMP, float_val = fp_to_f32 (Fin 50), int_val = 0\<rparr>])"
proof -
  have q: "w_cmd_queue test_server = Some (CmdQueue_init (replicate 16 noop))"
      "cq_inv (CmdQueue_init (replicate 16 noop))" "\<not> shutting_down test_server"
    by (simp_all add: WebServer_init_def cq_inv_init)
  obtain code msg w' where r: "apiSetDhwHandler test_mg ''x'' test_server = (JsonReply code msg, w')"
    by (cases "apiSetDhwHandler test_mg ''x'' test_server")
      (auto simp: apiSetDhwHandler_def queue_command_def sendJsonReply_def Let_def split: if_splits prod.splits)
  from set_dhw_request [OF q(1,2) r] q(3) have "code = 202" "\<exists>q'. w_cmd_queue w' = Some q' \<and>
      cq_list q' = [\<lparr>cmd_type = CMD_SET_DHW_TEMP, float_val = fp_to_f32 (Fin 50), int_val = 0\<rparr>]" by auto
  with r show ?thesis by blast
qed

text \<open>
  After the server has been stopped, every command request, whatever its path, method and
  body, leaves the command queue untouched and wakes nobody; a command request that would have
  been accepted is answered 503.
\<close>

theorem stopped_server_pushes_nothing:
  assumes "handleRequest mg hm (WebServer_stop w) = (r, w')"
  shows "w_cmd_queue w' = w_cmd_queue w \<and> wake_calls w' = wake_calls w \<and>
    (\<forall>txt. r \<noteq> JsonReply 202 txt)"
proof -
  have s: "isShuttingDown (WebServer_stop w)" "w_cmd_queue (WebServer_stop w) = w_cmd_queue w"
      "wake_calls (WebServer_stop w) = wake_calls w"
    by (simp_all add: isShuttingDown_def WebServer_stop_def)
  have "w_cmd_queue (snd (apiStatusHandler v)) = w_cmd_queue v \<and> wake_calls (snd (apiStatusHandler v)) = wake_calls v \<and>
      (\<exists>txt. fst (apiStatusHandler v) = JsonReply 200 txt)" for v
    by (simp add: apiStatusHandler_def Let_def sendJsonReply_def split: option.split)
  from this [of "WebServer_stop w"] s assms show ?thesis
    by (auto simp: handleRequest_def Let_def apiSetDhwHandler_def apiSetHeatingHandler_def
        apiSetPriorityHandler_def apiSetModeHandler_def apiSetOccupancyHandler_def sendJsonReply_def
        method_not_allowed_def split: if_splits)
qed

theorem stopped_server_pushes_nothing_witness:
  "case handleRequest test_mg \<lparr>hm_method = ''POST'', hm_uri = ''/api/set-dhw'', hm_body = ''x''\<rparr>
      (WebServer_stop test_server) of (r, w') \<Rightarrow>
     w_cmd_queue w' = w_cmd_queue test_server \<and> wake_calls w' = wake_calls test_server \<and>
     (\<forall>txt. r \<noteq> JsonReply 202 txt)"
  using stopped_server_pushes_nothing [of test_mg "\<lparr>hm_method = ''POST'', hm_uri = ''/api/set-dhw'', hm_body = ''x''\<rparr>" test_server]
  by (simp split: prod.split)

text \<open>
  The status text always fits the 4096-byte buffer, whatever the device reports: for a
  snapshot that the control loop read, or for the initial one, the reply is 200 with the whole
  text, ending in the closing brace and a newline.
\<close>

theorem status_reply_complete:
  assumes "w_status_queue w = Some q" "StatusQueue_latest q = Some (st\<lparr>working_mode := m\<rparr>)"
    and "readStatus ops StatusSnapshot_default s = (b, st, s')"
    and "is_float (last_heating_target s)" "is_int m"
  shows "fst (apiStatusHandler w) = JsonReply 200 (status_text (st\<lparr>working_mode := m\<rparr>))"
proof -
  have "representable (st\<lparr>working_mode := m\<rparr>)"
    using readStatus_representable [OF assms(4,3)] assms(5) by (simp add: representable_def)
  then show ?thesis
    using length_status_text [of "st\<lparr>working_mode := m\<rparr>"] assms(1,2)
    by (simp add: apiStatusHandler_def sendJsonReply_def)
qed

theorem status_reply_complete_witness:
  "fst (apiStatusHandler (test_server\<lparr>w_status_queue :=
       Some (snd (StatusQueue_push (StatusSnapshot_default\<lparr>working_mode := 3\<rparr>)
         (StatusQueue_init (replicate 32 StatusSnapshot_default))))\<rparr>))
     = JsonReply 200 (status_text (StatusSnapshot_default\<lparr>working_mode := 3\<rparr>))"
proof -
  let ?q = "snd (StatusQueue_push (StatusSnapshot_default\<lparr>working_mode := 3\<rparr>)
    (StatusQueue_init (replicate 32 StatusSnapshot_default)))"
  have l: "StatusQueue_latest ?q = Some (StatusSnapshot_default\<lparr>working_mode := 3\<rparr>)"
    by (simp add: StatusQueue_push_def StatusQueue_latest_def StatusQueue_init_def Let_def)
  have r: "readStatus bank_ops StatusSnapshot_default ControlLoop_init
      = (False, StatusSnapshot_default, ControlLoop_init)"
    by (simp add: readStatus_def ControlLoop_init_def)
  show ?thesis
    by (rule status_reply_complete [OF _ l r])
      (simp_all add: ControlLoop_init_def is_float_def is_int_def)
qed

text \<open>
  A full queue is not reported: when 15 commands are waiting, a valid request is still answered
  202 with "Command queued" although the command is dropped.
\<close>

theorem full_queue_answers_queued:
  assumes "w_cmd_queue w = Some q" "cq_inv q" "length (cq_list q) = 15"
  shows "\<exists>txt w' q'. queue_command cmd w = (JsonReply 202 txt, w') \<and> w_cmd_queue w' = Some q' \<and>
    cq_list q' = cq_list q"
  using queue_command_spec [OF assms(1,2), of cmd] assms(3) by simp

theorem full_queue_answers_queued_witness:
  "\<exists>txt w' q'. queue_command noop (test_server\<lparr>w_cmd_queue :=
        Some \<lparr>cq_buf = replicate 16 noop, cq_head = 1, cq_tail = 0\<rparr>\<rparr>) = (JsonReply 202 txt, w') \<and>
    w_cmd_queue w' = Some q' \<and> cq_list q' = cq_list \<lparr>cq_buf = replicate 16 noop, cq_head = 1, cq_tail = 0\<rparr>"
  by (rule full_queue_answers_queued) (simp_all add: cq_inv_def cq_list_def ring_len_def)

text \<open>
  The mode of a mode request is not checked: any number except -1 is accepted and becomes the
  working mode of the command, such as 7, although only 0 to 3 are modes.
\<close>

theorem set_mode_accepts_any:
  assumes "w_cmd_queue w = Some q" "cq_inv q" "\<not> shutting_down w" "body \<noteq> []"
    and "mg_json_get_long mg body ''$.mode'' (- 1) = mode" "mode \<noteq> - 1" "length (cq_list q) < 15"
  shows "\<exists>txt w' q'. apiSetModeHandler mg body w = (JsonReply 202 txt, w') \<and> w_cmd_queue w' = Some q' \<and>
    cq_list q' = cq_list q @ [\<lparr>cmd_type = CMD_SET_RUNNING_MODE, float_val = Fin 0, int_val = to_int32 mode\<rparr>]"
  using queue_command_spec [OF assms(1,2), of "\<lparr>cmd_type = CMD_SET_RUNNING_MODE, float_val = Fin 0, int_val = to_int32 mode\<rparr>"]
    assms(3-7) by (simp add: apiSetModeHandler_def isShuttingDown_def Let_def)

theorem set_mode_accepts_any_witness:
  "\<exists>txt w' q'. apiSetModeHandler test_mg ''x'' test_server = (JsonReply 202 txt, w') \<and> w_cmd_queue w' = Some q' \<and>
    cq_list q' = cq_list (CmdQueue_init (replicate 16 noop)) @
      [\<lparr>cmd_type = CMD_SET_RUNNING_MODE, float_val = Fin 0, int_val = to_int32 7\<rparr>]"
  by (rule set_mode_accepts_any) (simp_all add: WebServer_init_def cq_inv_init)

end
