(* ===== verification/Json_Helpers.thy ===== *)
theory Json_Helpers
  imports Web_Server
begin

text \<open>
  The helpers of \<open>src/utils/JsonHelpers.cpp\<close>, and a reader of flat JSON objects to state what the
  texts they and the web server build mean. The getters of the web library are the same parameters as
  in the web server; the string that \<open>parseString\<close> leaves behind on the heap is not modelled.
\<close>

section \<open>Reading a flat object\<close>

text \<open>
  A reader for objects of strings, numbers and truth values: every text it accepts is JSON. It has
  no exponents and no escapes, which the program never prints.
\<close>

datatype json = JStr string | JNum string | JBool bool

definition text_char :: "char \<Rightarrow> bool" where
  "text_char ch \<longleftrightarrow> ch \<noteq> CHR 0x22 \<and> ch \<noteq> CHR 0x5C \<and> 32 \<le> (of_char ch :: nat)"

definition is_digit :: "char \<Rightarrow> bool" where
  "is_digit ch \<longleftrightarrow> 48 \<le> (of_char ch :: nat) \<and> (of_char ch :: nat) \<le> 57"

definition json_integer :: "string \<Rightarrow> bool" where
  "json_integer s \<longleftrightarrow> s \<noteq> [] \<and> list_all is_digit s \<and> (hd s = CHR ''0'' \<longrightarrow> length s = 1)"

definition json_number :: "string \<Rightarrow> bool" where
  "json_number s =
     (let s = (if take 1 s = ''-'' then drop 1 s else s);
          i = takeWhile is_digit s; f = dropWhile is_digit s
      in json_integer i \<and> (f = [] \<or> hd f = CHR ''.'' \<and> tl f \<noteq> [] \<and> list_all is_digit (tl f)))"

definition read_string :: "string \<Rightarrow> (string \<times> string) option" where
  "read_string s = (case s of
     [] \<Rightarrow> None
   | ch # s \<Rightarrow> if ch \<noteq> CHR 0x22 then None
       else (case dropWhile text_char s of
           [] \<Rightarrow> None
         | ch # r \<Rightarrow> if ch = CHR 0x22 then Some (takeWhile text_char s, r) else None))"

definition word_char :: "char \<Rightarrow> bool" where
  "word_char ch \<longleftrightarrow> ch \<noteq> CHR '','' \<and> ch \<noteq> CHR ''}''"

definition read_value :: "string \<Rightarrow> (json \<times> string) option" where
  "read_value s =
     (if take 1 s = [CHR 0x22] then map_option (map_prod JStr id) (read_string s)
      else let w = takeWhile word_char s; r = dropWhile word_char s
           in if w = ''true'' then Some (JBool True, r) else if w = ''false'' then Some (JBool False, r)
              else if json_number w then Some (JNum w, r) else None)"

fun read_members :: "nat \<Rightarrow> string \<Rightarrow> ((string \<times> json) list \<times> string) option" where
  "read_members 0 s = None"
| "read_members (Suc k) s = do {
     (key, s) \<leftarrow> read_string s;
     if take 1 s \<noteq> '':'' then None
     else do {
       (v, s) \<leftarrow> read_value (drop 1 s);
       if take 1 s = ''}'' then Some ([(key, v)], drop 1 s)
       else if take 1 s = '','' then map_option (map_prod ((#) (key, v)) id) (read_members k (drop 1 s))
       else None } }"

text \<open>An object with at least one member, and nothing but blanks after it; each member takes a character at least.\<close>

definition read_object :: "string \<Rightarrow> (string \<times> json) list option" where
  "read_object s =
     (if take 1 s \<noteq> ''{'' then None
      else case read_members (length s) (drop 1 s) of
          None \<Rightarrow> None
        | Some (ms, r) \<Rightarrow> if list_all is_space r then Some ms else None)"

section \<open>The text of an object\<close>

fun json_text :: "json \<Rightarrow> string" where
  "json_text (JStr s) = [CHR 0x22] @ s @ [CHR 0x22]"
| "json_text (JNum s) = s"
| "json_text (JBool b) = json_bool b"

fun json_ok :: "json \<Rightarrow> bool" where
  "json_ok (JStr s) = list_all text_char s"
| "json_ok (JNum s) = json_number s"
| "json_ok (JBool b) = True"

definition member_text :: "string \<times> json \<Rightarrow> string" where
  "member_text m = [CHR 0x22] @ fst m @ [CHR 0x22] @ '':'' @ json_text (snd m)"

fun members_text :: "(string \<times> json) list \<Rightarrow> string" where
  "members_text [] = []"
| "members_text [m] = member_text m"
| "members_text (m # ms) = member_text m @ '','' @ members_text ms"

definition object_text :: "(string \<times> json) list \<Rightarrow> string" where
  "object_text ms = ''{'' @ members_text ms @ ''}''"

definition members_ok :: "(string \<times> json) list \<Rightarrow> bool" where
  "members_ok ms \<longleftrightarrow> list_all (\<lambda>(key, v). list_all text_char key \<and> json_ok v) ms"

subsection \<open>Reading it back\<close>

lemma while_append:
  "list_all P xs \<Longrightarrow> \<not> P y \<Longrightarrow> takeWhile P (xs @ y # ys) = xs"
  "list_all P xs \<Longrightarrow> \<not> P y \<Longrightarrow> dropWhile P (xs @ y # ys) = y # ys"
  by (induction xs) auto

lemma read_string_text: "list_all text_char s \<Longrightarrow> read_string (CHR 0x22 # s @ CHR 0x22 # r) = Some (s, r)"
  by (simp add: read_string_def while_append text_char_def [of "CHR 0x22"])

lemma number_words: "json_number w \<Longrightarrow> list_all word_char w \<and> w \<noteq> [] \<and> w \<noteq> ''true'' \<and> w \<noteq> ''false'' \<and> take 1 w \<noteq> [CHR 0x22]"
proof -
  have dig: "word_char ch" if "is_digit ch" for ch using that by (auto simp: is_digit_def word_char_def)
  have split: "list_all word_char s" if "list_all word_char (takeWhile is_digit s)" "list_all word_char (dropWhile is_digit s)" for s
    using that list_all_append [of word_char "takeWhile is_digit s" "dropWhile is_digit s"] by simp
  have digs: "list_all is_digit (takeWhile is_digit s)" for s by (induction s) auto
  assume "json_number w"
  then obtain s where s: "s = (if take 1 w = ''-'' then drop 1 w else w)" "json_integer (takeWhile is_digit s)"
      "dropWhile is_digit s = [] \<or> hd (dropWhile is_digit s) = CHR ''.'' \<and> list_all is_digit (tl (dropWhile is_digit s))"
    by (auto simp: json_number_def Let_def)
  have "list_all word_char (takeWhile is_digit s)" using digs dig by (metis list.pred_mono_strong)
  moreover have "list_all word_char (dropWhile is_digit s)"
  proof (cases "dropWhile is_digit s")
    case (Cons ch t)
    then have "ch = CHR ''.''" "list_all is_digit t" using s(3) by auto
    then show ?thesis unfolding Cons using dig by (simp add: word_char_def [of "CHR ''.''"] list_all_iff)
  next
    case Nil
    show ?thesis unfolding Nil by simp
  qed
  ultimately have ws: "list_all word_char s" by (rule split)
  have hd: "s \<noteq> []" "is_digit (hd s)" using s(2) by (auto simp: json_integer_def takeWhile_eq_Nil_iff)
  show ?thesis
    using ws hd s(1) by (cases w) (auto simp: is_digit_def word_char_def split: if_splits)
qed

lemma read_value_text:
  assumes "json_ok v" "\<not> word_char ch"
  shows "read_value (json_text v @ ch # r) = Some (v, ch # r)"
proof (cases v)
  case (JStr s)
  with assms show ?thesis by (simp add: read_value_def read_string_text)
next
  case (JNum w)
  with assms number_words [of w] show ?thesis
    by (cases w) (auto simp: read_value_def while_append Let_def)
next
  case (JBool b)
  have "list_all word_char (json_bool b)" by (simp add: json_bool_def word_char_def)
  moreover have "take 1 (json_bool b) \<noteq> [CHR 0x22]" "json_bool b \<noteq> []" by (simp_all add: json_bool_def)
  ultimately show ?thesis using JBool assms(2)
    by (simp add: read_value_def while_append Let_def) (simp add: json_bool_def)
qed

lemma read_members_text:
  assumes "members_ok ms" "ms \<noteq> []" "length ms \<le> k"
  shows "read_members k (members_text ms @ CHR ''}'' # r) = Some (ms, r)"
  using assms
proof (induction ms arbitrary: k rule: members_text.induct)
  case (2 m)
  obtain key v where m: "m = (key, v)" by (cases m)
  obtain j where "k = Suc j" using "2.prems" by (cases k) auto
  then show ?case using "2.prems"
    by (simp add: m members_ok_def member_text_def read_string_text read_value_text [of v "CHR ''}''"] word_char_def)
next
  case (3 m m' ms)
  obtain key v where m: "m = (key, v)" by (cases m)
  obtain j where k: "k = Suc j" using "3.prems" by (cases k) auto
  have "read_members j (members_text (m' # ms) @ CHR ''}'' # r) = Some (m' # ms, r)"
    using "3.prems" k by (intro "3.IH") (auto simp: members_ok_def)
  then show ?case using "3.prems"
    by (simp add: m k members_ok_def member_text_def read_string_text read_value_text [of v "CHR '',''"] word_char_def)
qed simp

lemma members_text_length: "length ms \<le> length (members_text ms)"
  by (induction ms rule: members_text.induct) (auto simp: member_text_def)

lemma read_object_text:
  assumes "members_ok ms" "ms \<noteq> []" "list_all is_space r"
  shows "read_object (object_text ms @ r) = Some ms"
  using read_members_text [OF assms(1,2), of "length (object_text ms @ r)" r] members_text_length [of ms] assms(3)
  by (simp add: read_object_def object_text_def)

section \<open>Printed numbers\<close>

lemma digits_digit: "list_all is_digit (digits n)"
proof (induction n rule: digits.induct)
  case (1 n)
  have "is_digit (char_of (48 + k :: nat))" if "k < 10" for k using that by (simp add: is_digit_def)
  with 1 show ?case by (subst digits.simps) auto
qed

lemma digits_first: "hd (digits n) = CHR ''0'' \<Longrightarrow> n = 0"
proof (induction n rule: digits.induct)
  case (1 n)
  have zero: "k = 0" if "k < 10" "char_of (48 + k) = CHR ''0''" for k :: nat
    using digit_val_char [OF that(1)] that(2) by (simp add: digit_val_def)
  have "digits m \<noteq> []" for m by (subst digits.simps) simp
  with 1 zero [of n] show ?case by (subst (asm) (2) digits.simps) (auto split: if_splits)
qed

lemma digits_integer: "json_integer (digits n)"
proof -
  have "digits n \<noteq> []" by (subst digits.simps) simp
  moreover have "length (digits 0) = 1" by (subst digits.simps) simp
  ultimately show ?thesis using digits_first digits_digit by (auto simp: json_integer_def)
qed

lemma json_numberI:
  assumes "json_integer i" "f = [] \<or> (\<exists>t. f = CHR ''.'' # t \<and> t \<noteq> [] \<and> list_all is_digit t)"
  shows "json_number (i @ f)" "json_number (CHR ''-'' # i @ f)"
proof -
  have i: "list_all is_digit i" "i \<noteq> []" using assms(1) by (auto simp: json_integer_def)
  have w: "takeWhile is_digit (i @ f) = i" "dropWhile is_digit (i @ f) = f"
    using i assms(2) by (auto simp: while_append is_digit_def [of "CHR ''.''"] list_all_iff)
  have "take 1 (i @ f) \<noteq> ''-''" using i by (cases i) (auto simp: is_digit_def)
  then show "json_number (i @ f)" using assms w by (auto simp: json_number_def Let_def)
  show "json_number (CHR ''-'' # i @ f)" using assms w by (auto simp: json_number_def Let_def)
qed

lemma fmt_d_number: "json_number (fmt_d i)"
  using json_numberI [OF digits_integer, of "[]"] by (simp add: fmt_d_def)

lemma fmt_fixed_number: "0 < p \<Longrightarrow> json_number (fmt_fixed p x)"
proof -
  assume p: "0 < p"
  have "pad_left p (digits n) \<noteq> [] \<and> list_all is_digit (pad_left p (digits n))" for n
    using digits_digit [of n] digits.simps [of n] by (auto simp: pad_left_def list_all_iff is_digit_def)
  then show ?thesis
    using json_numberI [OF digits_integer, of "CHR ''.'' # _"] by (simp add: fmt_fixed_def Let_def)
qed

definition finite_fp :: "fp \<Rightarrow> bool" where
  "finite_fp v = (case v of Fin x \<Rightarrow> True | _ \<Rightarrow> False)"

lemma fmt_f_number: "finite_fp v \<Longrightarrow> 0 < p \<Longrightarrow> json_number (fmt_f p v)"
  by (cases v) (auto simp: finite_fp_def fmt_fixed_number)

section \<open>The helpers\<close>

text \<open>What \<open>c_str\<close> hands to a C function, up to the first null character.\<close>

definition c_str :: "string \<Rightarrow> string" where
  "c_str s = takeWhile (\<lambda>ch. ch \<noteq> CHR 0x00) s"

text \<open>The output parameter is an argument and comes back beside the result.\<close>

definition parseTemperature :: "mongoose \<Rightarrow> string \<Rightarrow> string \<Rightarrow> fp \<Rightarrow> bool \<times> fp" where
  "parseTemperature mg js key temperature =
     (case mg_json_get_num mg (c_str js) (c_str (key @ ''.temperature'')) of
        None \<Rightarrow> (False, temperature)
      | Some temp \<Rightarrow> (True, temp))"

definition parseInt :: "mongoose \<Rightarrow> string \<Rightarrow> string \<Rightarrow> int \<Rightarrow> bool \<times> int" where
  "parseInt mg js key v =
     (let val = mg_json_get_long mg (c_str js) (c_str key) (- 1) in if val = - 1 then (False, v) else (True, val))"

definition parseString :: "mongoose \<Rightarrow> string \<Rightarrow> string \<Rightarrow> string \<Rightarrow> bool \<times> string" where
  "parseString mg js key v =
     (case mg_json_get_str mg (c_str js) (c_str key) of None \<Rightarrow> (False, v) | Some str \<Rightarrow> (True, c_str str))"

text \<open>The parameters in their order; the stream prints with one digit after the point.\<close>

definition generateStatusJson ::
    "fp \<Rightarrow> fp \<Rightarrow> fp \<Rightarrow> fp \<Rightarrow> fp \<Rightarrow>
     fp \<Rightarrow> fp \<Rightarrow> string \<Rightarrow> string \<Rightarrow> string \<Rightarrow>
     string \<Rightarrow> bool \<Rightarrow> fp \<Rightarrow> fp \<Rightarrow> fp \<Rightarrow>
     fp \<Rightarrow> fp \<Rightarrow> fp \<Rightarrow> bool \<Rightarrow> fp \<Rightarrow>
     fp \<Rightarrow> int \<Rightarrow> int \<Rightarrow> int \<Rightarrow> int \<Rightarrow>
     int \<Rightarrow> fp \<Rightarrow> fp \<Rightarrow> bool \<Rightarrow> int \<Rightarrow>
     int \<Rightarrow> string" where
  \<open>generateStatusJson
     dhwTemp dhwTarget heatingTemp enteringWater heatingTarget outdoor leavingWater modeText
     runningStatus priorityText statusText online acCurrent dcCurrent acVoltage dcVoltage acPowerVA
     acPowerW powerValid compressorFreq waterFlow capacityKw capacityOutput oduStatus compressorHours
     pumpHours heatOutput copValue copValid valveStatus workMode =
      ''{"dhwTemperature":'' @ fmt_f 1 dhwTemp @
      '',"dhwTarget":'' @ fmt_f 1 dhwTarget @
      '',"heatingTemperature":'' @ fmt_f 1 heatingTemp @
      '',"heatingTarget":'' @ fmt_f 1 heatingTarget @
      '',"outdoorTemperature":'' @ fmt_f 1 outdoor @
      '',"leavingWaterTemperature":'' @ fmt_f 1 leavingWater @
      '',"enteringWaterTemperature":'' @ fmt_f 1 enteringWater @
      '',"mode":"'' @ modeText @
      ''","runningStatus":"'' @ runningStatus @
      ''","priority":"'' @ priorityText @
      ''","status":"'' @ statusText @
      ''","deviceOnline":'' @ json_bool online @
      '',"acCurrent":'' @ fmt_f 1 acCurrent @
      '',"dcCurrent":'' @ fmt_f 1 dcCurrent @
      '',"acVoltage":'' @ fmt_f 1 acVoltage @
      '',"dcVoltage":'' @ fmt_f 1 dcVoltage @
      '',"acPowerVA":'' @ fmt_f 1 acPowerVA @
      '',"acPowerW":'' @ fmt_f 1 acPowerW @
      '',"powerValid":'' @ json_bool powerValid @
      '',"compressorFrequency":'' @ fmt_f 1 compressorFreq @
      '',"waterFlow":'' @ fmt_f 1 waterFlow @
      '',"unitCapacityKw":'' @ fmt_d capacityKw @
      '',"actualCapacityOutput":'' @ fmt_d capacityOutput @
      '',"oduInputStatus":'' @ fmt_d oduStatus @
      '',"compressorRuntimeHours":'' @ fmt_d compressorHours @
      '',"pumpRuntimeHours":'' @ fmt_d pumpHours @
      '',"heatOutputW":'' @ fmt_f 1 heatOutput @
      '',"cop":'' @ fmt_f 1 copValue @
      '',"copValid":'' @ json_bool copValid @
      '',"dhwValveStatus":'' @ fmt_d valveStatus @
      '',"workingMode":'' @ fmt_d workMode @
      ''}''\<close>

definition generateSuccessResponse :: "bool \<Rightarrow> bool \<Rightarrow> string \<Rightarrow> string" where
  \<open>generateSuccessResponse success verified msg =
     ''{"success":'' @ json_bool success @ '',"verified":'' @ json_bool verified @
     (if msg \<noteq> [] then '',"message":"'' @ msg @ ''"'' else []) @ ''}''\<close>

definition generateErrorResponse :: "string \<Rightarrow> int \<Rightarrow> string" where
  \<open>generateErrorResponse err code = ''{"error":"'' @ err @ ''"}''\<close>

text \<open>The answers of the helpers, read back.\<close>

lemma read_success_response:
  assumes "list_all text_char msg"
  shows "read_object (generateSuccessResponse success verified msg) =
    Some ([(''success'', JBool success), (''verified'', JBool verified)] @ (if msg = [] then [] else [(''message'', JStr msg)]))"
proof -
  let ?ms = "[(''success'', JBool success), (''verified'', JBool verified)] @ (if msg = [] then [] else [(''message'', JStr msg)])"
  have "members_ok ?ms" using assms by (simp add: members_ok_def text_char_def)
  then have "read_object (object_text ?ms @ []) = Some ?ms" by (rule read_object_text) simp_all
  moreover have "generateSuccessResponse success verified msg = object_text ?ms @ []"
    by (simp add: generateSuccessResponse_def object_text_def member_text_def)
  ultimately show ?thesis by simp
qed

lemma read_error_response:
  assumes "list_all text_char err"
  shows "read_object (generateErrorResponse err code) = Some [(''error'', JStr err)]"
proof -
  have "members_ok [(''error'', JStr err)]" using assms by (simp add: members_ok_def text_char_def)
  then have "read_object (object_text [(''error'', JStr err)] @ []) = Some [(''error'', JStr err)]"
    by (rule read_object_text) simp_all
  then show ?thesis by (simp add: generateErrorResponse_def object_text_def member_text_def)
qed

text \<open>A quote in the message is not escaped, and what comes out is no object.\<close>

lemma error_response_unescaped: "read_object (generateErrorResponse [CHR 0x22] code) = None"
  by (simp add: generateErrorResponse_def read_object_def read_string_def read_value_def text_char_def)

lemma read_status_json:
  assumes "list_all finite_fp [dhwTemp, dhwTarget, heatingTemp, enteringWater, heatingTarget, outdoor, leavingWater, acCurrent,
      dcCurrent, acVoltage, dcVoltage, acPowerVA, acPowerW, compressorFreq, waterFlow, heatOutput,
      copValue]" "list_all (list_all text_char) [modeText, runningStatus, priorityText, statusText]"
  shows "read_object (generateStatusJson
      dhwTemp dhwTarget heatingTemp enteringWater heatingTarget outdoor leavingWater modeText
     runningStatus priorityText statusText online acCurrent dcCurrent acVoltage dcVoltage acPowerVA
     acPowerW powerValid compressorFreq waterFlow capacityKw capacityOutput oduStatus compressorHours
     pumpHours heatOutput copValue copValid valveStatus workMode) =
    Some [(''dhwTemperature'', JNum (fmt_f 1 dhwTemp)), (''dhwTarget'', JNum (fmt_f 1 dhwTarget)),
      (''heatingTemperature'', JNum (fmt_f 1 heatingTemp)),
      (''heatingTarget'', JNum (fmt_f 1 heatingTarget)),
      (''outdoorTemperature'', JNum (fmt_f 1 outdoor)),
      (''leavingWaterTemperature'', JNum (fmt_f 1 leavingWater)),
      (''enteringWaterTemperature'', JNum (fmt_f 1 enteringWater)), (''mode'', JStr modeText),
      (''runningStatus'', JStr runningStatus), (''priority'', JStr priorityText),
      (''status'', JStr statusText), (''deviceOnline'', JBool online),
      (''acCurrent'', JNum (fmt_f 1 acCurrent)), (''dcCurrent'', JNum (fmt_f 1 dcCurrent)),
      (''acVoltage'', JNum (fmt_f 1 acVoltage)), (''dcVoltage'', JNum (fmt_f 1 dcVoltage)),
      (''acPowerVA'', JNum (fmt_f 1 acPowerVA)), (''acPowerW'', JNum (fmt_f 1 acPowerW)),
      (''powerValid'', JBool powerValid), (''compressorFrequency'', JNum (fmt_f 1 compressorFreq)),
      (''waterFlow'', JNum (fmt_f 1 waterFlow)), (''unitCapacityKw'', JNum (fmt_d capacityKw)),
      (''actualCapacityOutput'', JNum (fmt_d capacityOutput)),
      (''oduInputStatus'', JNum (fmt_d oduStatus)),
      (''compressorRuntimeHours'', JNum (fmt_d compressorHours)),
      (''pumpRuntimeHours'', JNum (fmt_d pumpHours)), (''heatOutputW'', JNum (fmt_f 1 heatOutput)),
      (''cop'', JNum (fmt_f 1 copValue)), (''copValid'', JBool copValid),
      (''dhwValveStatus'', JNum (fmt_d valveStatus)), (''workingMode'', JNum (fmt_d workMode))]"
    (is "_ = Some ?ms")
proof -
  have "members_ok ?ms" using assms by (simp add: members_ok_def text_char_def fmt_d_number fmt_f_number del: fmt_f.simps)
  then have "read_object (object_text ?ms @ []) = Some ?ms" by (rule read_object_text) simp_all
  then show ?thesis by (simp add: generateStatusJson_def object_text_def member_text_def del: fmt_f.simps)
qed

end
