(* ===== verification/Control_Stable.thy ===== *)
theory Control_Stable
  imports Control_Thread
begin

text \<open>
  Facts about the control loop that survive its operations, as a contract: a fact that does not depend on
  the members which the operations change survives them all. \<open>stable\<close> is for the operations of a poll,
  \<open>stable_thread\<close> for the commands and the whole thread as well.
\<close>

section \<open>A poll\<close>

locale stable =
  fixes P :: "'c ControlLoop \<Rightarrow> bool"
  assumes on_client [simp]: "P (s\<lparr>modbus_client := c\<rparr>) \<longleftrightarrow> P s"
    and on_priority [simp]: "P (s\<lparr>current_priority := p\<rparr>) \<longleftrightarrow> P s"
    and on_mode [simp]: "P (s\<lparr>current_mode := m\<rparr>) \<longleftrightarrow> P s"
    and on_status [simp]: "P (s\<lparr>status_queue := q\<rparr>) \<longleftrightarrow> P s"
    and on_saved [simp]: "P (s\<lparr>saved_dhw_target := t\<rparr>) \<longleftrightarrow> P s" "P (s\<lparr>saved_heating_target := t\<rparr>) \<longleftrightarrow> P s"
      "P (s\<lparr>last_heating_target := t\<rparr>) \<longleftrightarrow> P s" "P (s\<lparr>saved_targets_initialized := b\<rparr>) \<longleftrightarrow> P s"
    and on_targets [simp]: "P (s\<lparr>mDhwTarget := t\<rparr>) \<longleftrightarrow> P s" "P (s\<lparr>mHeatingTarget := t\<rparr>) \<longleftrightarrow> P s"
    and on_fire [simp]: "P s \<Longrightarrow> P (fireSettingsCallback s)"
begin

lemma setRunningMode_stable: "setRunningMode ops m s = (r, s') \<Longrightarrow> P s \<Longrightarrow> P s'"
  by (auto simp: setRunningMode_def split: option.splits prod.splits sum.splits if_splits)

lemma setDhwTarget_stable: "setDhwTarget ops t s = Some (r, s') \<Longrightarrow> P s \<Longrightarrow> P s'"
  by (cases "modbus_client s"; cases "temp_to_raw t";
      cases "m_writeRegister ops REG_DHW_TARGET (the (temp_to_raw t)) (the (modbus_client s))")
    (auto simp: setDhwTarget_def split: sum.splits)

lemma setHeatingTarget_stable: "setHeatingTarget ops t s = Some (r, s') \<Longrightarrow> P s \<Longrightarrow> P s'"
  by (cases "modbus_client s"; cases "temp_to_raw t";
      cases "m_writeRegister ops REG_HEATING_TARGET (the (temp_to_raw t)) (the (modbus_client s))")
    (auto simp: setHeatingTarget_def split: sum.splits)

lemma client_write_stable: "client_write ops a v s = Some (r, s') \<Longrightarrow> P s \<Longrightarrow> P s'"
  by (auto simp: client_write_def split: option.splits prod.splits)

lemma write_priority_stable: "write_priority ops v p s = Some s' \<Longrightarrow> P s \<Longrightarrow> P s'"
  by (cases "client_write ops REG_DHW_PRIORITY v s")
    (auto simp: write_priority_def split: sum.splits dest!: client_write_stable)

lemmas write_stable = setDhwTarget_stable setHeatingTarget_stable write_priority_stable

lemma correct_mode_stable: "P s \<Longrightarrow> P (correct_mode ops s)"
  by (auto simp: correct_mode_def Let_def split: prod.splits dest: setRunningMode_stable)

lemma enforce_targets_stable: "enforce_targets ops st s = Some s' \<Longrightarrow> P s \<Longrightarrow> P s'"
  by (auto simp: enforce_targets_def bind_eq_Some_conv split: if_splits dest!: write_stable)

lemma applyControlLogic_stable: "applyControlLogic ops st s = Some s' \<Longrightarrow> P s \<Longrightarrow> P s'"
  by (auto simp: applyControlLogic_def enforce_priority_def bind_eq_Some_conv split: if_splits
      intro: correct_mode_stable dest!: enforce_targets_stable write_priority_stable)

text \<open>The blocks of \<open>readStatus\<close>.\<close>

lemma fold_try_stable:
  assumes "\<And>a g f x v. (a, g, f) \<in> set bs \<Longrightarrow> P (self x) \<Longrightarrow> P (self (g v x)) \<and> P (self (f x))" "P (self (snd cx))"
  shows "P (self (snd (fold (try_read ops) bs cx)))"
  using assms
proof (induction bs arbitrary: cx)
  case (Cons b bs)
  obtain a g f where b: "b = (a, g, f)" by (cases b)
  have "P (self (snd (try_read ops b cx)))"
    using Cons.prems(1) [of a g f "snd cx"] Cons.prems(2) b by (auto simp: try_read_def split: prod.splits sum.splits)
  moreover have "P (self (g v x)) \<and> P (self (f x))" if "(a, g, f) \<in> set bs" "P (self x)" for a g f x v
    using Cons.prems(1) [of a g f x v] that by simp
  ultimately show ?case using Cons.IH [of "try_read ops b cx"] by simp
qed simp

lemma blocks_stable:
  "(a, g, f) \<in> set (main_blocks @ power_blocks @ diagnostic_blocks) \<Longrightarrow> P (self x) \<Longrightarrow> P (self (g v x)) \<and> P (self (f x))"
  by (auto simp: main_blocks_def power_blocks_def diagnostic_blocks_def got_running_mode_def got_dhw_target_def
      got_heating_target_def got_ac_current_def got_ac_voltage_def Let_def)

lemma readStatus_stable:
  assumes "readStatus ops st s = (b, st', s')" "P s"
  shows "P s'"
proof (cases "modbus_client s")
  case (Some c)
  let ?x = "\<lparr>self = s, status = st, ok = True, l_ac_current = Fin 0, l_ac_voltage = Fin 0,
    got_current = False, got_voltage = False\<rparr>"
  obtain c1 x1 where 1: "fold (try_read ops) main_blocks (c, ?x) = (c1, x1)" by (metis surj_pair)
  obtain c2 x2 where 2: "fold (try_read ops) power_blocks (c1, x1) = (c2, x2)" by (metis surj_pair)
  obtain c3 x3 where 3: "fold (try_read ops) diagnostic_blocks (c2, compute_power x2) = (c3, x3)" by (metis surj_pair)
  have "P (self x1)" using fold_try_stable [of main_blocks "(c, ?x)" ops] 1 assms(2) blocks_stable by fastforce
  then have "P (self x2)" using fold_try_stable [of power_blocks "(c1, x1)" ops] 2 blocks_stable by fastforce
  then have "P (self (compute_power x2))" by (simp add: compute_power_def)
  then have "P (self x3)" using fold_try_stable [of diagnostic_blocks "(c2, compute_power x2)" ops] 3 blocks_stable by fastforce
  then show ?thesis using assms(1) Some 1 2 3 by (auto simp: readStatus_def Let_def)
qed (use assms in \<open>simp add: readStatus_def\<close>)

lemma publish_stable: "P s \<Longrightarrow> P (publish st s)"
  by (simp add: publish_def split: option.split)

lemma read_and_control_stable: "read_and_control ops s = Some s' \<Longrightarrow> P s \<Longrightarrow> P s'"
  by (auto simp: read_and_control_def bind_eq_Some_conv split: prod.splits bool.splits
      intro: publish_stable dest!: readStatus_stable applyControlLogic_stable)

lemma publish_initial_stable: "P s \<Longrightarrow> P (publish_initial ops s)"
  by (auto simp: publish_initial_def split: prod.splits bool.splits intro: publish_stable dest: readStatus_stable)

lemma ensure_connected_stable: "ensure_connected ops stops s = Some (b, s') \<Longrightarrow> P s \<Longrightarrow> P s'"
  by (auto simp: ensure_connected_def split: option.splits if_splits prod.splits)

lemma mode_overrides_stable: "mode_overrides ops m s = Some s' \<Longrightarrow> P s \<Longrightarrow> P s'"
  by (auto simp: mode_overrides_def bind_eq_Some_conv split: if_splits dest!: write_stable)

end

section \<open>The thread\<close>

locale stable_thread = stable P for P :: "'c ControlLoop \<Rightarrow> bool" +
  assumes on_commands [simp]: "P (s\<lparr>cmd_queue := q\<rparr>) \<longleftrightarrow> P s"
    and on_run [simp]: "P (s\<lparr>running := b\<rparr>) \<longleftrightarrow> P s" "P (s\<lparr>stop_requested := b\<rparr>) \<longleftrightarrow> P s"
    and on_kick [simp]: "P (s\<lparr>kick_generation := g\<rparr>) \<longleftrightarrow> P s"
    and on_wanted: "P s \<Longrightarrow> P (fireSettingsCallback (s\<lparr>desired_working_mode := m\<rparr>))"
begin

lemma exec_command_stable: "exec_command ops cmd s = Some s' \<Longrightarrow> P s \<Longrightarrow> P s'"
  by (cases "client_write ops REG_DHW_PRIORITY (to_u16 (int_val cmd)) s")
    (auto simp: exec_command_def set_working_mode_def bind_eq_Some_conv Let_def
      split: CommandType.splits prod.splits sum.splits if_splits
      intro: on_wanted dest!: write_stable client_write_stable setRunningMode_stable mode_overrides_stable)

lemma thread_step_stable: "thread_step ops x y \<Longrightarrow> P (snd x) \<Longrightarrow> P (snd y)"
  by (induction rule: thread_step.induct)
    (auto simp: thread_exit_def intro: publish_initial_stable
      dest!: ensure_connected_stable exec_command_stable read_and_control_stable)

lemma request_stop_stable: "P s \<Longrightarrow> P (request_stop s)"
  by (simp add: request_stop_def kick_def)

lemma other_step_stable: "other_step ok_cmd x y \<Longrightarrow> P (snd x) \<Longrightarrow> P (snd y)"
  by (induction rule: other_step.induct) (auto simp: kick_def request_stop_stable)

lemma thread_steps_stable: "(thread_step ops)\<^sup>*\<^sup>* x y \<Longrightarrow> P (snd x) \<Longrightarrow> P (snd y)"
  by (induction rule: rtranclp_induct) (auto intro: thread_step_stable)

end

section \<open>The wanted mode\<close>

text \<open>A poll leaves the wanted working mode alone.\<close>

interpretation wanted: stable "\<lambda>s. desired_working_mode s = m" for m :: int
  by unfold_locales (simp_all add: fireSettingsCallback_def)

lemma read_and_control_wanted:
  "read_and_control ops s = Some s' \<Longrightarrow> desired_working_mode s' = desired_working_mode s"
  by (rule wanted.read_and_control_stable) simp_all

end
