(* ===== verification/Status_Json.thy ===== *)
theory Status_Json
  imports Json_Helpers Control_Status Control_Stable
begin

text \<open>
  What a client of the web server reads from a status reply: every snapshot that the control loop
  publishes has finite numbers, so its text is a JSON object with the fields of the snapshot.
\<close>

section \<open>The fields\<close>

definition status_fields :: "StatusSnapshot \<Rightarrow> (string \<times> json) list" where
  "status_fields st =
     [(''dhwTemperature'', JNum (fmt_f 1 (dhw_tank_temp st))),
      (''dhwTarget'', JNum (fmt_f 1 (dhw_target st))),
      (''heatingTemperature'', JNum (fmt_f 1 (leaving_water_temp st))),
      (''heatingTarget'', JNum (fmt_f 1 (heating_target st))),
      (''outdoorTemperature'', JNum (fmt_f 1 (outdoor_temp st))),
      (''leavingWaterTemperature'', JNum (fmt_f 1 (leaving_water_temp st))),
      (''enteringWaterTemperature'', JNum (fmt_f 1 (entering_water_temp st))),
      (''mode'', JStr (mode_to_string (running_mode st))),
      (''runningStatus'', JStr (status_to_string (running_status st))),
      (''priority'', JStr (if dhw_priority st then ''dhw'' else ''heating'')),
      (''status'', JStr (if is_running st then ''running'' else ''stopped'')),
      (''deviceOnline'', JBool (device_online st)),
      (''acCurrent'', JNum (fmt_f 2 (ac_current st))),
      (''dcCurrent'', JNum (fmt_f 2 (dc_current st))),
      (''acVoltage'', JNum (fmt_f 1 (ac_voltage st))),
      (''dcVoltage'', JNum (fmt_f 1 (dc_voltage st))),
      (''acPowerVA'', JNum (fmt_f 1 (ac_power_va st))),
      (''acPowerW'', JNum (fmt_f 1 (ac_power_w st))),
      (''powerValid'', JBool (power_valid st)),
      (''compressorFrequency'', JNum (fmt_f 1 (compressor_freq st))),
      (''waterFlow'', JNum (fmt_f 2 (water_flow st))),
      (''unitCapacityKw'', JNum (fmt_d (unit_capacity_kw st))),
      (''actualCapacityOutput'', JNum (fmt_d (actual_capacity_output st))),
      (''oduInputStatus'', JNum (fmt_d (odu_input_status st))),
      (''compressorRuntimeHours'', JNum (fmt_d (compressor_runtime_h st))),
      (''pumpRuntimeHours'', JNum (fmt_d (pump_runtime_h st))),
      (''heatOutputW'', JNum (fmt_f 1 (heat_output_w st))),
      (''cop'', JNum (fmt_f 2 (cop st))),
      (''copValid'', JBool (cop_valid st)),
      (''dhwValveStatus'', JNum (fmt_d (dhw_valve_status st))),
      (''dhwModeStatus'', JNum (fmt_d (dhw_mode_status st))),
      (''workingMode'', JNum (fmt_d (working_mode st))),
      (''occupancyMode'', JNum (fmt_d (occupancy_mode st)))]"

lemma status_text_object: "status_text st = object_text (status_fields st) @ [CHR 0x0A]"
  by (simp add: status_text_def status_parts_def status_fields_def object_text_def member_text_def del: fmt_f.simps)

definition finite_status :: "StatusSnapshot \<Rightarrow> bool" where
  "finite_status st \<longleftrightarrow> list_all finite_fp
     [outdoor_temp st, leaving_water_temp st, entering_water_temp st, dhw_tank_temp st, dhw_target st, heating_target st,
      ac_current st, dc_current st, ac_voltage st, dc_voltage st, ac_power_va st, ac_power_w st, compressor_freq st,
      water_flow st, heat_output_w st, cop st]"

lemma status_words: "list_all text_char (mode_to_string m)" "list_all text_char (status_to_string m)"
  "list_all text_char (if b then ''dhw'' else ''heating'')" "list_all text_char (if b then ''running'' else ''stopped'')"
  by (simp_all add: mode_to_string_def status_to_string_def text_char_def)

lemma read_status_text:
  assumes "finite_status st"
  shows "read_object (status_text st) = Some (status_fields st)"
proof -
  have keys: "list_all (\<lambda>m. list_all text_char (fst m)) (status_fields st)"
    by (simp add: status_fields_def text_char_def)
  have vals: "list_all (\<lambda>m. json_ok (snd m)) (status_fields st)"
    using assms by (simp add: status_fields_def finite_status_def status_words fmt_d_number fmt_f_number del: fmt_f.simps)
  have "members_ok (status_fields st)" using keys vals by (auto simp: members_ok_def list_all_iff)
  then show ?thesis unfolding status_text_object
    by (rule read_object_text) (simp_all add: status_fields_def is_space_def)
qed

section \<open>Bounds of the computed values\<close>

definition fp_within :: "nat \<Rightarrow> fp \<Rightarrow> bool" where
  "fp_within k v \<longleftrightarrow> (\<exists>x. v = Fin x \<and> \<bar>x\<bar> \<le> 2 ^ k)"

lemma r32_powi: "- 149 \<le> e \<Longrightarrow> r32 (2 powi e) = 2 powi e"
  by (rule fround_exact [where m = 1 and q = e]) (auto simp: power_int_def)

lemma r32_pow2: "r32 (2 ^ k) = 2 ^ k"
  using r32_powi [of "int k"] by (simp add: power_int_def)

text \<open>Rounding keeps a bound that is a power of two.\<close>

lemma f32_within:
  assumes "\<bar>x\<bar> \<le> 2 ^ k" "k \<le> 127"
  shows "f32 x = Fin (r32 x)" "\<bar>r32 x\<bar> \<le> 2 ^ k"
proof -
  have "r32 x \<le> 2 ^ k" using fround_mono [of x "2 ^ k" 24 "-149"] assms(1) r32_pow2 [of k] by simp
  moreover have "- (2 ^ k) \<le> r32 x"
    using fround_mono [of "- (2 ^ k)" x 24 "-149"] assms(1) r32_pow2 [of k] by (simp add: fround_minus)
  ultimately show b: "\<bar>r32 x\<bar> \<le> 2 ^ k" by simp
  have "(2::rat) ^ k \<le> 2 ^ 127" using assms(2) by (intro power_increasing) auto
  then have "\<bar>r32 x\<bar> < 2 ^ 128" using b by simp
  then show "f32 x = Fin (r32 x)" by (simp add: f32_def fp_round_def Let_def power_int_def)
qed

lemma within_f32: "\<bar>x\<bar> \<le> 2 ^ k \<Longrightarrow> k \<le> 127 \<Longrightarrow> fp_within k (f32 x)"
  using f32_within [of x k] by (simp add: fp_within_def)

lemma within_mono: "fp_within j v \<Longrightarrow> j \<le> k \<Longrightarrow> fp_within k v"
proof -
  assume "j \<le> k"
  then have "\<bar>x\<bar> \<le> 2 ^ k" if "\<bar>x\<bar> \<le> 2 ^ j" for x :: rat
    by (rule order_trans [OF that power_increasing]) simp
  then show "fp_within j v \<Longrightarrow> fp_within k v" unfolding fp_within_def by blast
qed

lemma within_finite: "fp_within k v \<Longrightarrow> finite_fp v"
  by (auto simp: fp_within_def finite_fp_def)

lemma within_mult:
  assumes "fp_within j a" "fp_within k b" "j + k \<le> 127"
  shows "fp_within (j + k) (fp_mult f32 a b)"
proof -
  obtain x y where xy: "a = Fin x" "b = Fin y" "\<bar>x\<bar> \<le> 2 ^ j" "\<bar>y\<bar> \<le> 2 ^ k" using assms by (auto simp: fp_within_def)
  have "\<bar>x * y\<bar> \<le> 2 ^ (j + k)" unfolding abs_mult power_add using xy by (intro mult_mono) auto
  then show ?thesis using within_f32 [of "x * y" "j + k"] xy assms(3) by simp
qed

lemma within_div:
  assumes "fp_within j a" "1 / 2 ^ k \<le> y" "j + k \<le> 127"
  shows "fp_within (j + k) (fp_div f32 a (Fin y))"
proof -
  obtain x where x: "a = Fin x" "\<bar>x\<bar> \<le> 2 ^ j" using assms by (auto simp: fp_within_def)
  have y: "0 < y" using assms(2) by (rule less_le_trans [rotated]) simp
  have "\<bar>x / y\<bar> = \<bar>x\<bar> * (1 / y)" using y by (simp add: abs_divide)
  also have "\<dots> \<le> 2 ^ j * 2 ^ k"
    using x(2) y assms(2) by (intro mult_mono) (auto simp: field_simps)
  finally have "\<bar>x / y\<bar> \<le> 2 ^ (j + k)" by (simp add: power_add)
  then show ?thesis using within_f32 [of "x / y" "j + k"] x(1) y assms(3) by simp
qed

lemma within_sub:
  assumes "fp_within k a" "fp_within k b" "k < 127"
  shows "fp_within (Suc k) (fp_sub f32 a b)"
proof -
  obtain x y where xy: "a = Fin x" "b = Fin y" "\<bar>x\<bar> \<le> 2 ^ k" "\<bar>y\<bar> \<le> 2 ^ k" using assms by (auto simp: fp_within_def)
  then have "\<bar>x + - y\<bar> \<le> 2 ^ Suc k" by simp
  then show ?thesis using within_f32 [of "x + - y" "Suc k"] xy assms(3) by (simp add: fp_sub_def)
qed

lemma within_const: "\<bar>x\<bar> \<le> 2 ^ k \<Longrightarrow> fp_within k (Fin x)"
  by (simp add: fp_within_def)

lemma within_reg [simp]: "fp_within 17 (f32_of_int (sint (w::i16)))" "fp_within 17 (raw_to_temp w)"
  "fp_within 17 (fp_mult f32 (f32_of_int (sint w)) (Fin 2))" "fp_within 17 (fp_mult f32 (f32_of_int (sint w)) (Fin 4))"
  "fp_within 17 (fp_div f32 (f32_of_int (sint w)) (Fin 2))" "fp_within 17 (fp_div f32 (f32_of_int (sint w)) (Fin 100))"
  "fp_within 17 (Fin 0)"
proof -
  have "\<bar>sint w\<bar> \<le> 2 ^ 15" using sint_i16_range [of w] by auto
  then have "of_int \<bar>sint w\<bar> \<le> (of_int (2 ^ 15) :: rat)" by (simp only: of_int_le_iff)
  then have i: "fp_within 15 (f32_of_int (sint w))" unfolding f32_of_int_def by (intro within_f32) auto
  then show "fp_within 17 (f32_of_int (sint w))" by (rule within_mono) simp
  show "fp_within 17 (fp_mult f32 (f32_of_int (sint w)) (Fin 2))"
    using within_mult [OF i within_const [of 2 1]] within_mono [of 16 _ 17] by simp
  show "fp_within 17 (fp_mult f32 (f32_of_int (sint w)) (Fin 4))"
    using within_mult [OF i within_const [of 4 2]] by simp
  have d: "fp_within 17 (fp_div f32 (f32_of_int (sint w)) (Fin y))" if "1 \<le> y" for y
    using within_div [OF i, of 0 y] within_mono [of 15 _ 17] that by simp
  show "fp_within 17 (fp_div f32 (f32_of_int (sint w)) (Fin 2))" "fp_within 17 (fp_div f32 (f32_of_int (sint w)) (Fin 100))"
    by (simp_all add: d)
  show "fp_within 17 (raw_to_temp w)" using d by (simp add: raw_to_temp_def)
qed (simp add: fp_within_def)

text \<open>Current and voltage are whole numbers, so a power that is not zero is not small either.\<close>

definition whole :: "fp \<Rightarrow> bool" where
  "whole v \<longleftrightarrow> (\<exists>i. v = Fin (of_int i) \<and> \<bar>i\<bar> < 2 ^ 17)"

definition power_value :: "fp \<Rightarrow> bool" where
  "power_value v \<longleftrightarrow> (\<exists>x. v = Fin x \<and> \<bar>x\<bar> \<le> 2 ^ 34 \<and> (0 < x \<longrightarrow> 1 / 2 \<le> x))"

lemma whole_reg [simp]: "whole (Fin 0)" "whole (f32_of_int (sint (w::i16)))" "whole (fp_mult f32 (f32_of_int (sint w)) (Fin 2))"
proof -
  have r: "\<bar>sint w\<bar> \<le> 2 ^ 15" using sint_i16_range [of w] by auto
  have f: "f32_of_int (sint w) = Fin (of_int (sint w))" unfolding f32_of_int_def using r by (intro f32_of_short_int) auto
  then show "whole (f32_of_int (sint w))" using r unfolding whole_def by (intro exI [of _ "sint w"]) simp
  have "f32 (of_int (sint w * 2)) = Fin (of_int (sint w * 2))" using r by (intro f32_of_short_int) auto
  then show "whole (fp_mult f32 (f32_of_int (sint w)) (Fin 2))"
    unfolding f whole_def using r by (intro exI [of _ "sint w * 2"]) simp
  show "whole (Fin 0)" by (auto simp: whole_def intro!: exI [of _ 0])
qed

lemma r32_lower:
  assumes "- 149 \<le> e" "2 powi e \<le> x"
  shows "2 powi e \<le> r32 x"
  using fround_mono [OF assms(2), of 24 "-149"] r32_powi [OF assms(1)] by simp

lemma power_product:
  assumes "whole a" "whole b" "va = fp_mult f32 a b" "w = fp_mult f32 va ESTIMATED_POWER_FACTOR"
  shows "fp_within 34 va" "power_value w"
proof -
  obtain i j where ij: "a = Fin (of_int i)" "b = Fin (of_int j)" "\<bar>i\<bar> < 2 ^ 17" "\<bar>j\<bar> < 2 ^ 17"
    using assms(1,2) by (auto simp: whole_def)
  have "\<bar>i * j\<bar> \<le> 2 ^ 17 * 2 ^ 17" unfolding abs_mult using ij by (intro mult_mono) auto
  then have "of_int \<bar>i * j\<bar> \<le> (of_int (2 ^ 17 * 2 ^ 17) :: rat)" by (simp only: of_int_le_iff)
  then have p: "\<bar>of_int (i * j)\<bar> \<le> (2::rat) ^ 34" by simp
  note va = f32_within [OF p]
  have vax: "va = Fin (r32 (of_int (i * j)))" using assms(3) ij va by simp
  then show wi: "fp_within 34 va" using va by (simp add: fp_within_def)
  obtain k where k: "ESTIMATED_POWER_FACTOR = Fin k" "1 / 2 \<le> k" "k \<le> 1"
  proof -
    have "f32 (9 / 10) = Fin (r32 (9 / 10))" using f32_within [of "9 / 10" 0] by simp
    moreover have "r32 (9 / 10) \<le> 1" using f32_within [of "9 / 10" 0] by simp
    moreover have "2 powi (- 1) \<le> r32 (9 / 10)" by (rule r32_lower) (simp_all add: power_int_def)
    ultimately show ?thesis by (intro that [of "r32 (9 / 10)"]) (simp_all add: ESTIMATED_POWER_FACTOR_def power_int_def)
  qed
  define y where "y = r32 (of_int (i * j))"
  have y: "\<bar>y\<bar> \<le> 2 ^ 34" using va by (simp add: y_def)
  have "\<bar>y * k\<bar> \<le> 2 ^ 34 * 1" unfolding abs_mult using y k by (intro mult_mono) auto
  then have "w = Fin (r32 (y * k))" "\<bar>r32 (y * k)\<bar> \<le> 2 ^ 34"
    using f32_within [of "y * k" 34] by (simp_all add: assms(4) vax k(1) y_def)
  moreover have "1 / 2 \<le> r32 (y * k)" if "0 < r32 (y * k)"
  proof -
    have "0 < y * k"
    proof (rule ccontr)
      assume "\<not> 0 < y * k"
      then have "r32 (y * k) \<le> r32 0" by (intro fround_mono) auto
      with that show False by simp
    qed
    then have "0 < y" using k by (simp add: zero_less_mult_iff)
    then have "\<not> i * j \<le> 0" using fround_mono [of "of_int (i * j)" 0 24 "-149"] by (auto simp: y_def simp flip: of_int_mult)
    then have "1 \<le> i * j" by simp
    then have "(2::rat) powi 0 \<le> of_int (i * j)" by (simp only: of_int_1_le_iff power_int_0_right)
    then have "1 \<le> y" unfolding y_def using r32_lower [of 0] by simp
    then have "1 * (1 / 2) \<le> y * k" using k by (intro mult_mono) auto
    then show ?thesis using r32_lower [of "- 1" "y * k"] by (simp add: power_int_def)
  qed
  ultimately show "power_value w" by (auto simp: power_value_def)
qed

section \<open>A published snapshot is finite\<close>

text \<open>What every \<open>try\<close> block keeps, and what is true of the snapshot at the end.\<close>

definition read_bounded :: "'c read_state \<Rightarrow> bool" where
  "read_bounded x \<longleftrightarrow>
     (let st = status x
      in list_all (fp_within 17) [outdoor_temp st, leaving_water_temp st, entering_water_temp st, dhw_tank_temp st,
           dhw_target st, heating_target st, ac_current st, dc_current st, ac_voltage st, dc_voltage st,
           compressor_freq st, water_flow st] \<and>
         fp_within 34 (ac_power_va st) \<and> power_value (ac_power_w st)) \<and>
     fp_within 17 (last_heating_target (self x)) \<and> whole (l_ac_current x) \<and> whole (l_ac_voltage x)"

definition block_bounded :: "'c try_block \<Rightarrow> bool" where
  "block_bounded b \<longleftrightarrow> (\<forall>x. read_bounded x \<longrightarrow> read_bounded (snd (snd b) x) \<and> (\<forall>v. read_bounded (fst (snd b) v x)))"

lemma fold_read_bounded:
  "list_all block_bounded bs \<Longrightarrow> read_bounded (snd cx) \<Longrightarrow> read_bounded (snd (fold (try_read ops) bs cx))"
  by (induction bs arbitrary: cx)
    (auto simp: try_read_def block_bounded_def split: prod.splits sum.splits)

lemma blocks_bounded: "list_all block_bounded main_blocks" "list_all block_bounded power_blocks"
    "list_all block_bounded diagnostic_blocks"
  by (simp_all add: main_blocks_def power_blocks_def diagnostic_blocks_def block_bounded_def read_bounded_def
      got_running_mode_def got_dhw_target_def got_heating_target_def got_ac_current_def got_ac_voltage_def Let_def)

lemma power_value_0 [simp]: "power_value (Fin 0)" "fp_within k (Fin 0)"
  by (simp_all add: power_value_def fp_within_def)

lemma compute_power_bounded: "read_bounded x \<Longrightarrow> read_bounded (compute_power x)"
  using power_product [of "l_ac_voltage x" "l_ac_current x", OF _ _ refl refl]
  by (simp add: read_bounded_def compute_power_def Let_def)

lemma compute_cop_finite:
  assumes "read_bounded x"
  shows "finite_status (compute_cop (status x))"
proof -
  define st where "st = status x"
  define dt where "dt = fp_sub f32 (leaving_water_temp st) (entering_water_temp st)"
  define heat where "heat = fp_mult f32 (fp_mult f32 (fp_div f32 (fp_mult f32 (water_flow st) (Fin 1000)) (Fin 3600)) (Fin 4186)) dt"
  have b: "fp_within 17 (leaving_water_temp st)" "fp_within 17 (entering_water_temp st)" "fp_within 17 (water_flow st)"
    and w: "power_value (ac_power_w st)"
    using assms by (simp_all add: read_bounded_def st_def Let_def)
  have "fp_within 18 dt" using within_sub [OF b(1,2)] by (simp add: dt_def)
  moreover have "fp_within 27 (fp_mult f32 (water_flow st) (Fin 1000))"
    using within_mult [OF b(3) within_const [of 1000 10]] by simp
  then have "fp_within 27 (fp_div f32 (fp_mult f32 (water_flow st) (Fin 1000)) (Fin 3600))"
    using within_div [of 27 _ 0 3600] by simp
  from within_mult [OF this within_const [of 4186 13]]
  have "fp_within 40 (fp_mult f32 (fp_div f32 (fp_mult f32 (water_flow st) (Fin 1000)) (Fin 3600)) (Fin 4186))" by simp
  ultimately have heat: "fp_within 58 heat" using within_mult [of 40 _ 18 dt] by (simp add: heat_def)
  obtain y where y: "ac_power_w st = Fin y" "0 < y \<longrightarrow> 1 / 2 \<le> y" using w by (auto simp: power_value_def)
  have cop: "finite_fp (fp_div f32 heat (Fin y))" if "0 < y"
    using within_finite [OF within_div [OF heat, of 1 y]] y(2) that by simp
  have rest: "list_all finite_fp [outdoor_temp st, leaving_water_temp st, entering_water_temp st, dhw_tank_temp st, dhw_target st,
      heating_target st, ac_current st, dc_current st, ac_voltage st, dc_voltage st, ac_power_va st, ac_power_w st,
      compressor_freq st, water_flow st]"
    using assms y(1) by (auto simp: read_bounded_def st_def Let_def finite_fp_def [of "Fin _"] dest: within_finite)
  have zero: "finite_fp (Fin 0)" by (simp add: finite_fp_def)
  show ?thesis
    using rest zero within_finite [OF heat] cop y(1)
    unfolding finite_status_def compute_cop_def Let_def st_def [symmetric]
    by (auto simp: heat_def dt_def)
qed

lemma readStatus_finite:
  assumes "fp_within 17 (last_heating_target s)" "readStatus ops StatusSnapshot_default s = (b, st, s')"
  shows "finite_status st"
proof (cases "modbus_client s")
  case None
  then have "st = StatusSnapshot_default" using assms(2) by (simp add: readStatus_def)
  then show ?thesis by (simp add: finite_status_def StatusSnapshot_default_def finite_fp_def)
next
  case (Some c)
  let ?x = "\<lparr>self = s, status = StatusSnapshot_default, ok = True, l_ac_current = Fin 0, l_ac_voltage = Fin 0,
    got_current = False, got_voltage = False\<rparr>"
  obtain c1 x1 where 1: "fold (try_read ops) main_blocks (c, ?x) = (c1, x1)" by (metis surj_pair)
  obtain c2 x2 where 2: "fold (try_read ops) power_blocks (c1, x1) = (c2, x2)" by (metis surj_pair)
  obtain c3 x3 where 3: "fold (try_read ops) diagnostic_blocks (c2, compute_power x2) = (c3, x3)" by (metis surj_pair)
  have "read_bounded ?x" using assms(1) by (simp add: read_bounded_def StatusSnapshot_default_def Let_def)
  then have "read_bounded x1" using fold_read_bounded [OF blocks_bounded(1), of "(c, ?x)" ops] 1 by simp
  then have "read_bounded x2" using fold_read_bounded [OF blocks_bounded(2), of "(c1, x1)" ops] 2 by simp
  then have "read_bounded (compute_power x2)" by (rule compute_power_bounded)
  then have "read_bounded x3" using fold_read_bounded [OF blocks_bounded(3), of "(c2, compute_power x2)" ops] 3 by simp
  from compute_cop_finite [OF this] show ?thesis
    using assms(2) Some 1 2 3 by (auto simp: readStatus_def finite_status_def Let_def)
qed

section \<open>The snapshot in the queue\<close>

text \<open>The snapshot that a poll leaves in the queue is the one it read, with the wanted working mode.\<close>

lemma published_snapshot:
  assumes "modbus_client s = Some (c, l)" "status_queue s = Some q" "sq_holds q hs" "length hs + 1 < 2 ^ 32"
    and "read_and_control (logged ops) s = Some s'" "readStatus (logged ops) StatusSnapshot_default s = (b, st, s1)"
  shows "\<exists>q'. status_queue s' = Some q' \<and> StatusQueue_latest q' = Some (st\<lparr>working_mode := desired_working_mode s'\<rparr>)"
proof -
  have q1: "status_queue s1 = Some q" "device_online st = b" using readStatus_logged [OF assms(1,6)] assms(2) by auto
  have "\<exists>s2. s' = publish (st\<lparr>working_mode := desired_working_mode s2\<rparr>) s2 \<and> status_queue s2 = Some q"
  proof (cases b)
    case True
    then show ?thesis using assms(5,6) q1 applyControlLogic_queue
      by (fastforce simp: read_and_control_def bind_eq_Some_conv)
  next
    case False
    have same: "st\<lparr>device_online := False, working_mode := m\<rparr> = st\<lparr>working_mode := m\<rparr>" for m
      using q1(2) False by (cases st) simp
    have "s' = publish (st\<lparr>device_online := False, working_mode := desired_working_mode s1\<rparr>) s1"
      using assms(5,6) False by (simp add: read_and_control_def)
    then show ?thesis unfolding same using q1(1) by blast
  qed
  then obtain s2 where s2: "s' = publish (st\<lparr>working_mode := desired_working_mode s2\<rparr>) s2" "status_queue s2 = Some q" by blast
  let ?st = "st\<lparr>working_mode := desired_working_mode s2\<rparr>"
  obtain q' where q': "StatusQueue_push ?st q = (True, q')" "sq_holds q' (hs @ [?st])"
      "unat (sq_head q') = max (unat (sq_head q)) (length hs + 1 - 31)"
    using sq_holds_push [OF assms(3,4)] by blast
  have "unat (sq_head q) \<le> length hs" using assms(3) by (auto simp: sq_holds_def word_le_nat_alt)
  then have "StatusQueue_latest q' = Some ?st" using StatusQueue_latest_eq [OF q'(2)] q'(3) by (simp add: sq_list_def)
  with s2 q' show ?thesis by (auto simp: publish_def)
qed

section \<open>Properties\<close>

text \<open>
  C19. What the device reports reaches the browser: after a poll of the device, whatever it answered,
  a request for the status is answered 200 with a complete JSON object, and reading that object gives back
  the 33 fields of the snapshot of this poll with the wanted working mode, every number printed as a
  number (never \<open>nan\<close> or \<open>inf\<close>) and none cut off by the buffer.
\<close>

theorem status_reply_reads_back:
  assumes "modbus_client s = Some (c, l)" "status_queue s = Some q" "sq_holds q hs" "length hs + 1 < 2 ^ 32"
    and "fp_within 17 (last_heating_target s)" "read_and_control (logged ops) s = Some s'" "is_int (desired_working_mode s)"
    and "w_status_queue w = status_queue s'"
  shows "\<exists>st text b s1. readStatus (logged ops) StatusSnapshot_default s = (b, st, s1) \<and>
    fst (apiStatusHandler w) = JsonReply 200 text \<and>
    read_object text = Some (status_fields (st\<lparr>working_mode := desired_working_mode s\<rparr>))"
proof -
  obtain b st s1 where r: "readStatus (logged ops) StatusSnapshot_default s = (b, st, s1)" by (metis surj_pair)
  define st' where "st' = st\<lparr>working_mode := desired_working_mode s\<rparr>"
  obtain q' where q': "status_queue s' = Some q'" "StatusQueue_latest q' = Some st'"
    using published_snapshot [OF assms(1-4,6) r] read_and_control_wanted [OF assms(6)] by (auto simp: st'_def)
  have "finite_status st" by (rule readStatus_finite [OF assms(5) r])
  then have "finite_status st'" by (simp add: finite_status_def st'_def)
  moreover have "is_float (last_heating_target s)"
    using assms(5) unfolding fp_within_def is_float_def by (auto elim: order_le_less_trans)
  from status_reply_complete [OF _ q'(2) [unfolded st'_def] r this assms(7)]
  have "fst (apiStatusHandler w) = JsonReply 200 (status_text st')" using assms(8) q'(1) by (simp add: st'_def)
  ultimately show ?thesis using r read_status_text [of st'] by (auto simp: st'_def)
qed

abbreviation polled_loop :: "((u16 \<Rightarrow> i16) \<times> client_event list) ControlLoop" where
  "polled_loop \<equiv> ControlLoop_init\<lparr>modbus_client := Some (\<lambda>a. 400, []),
     status_queue := Some (StatusQueue_init (replicate 32 StatusSnapshot_default))\<rparr>"

theorem status_reply_reads_back_witness:
  "\<exists>s' st text b s1. read_and_control (logged bank_ops) polled_loop = Some s' \<and>
    readStatus (logged bank_ops) StatusSnapshot_default polled_loop = (b, st, s1) \<and>
    fst (apiStatusHandler (test_server\<lparr>w_status_queue := status_queue s'\<rparr>)) = JsonReply 200 text \<and>
    read_object text = Some (status_fields (st\<lparr>working_mode := 3\<rparr>))"
proof -
  have "lg.guarded polled_loop" by (simp add: lg.guarded_def ControlLoop_init_def target_ok_Fin)
  then obtain s' where s': "read_and_control (logged bank_ops) polled_loop = Some s'"
    using lg.read_and_control_keeps [of polled_loop bank_ops] by (auto simp: lg.keeps_def)
  have q: "sq_holds (StatusQueue_init (replicate 32 StatusSnapshot_default)) []" by (simp add: sq_holds_init)
  have "\<exists>st text b s1. readStatus (logged bank_ops) StatusSnapshot_default polled_loop = (b, st, s1) \<and>
    fst (apiStatusHandler (test_server\<lparr>w_status_queue := status_queue s'\<rparr>)) = JsonReply 200 text \<and>
    read_object text = Some (status_fields (st\<lparr>working_mode := desired_working_mode polled_loop\<rparr>))"
    by (rule status_reply_reads_back [OF _ _ q _ _ s'])
      (simp_all add: ControlLoop_init_def fp_within_def is_int_def WebServer_init_def)
  then show ?thesis using s' by (simp add: ControlLoop_init_def)
qed

end
