(* ===== verification/Platform_Services.thy ===== *)
theory Platform_Services
  imports Text_Format
begin

text \<open>
  The services of \<open>src/utils/Platform.cpp\<close> around the program, in the POSIX build: the lock that keeps
  a second instance from starting, signals, sleeping, the directories, the wrapper of threads and the
  scoped lock. The system calls are parameters.
\<close>

section \<open>The instance lock\<close>

text \<open>
  The calls on the lock file that one process makes: \<open>open\<close>, \<open>flock\<close> (whether it succeeded), \<open>write\<close> and
  \<open>ftruncate\<close>, \<open>close\<close> and \<open>getpid\<close>. The close-on-exec flag has no effect within the program and
  is left out, as are the file offsets: every write starts at the beginning of the file.
\<close>

record 'n lock_os =
  lk_open :: "string \<Rightarrow> 'n \<Rightarrow> int \<times> 'n"
  lk_flock :: "int \<Rightarrow> 'n \<Rightarrow> bool \<times> 'n"
  lk_write :: "int \<Rightarrow> string \<Rightarrow> 'n \<Rightarrow> int \<times> 'n"
  lk_ftruncate :: "int \<Rightarrow> nat \<Rightarrow> 'n \<Rightarrow> 'n"
  lk_close :: "int \<Rightarrow> 'n \<Rightarrow> 'n"
  lk_getpid :: int

record lock_globals =
  g_lock_name_override :: "string option"
  g_lock_fd :: int

definition lock_globals_init :: lock_globals where
  "lock_globals_init = \<lparr>g_lock_name_override = None, g_lock_fd = - 1\<rparr>"

definition set_instance_lock_name_for_test :: "string \<Rightarrow> lock_globals \<Rightarrow> lock_globals" where
  "set_instance_lock_name_for_test lock_name g = g\<lparr>g_lock_name_override := Some lock_name\<rparr>"

definition clear_instance_lock_name_for_test :: "lock_globals \<Rightarrow> lock_globals" where
  "clear_instance_lock_name_for_test g = g\<lparr>g_lock_name_override := None\<rparr>"

definition get_lock_path :: "lock_globals \<Rightarrow> string" where
  "get_lock_path g = (case g_lock_name_override g of Some p \<Rightarrow> p | None \<Rightarrow> ''/tmp/windmi-controller.lock'')"

definition acquire_instance_lock ::
    "'n lock_os \<Rightarrow> bool \<Rightarrow> lock_globals \<times> 'n \<Rightarrow> bool \<times> lock_globals \<times> 'n" where
  "acquire_instance_lock os force gn = (case gn of (g, n) \<Rightarrow>
     case lk_open os (get_lock_path g) n of (fd, n) \<Rightarrow>
       if fd < 0 then (False, g, n)
       else case lk_flock os fd n of (locked, n) \<Rightarrow>
         if \<not> locked \<and> \<not> force then (False, g, lk_close os fd n)
         else
           let n = (if locked then n else lk_ftruncate os fd 0 n);
               pid_buf = fmt_d (lk_getpid os) @ [CHR 0x0A];
               n = snd (lk_write os fd pid_buf n);
               n = lk_ftruncate os fd (length pid_buf) n
           in (True, g\<lparr>g_lock_fd := fd\<rparr>, n))"

definition release_instance_lock :: "'n lock_os \<Rightarrow> lock_globals \<times> 'n \<Rightarrow> lock_globals \<times> 'n" where
  "release_instance_lock os gn = (case gn of (g, n) \<Rightarrow>
     let n = (if g_lock_fd g \<ge> 0 then lk_close os (g_lock_fd g) n else n)
     in (g\<lparr>g_lock_fd := - 1\<rparr>, n))"

text \<open>
  What the program relies on of the operating system, for processes \<open>p\<close> with calls \<open>os p\<close> on one lock
  file: a lock belongs to the open file, named by the process and the descriptor, only one open file
  has it at a time, closing gives it up, and a new descriptor is not one that has it.
\<close>

locale flock_os =
  fixes os :: "nat \<Rightarrow> 'n lock_os"
    and holder :: "'n \<Rightarrow> (nat \<times> int) option"
  assumes open_holder: "lk_open (os p) path n = (fd, n') \<Longrightarrow> holder n' = holder n \<and> holder n \<noteq> Some (p, fd)"
    and flock_some: "lk_flock (os p) fd n = (True, n') \<Longrightarrow> holder n \<in> {None, Some (p, fd)} \<and> holder n' = Some (p, fd)"
    and flock_none: "lk_flock (os p) fd n = (False, n') \<Longrightarrow> holder n' = holder n"
    and close_holder: "holder (lk_close (os p) fd n) = (if holder n = Some (p, fd) then None else holder n)"
    and write_holder: "holder (snd (lk_write (os p) fd bs n)) = holder n"
    and trunc_holder: "holder (lk_ftruncate (os p) fd k n) = holder n"
begin

text \<open>The processes that took the lock and did not give it back are the one that has it.\<close>

definition lock_inv :: "(nat \<Rightarrow> lock_globals) \<times> 'n \<Rightarrow> bool" where
  "lock_inv w \<longleftrightarrow> (\<forall>p. g_lock_fd (fst w p) \<ge> 0 \<longrightarrow> holder (snd w) = Some (p, g_lock_fd (fst w p)))"

lemma acquire_cases:
  assumes "acquire_instance_lock (os p) False (g, n) = (b, g', n')"
  shows "(b \<and> holder n = None \<and> g' = g\<lparr>g_lock_fd := g_lock_fd g'\<rparr> \<and> holder n' = Some (p, g_lock_fd g')) \<or>
         (\<not> b \<and> g' = g \<and> holder n' = holder n)"
proof -
  obtain fd n1 where o: "lk_open (os p) (get_lock_path g) n = (fd, n1)" by (cases "lk_open (os p) (get_lock_path g) n")
  obtain ok n2 where f: "lk_flock (os p) fd n1 = (ok, n2)" by (cases "lk_flock (os p) fd n1")
  note h = open_holder [OF o]
  show ?thesis
  proof (cases ok)
    case True
    then show ?thesis
      using assms o f h flock_some [of p fd n1 n2]
      by (auto simp: acquire_instance_lock_def Let_def write_holder trunc_holder split: if_splits)
  next
    case False
    then show ?thesis
      using assms o f h flock_none [of p fd n1 n2]
      by (auto simp: acquire_instance_lock_def Let_def close_holder split: if_splits)
  qed
qed

lemma acquire_inv:
  assumes "lock_inv (G, n)" "acquire_instance_lock (os p) False (G p, n) = (b, g', n')"
  shows "lock_inv (G(p := g'), n') \<and> (b \<longrightarrow> (\<forall>q. g_lock_fd (G q) < 0))"
  using acquire_cases [OF assms(2)] assms(1) by (auto simp: lock_inv_def not_le fun_upd_def split: if_splits)

lemma release_inv:
  assumes "lock_inv (G, n)" "release_instance_lock (os p) (G p, n) = (g', n')"
  shows "lock_inv (G(p := g'), n')"
  using assms by (auto simp: lock_inv_def release_instance_lock_def Let_def close_holder)

text \<open>Taking the lock and giving it back leaves it with who had it before: nobody, unless it was forced.\<close>

lemma acquire_release:
  assumes "acquire_instance_lock (os p) force (g, n) = (True, g', n')"
  shows "holder (snd (release_instance_lock (os p) (g', n'))) = holder n \<and> (\<not> force \<longrightarrow> holder n = None)"
proof -
  obtain fd n1 where o: "lk_open (os p) (get_lock_path g) n = (fd, n1)" by (cases "lk_open (os p) (get_lock_path g) n")
  obtain locked n2 where f: "lk_flock (os p) fd n1 = (locked, n2)" by (cases "lk_flock (os p) fd n1")
  note h = open_holder [OF o]
  show ?thesis
  proof (cases locked)
    case True
    then show ?thesis
      using assms o f h flock_some [of p fd n1 n2]
      by (auto simp: acquire_instance_lock_def release_instance_lock_def Let_def close_holder write_holder trunc_holder
          split: if_splits)
  next
    case False
    then show ?thesis
      using assms o f h flock_none [of p fd n1 n2]
      by (auto simp: acquire_instance_lock_def release_instance_lock_def Let_def close_holder write_holder trunc_holder
          split: if_splits)
  qed
qed

end

text \<open>Processes that start without \<open>--force\<close> and end, in any order.\<close>

inductive lock_step :: "(nat \<Rightarrow> 'n lock_os) \<Rightarrow> (nat \<Rightarrow> lock_globals) \<times> 'n \<Rightarrow> (nat \<Rightarrow> lock_globals) \<times> 'n \<Rightarrow> bool" for os where
  starts: "acquire_instance_lock (os p) False (G p, n) = (b, g', n') \<Longrightarrow> lock_step os (G, n) (G(p := g'), n')"
| ends: "release_instance_lock (os p) (G p, n) = (g', n') \<Longrightarrow> lock_step os (G, n) (G(p := g'), n')"

context flock_os
begin

lemma lock_step_inv: "lock_step os w w' \<Longrightarrow> lock_inv w \<Longrightarrow> lock_inv w'"
  by (induction rule: lock_step.induct) (auto dest: acquire_inv release_inv)

lemma lock_steps_inv: "(lock_step os)\<^sup>*\<^sup>* w w' \<Longrightarrow> lock_inv w \<Longrightarrow> lock_inv w'"
  by (induction rule: rtranclp_induct) (auto intro: lock_step_inv)

lemma lock_inv_unique:
  assumes "lock_inv (G, n)" "g_lock_fd (G p) \<ge> 0" "g_lock_fd (G q) \<ge> 0"
  shows "p = q"
proof -
  have "Some (p, g_lock_fd (G p)) = Some (q, g_lock_fd (G q))"
    using assms unfolding lock_inv_def by (metis fst_conv snd_conv)
  then show ?thesis by simp
qed

end

text \<open>A kernel with one lock file, which gives out the lowest free descriptor.\<close>

record lock_file =
  lf_holder :: "(nat \<times> int) option"
  lf_text :: string

definition kernel_os :: "nat \<Rightarrow> lock_file lock_os" where
  "kernel_os p =
     \<lparr>lk_open = (\<lambda>path n. (if lf_holder n = Some (p, 3) then 4 else 3, n)),
      lk_flock = (\<lambda>fd n. if lf_holder n \<in> {None, Some (p, fd)} then (True, n\<lparr>lf_holder := Some (p, fd)\<rparr>) else (False, n)),
      lk_write = (\<lambda>fd bs n. (int (length bs), n\<lparr>lf_text := bs @ drop (length bs) (lf_text n)\<rparr>)),
      lk_ftruncate = (\<lambda>fd k n. n\<lparr>lf_text := take k (lf_text n)\<rparr>),
      lk_close = (\<lambda>fd n. if lf_holder n = Some (p, fd) then n\<lparr>lf_holder := None\<rparr> else n),
      lk_getpid = int p\<rparr>"

interpretation kl: flock_os kernel_os lf_holder
  by unfold_locales (auto simp: kernel_os_def split: if_splits)

section \<open>Signals\<close>

text \<open>
  \<open>g_running_flag_ptr\<close> is null or points to the flag of \<open>main\<close>, whose value is \<open>g_running\<close>. A signal
  that is neither ignored nor caught ends the process: \<open>None\<close>.
\<close>

datatype signo = SIGINT | SIGTERM | SIGPIPE | Other_signal int

datatype disposition = SIG_DFL | SIG_IGN | Signal_handler

record signal_state =
  g_running_flag_ptr :: bool
  g_running :: int
  disposition_of :: "signo \<Rightarrow> disposition"

definition signal_state_init :: signal_state where
  "signal_state_init = \<lparr>g_running_flag_ptr = False, g_running = 1, disposition_of = (\<lambda>_. SIG_DFL)\<rparr>"

definition signal_handler :: "signal_state \<Rightarrow> signal_state" where
  "signal_handler g = (if g_running_flag_ptr g then g\<lparr>g_running := 0\<rparr> else g)"

definition install_signal_handlers :: "bool \<Rightarrow> signal_state \<Rightarrow> signal_state" where
  "install_signal_handlers running_flag g =
     g\<lparr>g_running_flag_ptr := running_flag,
       disposition_of := (disposition_of g)(SIGPIPE := SIG_IGN, SIGINT := Signal_handler, SIGTERM := Signal_handler)\<rparr>"

definition deliver :: "signo \<Rightarrow> signal_state \<Rightarrow> signal_state option" where
  "deliver sig g = (case disposition_of g sig of
     SIG_DFL \<Rightarrow> None | SIG_IGN \<Rightarrow> Some g | Signal_handler \<Rightarrow> Some (signal_handler g))"

text \<open>
  Once the handlers are installed, no interrupt, no request to terminate and no broken connection ends
  the process on the spot: the main loop goes on exactly until the first interrupt or request to terminate, and stops then.
\<close>

lemma signals_stop_the_loop:
  assumes "set sigs \<subseteq> {SIGINT, SIGTERM, SIGPIPE}"
  shows "\<exists>g. fold (\<lambda>sig r. Option.bind r (deliver sig)) sigs (Some (install_signal_handlers True signal_state_init)) = Some g \<and>
    (g_running g = 0 \<longleftrightarrow> SIGINT \<in> set sigs \<or> SIGTERM \<in> set sigs)"
proof -
  define ready where "ready g \<longleftrightarrow> g_running_flag_ptr g \<and> disposition_of g SIGPIPE = SIG_IGN \<and>
    disposition_of g SIGINT = Signal_handler \<and> disposition_of g SIGTERM = Signal_handler" for g :: signal_state
  have "\<exists>g'. fold (\<lambda>sig r. Option.bind r (deliver sig)) sigs (Some g) = Some g' \<and>
      (g_running g' = 0 \<longleftrightarrow> g_running g = 0 \<or> SIGINT \<in> set sigs \<or> SIGTERM \<in> set sigs)" if "ready g" for g
    using assms that
  proof (induction sigs arbitrary: g)
    case (Cons sig sigs)
    have "\<exists>g1. deliver sig g = Some g1 \<and> ready g1 \<and> (g_running g1 = 0 \<longleftrightarrow> g_running g = 0 \<or> sig \<noteq> SIGPIPE)"
      using Cons.prems by (auto simp: deliver_def signal_handler_def ready_def)
    then obtain g1 where g1: "deliver sig g = Some g1" "ready g1" "g_running g1 = 0 \<longleftrightarrow> g_running g = 0 \<or> sig \<noteq> SIGPIPE" by blast
    with Cons.IH [of g1] Cons.prems show ?case by auto
  qed auto
  moreover have "ready (install_signal_handlers True signal_state_init)"
    by (simp add: ready_def install_signal_handlers_def)
  ultimately show ?thesis
    by (fastforce simp: install_signal_handlers_def signal_state_init_def)
qed

section \<open>Sleeping\<close>

text \<open>The microseconds that \<open>usleep\<close> is asked for: an \<open>unsigned int\<close>, so the time is exact up to 71 minutes.\<close>

definition platform_sleep_ms :: "u32 \<Rightarrow> u32" where
  "platform_sleep_ms ms = ms * 1000"

lemma platform_sleep_ms_exact: "uint (platform_sleep_ms ms) = uint ms * 1000 \<longleftrightarrow> uint ms \<le> 4294967"
proof -
  have "uint (platform_sleep_ms ms) = uint ms * 1000 mod 2 ^ 32" by (simp add: platform_sleep_ms_def uint_word_ariths)
  then show ?thesis by (auto simp: mod_pos_pos_trivial)
qed

section \<open>Directories\<close>

text \<open>\<open>getenv("HOME")\<close> and the home directory of the password file, each if there is one.\<close>

definition get_home_dir :: "string option \<Rightarrow> string option \<Rightarrow> string" where
  "get_home_dir HOME pw_dir = (case HOME of Some home \<Rightarrow> home | None \<Rightarrow> (case pw_dir of Some d \<Rightarrow> d | None \<Rightarrow> []))"

text \<open>The text before the last \<open>/\<close>, if there is one.\<close>

definition before_slash :: "string \<Rightarrow> string option" where
  "before_slash s = (if CHR ''/'' \<in> set s then Some (rev (tl (dropWhile (\<lambda>c. c \<noteq> CHR ''/'') (rev s)))) else None)"

text \<open>\<open>exe\<close>: the resolved path of the executable, if it is known; \<open>is_dir\<close>: \<open>stat\<close> succeeds and finds a directory.\<close>

definition resolve_static_dir :: "string option \<Rightarrow> (string \<Rightarrow> bool) \<Rightarrow> string \<Rightarrow> string" where
  "resolve_static_dir exe is_dir dir =
     (let exe_dir = (case exe of None \<Rightarrow> [] | Some p \<Rightarrow> (case before_slash p of None \<Rightarrow> [] | Some d \<Rightarrow> d));
          try_dir = (\<lambda>d. if is_dir d then d else []);
          r = try_dir dir
      in if r \<noteq> [] then r
         else if exe_dir \<noteq> [] then
           (let r = try_dir (exe_dir @ ''/'' @ dir)
            in if r \<noteq> [] then r
               else case before_slash exe_dir of
                 Some up \<Rightarrow> (let r = try_dir (up @ ''/'' @ dir) in if r \<noteq> [] then r else [])
               | None \<Rightarrow> [])
         else [])"

text \<open>What is served is the given directory or the one of this name beside the executable or one level up, and it exists.\<close>

lemma resolve_static_dir_found:
  assumes "resolve_static_dir exe is_dir dir = r" "r \<noteq> []"
  shows "is_dir r \<and> (r = dir \<or> (\<not> is_dir dir \<or> dir = []) \<and> (\<exists>base. r = base @ ''/'' @ dir))"
  using assms by (auto simp: resolve_static_dir_def Let_def split: if_splits option.splits)

lemma resolve_static_dir_given: "is_dir dir \<Longrightarrow> dir \<noteq> [] \<Longrightarrow> resolve_static_dir exe is_dir dir = dir"
  by (simp add: resolve_static_dir_def)

text \<open>\<open>exists_file\<close>: whether \<open>fopen\<close> for reading succeeds.\<close>

definition is_pid_alive :: "(string \<Rightarrow> bool) \<Rightarrow> int \<Rightarrow> bool" where
  "is_pid_alive exists_file pid = (if pid \<le> 0 then False else exists_file (''/proc/'' @ fmt_d pid @ ''/stat''))"

section \<open>Threads\<close>

text \<open>
  The wrapper of a thread of the system. \<open>t_thread\<close> is the handle, 0 for none. The functions give the
  calls that are made on the handle; \<open>None\<close> is a moved-from object, which has no \<open>impl_\<close>.
\<close>

record Thread_Impl =
  t_thread :: nat
  t_joined :: bool
  t_detached :: bool

datatype pthread_call = Pthread_join nat | Pthread_detach nat

type_synonym Thread = "Thread_Impl option"

text \<open>\<open>created\<close>: the handle that \<open>pthread_create\<close> gave, if it succeeded.\<close>

definition Thread_init :: "nat option \<Rightarrow> Thread" where
  "Thread_init created = Some (case created of
     None \<Rightarrow> \<lparr>t_thread = 0, t_joined = True, t_detached = False\<rparr>
   | Some h \<Rightarrow> \<lparr>t_thread = h, t_joined = False, t_detached = False\<rparr>)"

definition Thread_joinable :: "Thread \<Rightarrow> bool" where
  "Thread_joinable t = (case t of None \<Rightarrow> False | Some i \<Rightarrow> \<not> t_joined i \<and> \<not> t_detached i)"

definition Thread_join :: "Thread \<Rightarrow> pthread_call list \<times> Thread" where
  "Thread_join t = (case t of None \<Rightarrow> ([], t) | Some i \<Rightarrow>
     if \<not> Thread_joinable t then ([], t)
     else if t_thread i \<noteq> 0 then ([Pthread_join (t_thread i)], Some (i\<lparr>t_thread := 0, t_joined := True\<rparr>))
     else ([], Some (i\<lparr>t_joined := True\<rparr>)))"

definition Thread_detach :: "Thread \<Rightarrow> pthread_call list \<times> Thread" where
  "Thread_detach t = (case t of None \<Rightarrow> ([], t) | Some i \<Rightarrow>
     if \<not> Thread_joinable t then ([], t)
     else if t_thread i \<noteq> 0 then ([Pthread_detach (t_thread i)], Some (i\<lparr>t_thread := 0, t_detached := True\<rparr>))
     else ([], Some (i\<lparr>t_detached := True\<rparr>)))"

text \<open>The destructor: the calls it makes.\<close>

definition Thread_destroy :: "Thread \<Rightarrow> pthread_call list" where
  "Thread_destroy t = (if Thread_joinable t then fst (Thread_join t) else [])"

text \<open>The move constructor gives the new object and what is left of the old one; the assignment also joins.\<close>

definition Thread_move :: "Thread \<Rightarrow> Thread \<times> Thread" where
  "Thread_move other = (other, None)"

definition Thread_assign :: "Thread \<Rightarrow> Thread \<Rightarrow> pthread_call list \<times> Thread \<times> Thread" where
  "Thread_assign this other = (if Thread_joinable this then fst (Thread_join this) else [], other, None)"

datatype thread_op = Join | Detach

primrec thread_life :: "thread_op list \<Rightarrow> Thread \<Rightarrow> pthread_call list" where
  "thread_life [] t = Thread_destroy t"
| "thread_life (c # cs) t = (case (case c of Join \<Rightarrow> Thread_join t | Detach \<Rightarrow> Thread_detach t) of
     (calls, t) \<Rightarrow> calls @ thread_life cs t)"

lemma thread_life_done: "\<not> Thread_joinable t \<Longrightarrow> thread_life cs t = []"
  by (induction cs)
    (auto simp: Thread_destroy_def Thread_join_def Thread_detach_def split: option.split thread_op.split)

text \<open>Whatever is called on it, a thread is given back to the system exactly once, by the first call or the destructor.\<close>

lemma thread_reclaimed_once:
  assumes "h \<noteq> 0"
  shows "thread_life cs (Thread_init (Some h)) =
    [case cs of Detach # _ \<Rightarrow> Pthread_detach h | _ \<Rightarrow> Pthread_join h]"
proof (cases cs)
  case Nil
  then show ?thesis using assms by (simp add: Thread_destroy_def Thread_join_def Thread_joinable_def Thread_init_def)
next
  case (Cons c cs')
  then show ?thesis using assms
    by (cases c) (auto simp: Thread_join_def Thread_detach_def Thread_joinable_def Thread_init_def intro!: thread_life_done)
qed

lemma thread_failed_unused: "thread_life cs (Thread_init None) = []"
  by (rule thread_life_done) (simp add: Thread_joinable_def Thread_init_def)

section \<open>The scoped lock\<close>

text \<open>
  \<open>UniqueLock\<close> on the mutex of one thread: \<open>True\<close> while the thread holds it. Locking a mutex that the thread
  holds blocks for ever and unlocking one that it does not hold is undefined; both are \<open>None\<close>.
\<close>

definition mutex_lock :: "bool \<Rightarrow> bool option" where
  "mutex_lock held = (if held then None else Some True)"

definition mutex_unlock :: "bool \<Rightarrow> bool option" where
  "mutex_unlock held = (if held then Some False else None)"

definition UniqueLock_init :: "bool \<Rightarrow> (bool \<times> bool) option" where
  "UniqueLock_init mutex = map_option (\<lambda>m. (True, m)) (mutex_lock mutex)"

definition UniqueLock_destroy :: "bool \<times> bool \<Rightarrow> bool option" where
  "UniqueLock_destroy om = (case om of (owns, mutex) \<Rightarrow> if owns then mutex_unlock mutex else Some mutex)"

definition UniqueLock_lock :: "bool \<times> bool \<Rightarrow> (bool \<times> bool) option" where
  "UniqueLock_lock om = (case om of (owns, mutex) \<Rightarrow>
     if \<not> owns then map_option (\<lambda>m. (True, m)) (mutex_lock mutex) else Some om)"

definition UniqueLock_unlock :: "bool \<times> bool \<Rightarrow> (bool \<times> bool) option" where
  "UniqueLock_unlock om = (case om of (owns, mutex) \<Rightarrow>
     if owns then map_option (\<lambda>m. (False, m)) (mutex_unlock mutex) else Some om)"

datatype lock_op = Lock | Unlock

primrec lock_scope :: "lock_op list \<Rightarrow> bool \<times> bool \<Rightarrow> bool option" where
  "lock_scope [] om = UniqueLock_destroy om"
| "lock_scope (c # cs) om = Option.bind (case c of Lock \<Rightarrow> UniqueLock_lock om | Unlock \<Rightarrow> UniqueLock_unlock om) (lock_scope cs)"

text \<open>Any calls between the constructor and the destructor neither block nor are undefined, and the mutex is free at the end.\<close>

lemma lock_scope_balanced: "Option.bind (UniqueLock_init False) (lock_scope cs) = Some False"
proof -
  have "lock_scope cs (owns, owns) = Some False" for owns
    by (induction cs arbitrary: owns)
      (auto simp: UniqueLock_destroy_def UniqueLock_lock_def UniqueLock_unlock_def mutex_lock_def mutex_unlock_def
        split: lock_op.split)
  then show ?thesis by (simp add: UniqueLock_init_def mutex_lock_def)
qed

section \<open>Waiting for a condition\<close>

text \<open>
  The two loops of \<open>ConditionVariable\<close> in \<open>include/utils/Platform.hpp\<close>. \<open>block\<close> is one inner wait, with what the
  other threads do meanwhile; in the second it also says whether there was a notification, rather than the time being
  over. \<open>None\<close> is a loop that does not end.
\<close>

partial_function (option) cv_wait :: "('s \<Rightarrow> bool) \<Rightarrow> ('s \<Rightarrow> 's) \<Rightarrow> 's \<Rightarrow> 's option" where
  "cv_wait pred block s = (if pred s then Some s else cv_wait pred block (block s))"

partial_function (option) cv_wait_for :: "('s \<Rightarrow> bool) \<Rightarrow> ('s \<Rightarrow> bool \<times> 's) \<Rightarrow> 's \<Rightarrow> (bool \<times> 's) option" where
  "cv_wait_for pred block s =
     (if pred s then Some (True, s)
      else case block s of (notified, s) \<Rightarrow> if notified then cv_wait_for pred block s else Some (pred s, s))"

text \<open>A wait returns exactly when the predicate holds after some number of wake-ups, and then it does hold.\<close>

lemma cv_wait_spec:
  assumes "cv_wait pred block s = Some s'"
  shows "pred s' \<and> (\<exists>k. s' = (block ^^ k) s)"
proof (rule cv_wait.raw_induct [OF _ assms, of "\<lambda>pred block s s'. pred s' \<and> (\<exists>k. s' = (block ^^ k) s)"])
  fix rec :: "('a \<Rightarrow> bool) \<Rightarrow> ('a \<Rightarrow> 'a) \<Rightarrow> 'a \<Rightarrow> 'a option" and pred block s s'
  assume IH: "\<And>pred block s s'. rec pred block s = Some s' \<Longrightarrow> pred s' \<and> (\<exists>k. s' = (block ^^ k) s)"
    and run: "(if pred s then Some s else rec pred block (block s)) = Some s'"
  show "pred s' \<and> (\<exists>k. s' = (block ^^ k) s)"
  proof (cases "pred s")
    case True
    then show ?thesis using run by (auto intro!: exI [of _ 0])
  next
    case False
    then obtain k where "pred s'" "s' = (block ^^ k) (block s)" using IH run by fastforce
    then show ?thesis by (auto simp: funpow_swap1 intro!: exI [of _ "Suc k"])
  qed
qed

lemma cv_wait_returns: "cv_wait pred block s \<noteq> None \<longleftrightarrow> (\<exists>k. pred ((block ^^ k) s))"
proof
  assume "\<exists>k. pred ((block ^^ k) s)"
  then obtain k where "pred ((block ^^ k) s)" ..
  then show "cv_wait pred block s \<noteq> None"
  proof (induction k arbitrary: s)
    case 0
    then show ?case by (subst cv_wait.simps) simp
  next
    case (Suc k)
    then have "cv_wait pred block (block s) \<noteq> None" by (simp add: funpow_swap1)
    then show ?case by (subst cv_wait.simps) auto
  qed
next
  assume "cv_wait pred block s \<noteq> None"
  then obtain s' where "cv_wait pred block s = Some s'" by blast
  from cv_wait_spec [OF this] show "\<exists>k. pred ((block ^^ k) s)" by auto
qed

text \<open>The result of the other loop is the value of the predicate at its end.\<close>

lemma cv_wait_for_result:
  assumes "cv_wait_for pred block s = Some r"
  shows "fst r = pred (snd r)"
proof (rule cv_wait_for.raw_induct [OF _ assms, of "\<lambda>pred block s r. fst r = pred (snd r)"])
  fix rec :: "('a \<Rightarrow> bool) \<Rightarrow> ('a \<Rightarrow> bool \<times> 'a) \<Rightarrow> 'a \<Rightarrow> (bool \<times> 'a) option" and pred block s r
  assume "\<And>pred block s r. rec pred block s = Some r \<Longrightarrow> fst r = pred (snd r)"
    and "(if pred s then Some (True, s)
      else case block s of (notified, s) \<Rightarrow> if notified then rec pred block s else Some (pred s, s)) = Some r"
  then show "fst r = pred (snd r)" by (auto split: if_splits prod.splits)
qed

section \<open>Property\<close>

text \<open>
  C23. Only one controller drives the heat pump: on an operating system that keeps file locks, when
  processes start without \<open>--force\<close> and end in any order, at most one of them has the instance lock,
  and while one has it every further start is refused and changes nothing for the others.
\<close>

theorem instance_lock_exclusive:
  assumes "flock_os os holder"
    and "(lock_step os)\<^sup>*\<^sup>* (\<lambda>p. lock_globals_init, n0) (G, n)" "g_lock_fd (G p) \<ge> 0"
  shows "(g_lock_fd (G q) \<ge> 0 \<longrightarrow> q = p) \<and>
    (\<exists>n'. acquire_instance_lock (os q) False (G q, n) = (False, G q, n') \<and> holder n' = holder n)"
proof -
  have inv: "flock_os.lock_inv holder (G, n)"
    using flock_os.lock_steps_inv [OF assms(1,2)] by (simp add: flock_os.lock_inv_def [OF assms(1)] lock_globals_init_def)
  have h: "holder n \<noteq> None" using inv assms(3) by (auto simp: flock_os.lock_inv_def [OF assms(1)])
  obtain b g' n' where a: "acquire_instance_lock (os q) False (G q, n) = (b, g', n')"
    by (cases "acquire_instance_lock (os q) False (G q, n)")
  show ?thesis
    using flock_os.lock_inv_unique [OF assms(1) inv assms(3)] flock_os.acquire_cases [OF assms(1) a] h a by auto
qed

theorem instance_lock_exclusive_witness:
  "\<exists>(G :: nat \<Rightarrow> lock_globals) n. g_lock_fd (G 7) \<ge> 0 \<and> (g_lock_fd (G 8) \<ge> 0 \<longrightarrow> (8 :: nat) = 7) \<and>
    (\<exists>n'. acquire_instance_lock (kernel_os 8) False (G 8, n) = (False, G 8, n') \<and> lf_holder n' = Some (7, 3))"
proof -
  let ?n = "\<lparr>lf_holder = None, lf_text = []\<rparr>" and ?g = "lock_globals_init\<lparr>g_lock_fd := 3\<rparr>"
  obtain n where n: "acquire_instance_lock (kernel_os 7) False (lock_globals_init, ?n) = (True, ?g, n)" "lf_holder n = Some (7, 3)"
    by (auto simp: acquire_instance_lock_def kernel_os_def Let_def)
  have "lock_step kernel_os (\<lambda>p. lock_globals_init, ?n) ((\<lambda>p. lock_globals_init)(7 := ?g), n)"
    using lock_step.starts [of kernel_os 7 "\<lambda>p. lock_globals_init" ?n] n(1) by simp
  then have "(lock_step kernel_os)\<^sup>*\<^sup>* (\<lambda>p. lock_globals_init, ?n) ((\<lambda>p. lock_globals_init)(7 := ?g), n)"
    by (rule r_into_rtranclp)
  from instance_lock_exclusive [OF kl.flock_os_axioms this, of 7 8] n(2) show ?thesis
    by (intro exI [of _ "(\<lambda>p. lock_globals_init)(7 := ?g)"] exI [of _ n]) simp
qed

end
