(* ===== verification/Serial_Port.thy ===== *)
theory Serial_Port
  imports Prelude "HOL-Library.Monad_Syntax"
begin

text \<open>
  The serial port of \<open>src/utils/Platform.cpp\<close> in its POSIX build: the class \<open>SerialPort\<close> and the
  C functions around it. The terminal calls of the operating system are the parameter \<open>os\<close> on a
  state \<open>'n\<close> of the line and whatever is connected to it; an integer result is negative on an
  error. Log output is left out.
\<close>

section \<open>The operating system\<close>

text \<open>The settings of a terminal that the code touches; \<open>cs8\<close> is the character size CS8.\<close>

record termios =
  cs8 :: bool
  cstopb :: bool
  parenb :: bool
  parodd :: bool
  crtscts :: bool
  ixon :: bool
  ixoff :: bool
  ixany :: bool
  vmin :: nat
  vtime :: nat
  speed :: nat

datatype read_result = Data "u8 list" | Interrupted | Failed

datatype tcflush_queue = TCIFLUSH | TCIOFLUSH

record 'n tty_os =
  os_open :: "string \<Rightarrow> 'n \<Rightarrow> int \<times> 'n"
  os_close :: "int \<Rightarrow> 'n \<Rightarrow> 'n"
  os_tcgetattr :: "int \<Rightarrow> 'n \<Rightarrow> termios option"
  os_cfmakeraw :: "termios \<Rightarrow> termios"
  os_cfsetspeed :: "nat \<Rightarrow> termios \<Rightarrow> termios option"
  os_tcsetattr :: "int \<Rightarrow> termios \<Rightarrow> 'n \<Rightarrow> bool \<times> 'n"
  os_blocking :: "int \<Rightarrow> 'n \<Rightarrow> 'n"
  os_tcflush :: "int \<Rightarrow> tcflush_queue \<Rightarrow> 'n \<Rightarrow> 'n"
  os_select :: "int \<Rightarrow> nat \<Rightarrow> 'n \<Rightarrow> int \<times> 'n"
  os_read :: "int \<Rightarrow> nat \<Rightarrow> 'n \<Rightarrow> read_result \<times> 'n"
  os_write :: "int \<Rightarrow> u8 list \<Rightarrow> 'n \<Rightarrow> int \<times> 'n"

section \<open>The class\<close>

record SerialPort =
  sp_fd :: int
  sp_open :: bool

definition SerialPort_init :: SerialPort where
  "SerialPort_init = \<lparr>sp_fd = - 1, sp_open = False\<rparr>"

definition SerialPort_close :: "'n tty_os \<Rightarrow> SerialPort \<times> 'n \<Rightarrow> SerialPort \<times> 'n" where
  "SerialPort_close os pn = (case pn of (p, n) \<Rightarrow>
     if sp_fd p \<ge> 0 then (\<lparr>sp_fd = - 1, sp_open = False\<rparr>, os_close os (sp_fd p) n)
     else (p\<lparr>sp_open := False\<rparr>, n))"

text \<open>The \<open>switch\<close> on the baud rate; \<open>None\<close> is its default branch.\<close>

definition baud_speed :: "int \<Rightarrow> nat option" where
  "baud_speed baud =
     (if baud = 9600 then Some 9600 else if baud = 19200 then Some 19200
      else if baud = 38400 then Some 38400 else if baud = 57600 then Some 57600
      else if baud = 115200 then Some 115200 else None)"

text \<open>Character size, stop bits and parity; \<open>None\<close> is the default branch of the \<open>switch\<close> on the parity.\<close>

definition frame_settings :: "char \<Rightarrow> int \<Rightarrow> termios \<Rightarrow> termios option" where
  "frame_settings parity stop_bits tty =
     (let tty = tty\<lparr>cs8 := True\<rparr>;
          tty = tty\<lparr>cstopb := stop_bits = 2\<rparr>;
          tty = tty\<lparr>parenb := False, parodd := False\<rparr>
      in if parity = CHR ''N'' then Some tty
         else if parity = CHR ''E'' then Some (tty\<lparr>parenb := True\<rparr>)
         else if parity = CHR ''O'' then Some (tty\<lparr>parenb := True, parodd := True\<rparr>)
         else None)"

definition line_settings :: "termios \<Rightarrow> termios" where
  "line_settings tty =
     tty\<lparr>crtscts := False, ixon := False, ixoff := False, ixany := False, vmin := 1, vtime := 0\<rparr>"

definition SerialPort_open ::
    "'n tty_os \<Rightarrow> string \<Rightarrow> int \<Rightarrow> char \<Rightarrow> int \<Rightarrow> bool \<Rightarrow> SerialPort \<times> 'n \<Rightarrow> bool \<times> SerialPort \<times> 'n" where
  "SerialPort_open os device baud parity stop_bits rs485 pn =
     (case SerialPort_close os pn of (p, n) \<Rightarrow>
      case os_open os device n of (fd, n) \<Rightarrow>
        let p = p\<lparr>sp_fd := fd\<rparr>
        in if fd < 0 then (False, p, n)
           else case os_tcgetattr os fd n of
             None \<Rightarrow> (False, SerialPort_close os (p, n))
           | Some tty \<Rightarrow> (case baud_speed baud of
               None \<Rightarrow> (False, SerialPort_close os (p, n))
             | Some sp \<Rightarrow> (case os_cfsetspeed os sp (os_cfmakeraw os tty) of
                 None \<Rightarrow> (False, SerialPort_close os (p, n))
               | Some tty \<Rightarrow> (case frame_settings parity stop_bits tty of
                   None \<Rightarrow> (False, SerialPort_close os (p, n))
                 | Some tty \<Rightarrow> (case os_tcsetattr os fd (line_settings tty) n of (done, n) \<Rightarrow>
                     if \<not> done then (False, SerialPort_close os (p, n))
                     else (True, p\<lparr>sp_open := True\<rparr>, os_tcflush os fd TCIOFLUSH (os_blocking os fd n)))))))"

definition SerialPort_isOpen :: "SerialPort \<Rightarrow> bool" where
  "SerialPort_isOpen p = sp_open p"

definition SerialPort_flush :: "'n tty_os \<Rightarrow> SerialPort \<Rightarrow> 'n \<Rightarrow> 'n" where
  "SerialPort_flush os p n = (if sp_fd p \<ge> 0 then os_tcflush os (sp_fd p) TCIFLUSH n else n)"

text \<open>\<open>read\<close>: the result of the call and the bytes it has put into the buffer.\<close>

definition SerialPort_read ::
    "'n tty_os \<Rightarrow> nat \<Rightarrow> nat \<Rightarrow> SerialPort \<Rightarrow> 'n \<Rightarrow> (int \<times> u8 list) \<times> 'n" where
  "SerialPort_read os len timeout_ms p n =
     (if \<not> sp_open p \<or> sp_fd p < 0 \<or> len = 0 then ((- 1, []), n)
      else case os_select os (sp_fd p) timeout_ms n of (r, n) \<Rightarrow>
        if r \<le> 0 then ((if r = 0 then 0 else - 1, []), n)
        else case os_read os (sp_fd p) len n of
          (Data bs, n) \<Rightarrow> ((int (length bs), bs), n)
        | (Interrupted, n) \<Rightarrow> ((0, []), n)
        | (Failed, n) \<Rightarrow> ((- 1, []), n))"

definition SerialPort_write :: "'n tty_os \<Rightarrow> u8 list \<Rightarrow> SerialPort \<Rightarrow> 'n \<Rightarrow> int \<times> 'n" where
  "SerialPort_write os buffer p n =
     (if \<not> sp_open p \<or> sp_fd p < 0 \<or> buffer = [] then (- 1, n)
      else case os_write os (sp_fd p) buffer n of (r, n) \<Rightarrow> (if r < 0 then - 1 else r, n))"

text \<open>The move operations: the new object, what is left of the old one, and the line.\<close>

definition SerialPort_move :: "SerialPort \<Rightarrow> SerialPort \<times> SerialPort" where
  "SerialPort_move o' = (o', \<lparr>sp_fd = - 1, sp_open = False\<rparr>)"

definition SerialPort_assign :: "'n tty_os \<Rightarrow> SerialPort \<Rightarrow> SerialPort \<Rightarrow> 'n \<Rightarrow> SerialPort \<times> SerialPort \<times> 'n" where
  "SerialPort_assign os this o' n =
     (case SerialPort_close os (this, n) of (_, n) \<Rightarrow> (o', \<lparr>sp_fd = - 1, sp_open = False\<rparr>, n))"

section \<open>The C functions\<close>

text \<open>A null pointer is \<open>None\<close>; \<open>delete\<close> closes the port once more.\<close>

definition windmi_serial_open ::
    "'n tty_os \<Rightarrow> string \<Rightarrow> int \<Rightarrow> char \<Rightarrow> int \<Rightarrow> bool \<Rightarrow> 'n \<Rightarrow> SerialPort option \<times> 'n" where
  "windmi_serial_open os device baud parity stop_bits rs485_enabled n =
     (case SerialPort_open os device baud parity stop_bits rs485_enabled (SerialPort_init, n) of
        (opened, p, n) \<Rightarrow> if opened then (Some p, n) else (None, snd (SerialPort_close os (p, n))))"

definition windmi_serial_close :: "'n tty_os \<Rightarrow> SerialPort option \<Rightarrow> 'n \<Rightarrow> 'n" where
  "windmi_serial_close os port n = (case port of None \<Rightarrow> n
     | Some p \<Rightarrow> snd (SerialPort_close os (SerialPort_close os (p, n))))"

definition windmi_serial_read ::
    "'n tty_os \<Rightarrow> nat \<Rightarrow> nat \<Rightarrow> SerialPort option \<Rightarrow> 'n \<Rightarrow> (int \<times> u8 list) \<times> 'n" where
  "windmi_serial_read os len timeout_ms port n = (case port of None \<Rightarrow> ((- 1, []), n)
     | Some p \<Rightarrow> SerialPort_read os len timeout_ms p n)"

definition windmi_serial_write :: "'n tty_os \<Rightarrow> u8 list \<Rightarrow> SerialPort option \<Rightarrow> 'n \<Rightarrow> int \<times> 'n" where
  "windmi_serial_write os buffer port n = (case port of None \<Rightarrow> (- 1, n)
     | Some p \<Rightarrow> SerialPort_write os buffer p n)"

definition windmi_serial_flush :: "'n tty_os \<Rightarrow> SerialPort option \<Rightarrow> 'n \<Rightarrow> 'n" where
  "windmi_serial_flush os port n = (case port of None \<Rightarrow> n | Some p \<Rightarrow> SerialPort_flush os p n)"

section \<open>Invariant of the object\<close>

text \<open>An open port has a descriptor, and a closed one holds none: nothing is left to close.\<close>

definition port_inv :: "SerialPort \<Rightarrow> bool" where
  "port_inv p \<longleftrightarrow> (sp_open p \<longleftrightarrow> sp_fd p \<ge> 0)"

lemma port_inv_init: "port_inv SerialPort_init"
  by (simp add: port_inv_def SerialPort_init_def)

lemma SerialPort_close_fst:
  "port_inv p \<Longrightarrow> \<not> sp_open (fst (SerialPort_close os (p, n))) \<and> sp_fd (fst (SerialPort_close os (p, n))) < 0"
  by (auto simp: SerialPort_close_def port_inv_def)

lemma close_holds_none: "fst (SerialPort_close os (p, n)) = p' \<Longrightarrow> port_inv p' \<and> \<not> sp_open p'"
  by (auto simp: SerialPort_close_def port_inv_def split: if_splits)

lemma SerialPort_open_cases:
  assumes "SerialPort_open os device baud parity stop_bits rs485 (p, n) = (b, p', n')"
  shows "port_inv p' \<and> sp_open p' = b"
proof -
  obtain p1 n1 where c: "SerialPort_close os (p, n) = (p1, n1)" by (cases "SerialPort_close os (p, n)")
  have p1: "\<not> sp_open p1" using close_holds_none [of os p n p1] c by simp
  obtain fd n2 where o: "os_open os device n1 = (fd, n2)" by (cases "os_open os device n1")
  note run = assms [unfolded SerialPort_open_def c prod.case o Let_def]
  have closed: "port_inv q \<and> \<not> sp_open q" if "SerialPort_close os x = (q, m)" for x q m
    using that close_holds_none [of os "fst x" "snd x" q] by simp
  show ?thesis
  proof (cases "b")
    case False
    with run p1 show ?thesis
      by (auto simp: port_inv_def dest!: closed split: if_splits option.splits prod.splits)
  next
    case True
    with run show ?thesis
      by (auto simp: port_inv_def split: if_splits option.splits prod.splits)
  qed
qed

end
