(* ===== verification/Platform_Windows.thy ===== *)
theory Platform_Windows
  imports Platform_Services Serial_Port
begin

text \<open>
  The Windows branches of \<open>src/utils/Platform.cpp\<close>: the instance lock, the console handler, the
  directories, the wrapper of threads and the serial port, with the calls of the system as parameters,
  and how they compare with the POSIX branches. A handle is a number; \<open>None\<close> is a null handle.
\<close>

section \<open>The instance lock\<close>

text \<open>
  The calls of one process: \<open>CreateFileA\<close> (\<open>None\<close> is \<open>INVALID_HANDLE_VALUE\<close>), \<open>CreateMutexA\<close> (the handle, and
  whether the last error is \<open>ERROR_ALREADY_EXISTS\<close>), \<open>CloseHandle\<close>, \<open>_open_osfhandle\<close>, \<open>_close\<close>, and the
  directory for temporary files.
\<close>

record 'n win_os =
  wi_CreateFileA :: "string \<Rightarrow> 'n \<Rightarrow> nat option \<times> 'n"
  wi_CreateMutexA :: "string \<Rightarrow> 'n \<Rightarrow> (nat \<times> bool) option \<times> 'n"
  wi_CloseHandle :: "nat \<Rightarrow> 'n \<Rightarrow> 'n"
  wi_open_osfhandle :: "nat \<Rightarrow> 'n \<Rightarrow> int \<times> 'n"
  wi_close :: "int \<Rightarrow> 'n \<Rightarrow> 'n"
  wi_GetTempPathA :: string

record win_lock = lock_globals +
  g_lock_handle :: "nat option"

definition win_lock_init :: win_lock where
  "win_lock_init = \<lparr>g_lock_name_override = None, g_lock_fd = - 1, g_lock_handle = None\<rparr>"

definition win_lock_path :: "'n win_os \<Rightarrow> win_lock \<Rightarrow> string" where
  "win_lock_path os g =
     (let lock_path = get_lock_path (lock_globals.truncate g)
      in if take 5 lock_path = ''/tmp/'' then wi_GetTempPathA os @ ''windmi-controller.lock'' else lock_path)"

definition win_mutex_name :: string where
  "win_mutex_name = ''Global'' @ [CHR 0x5C] @ ''windmi_controller_lock''"

definition win_acquire_instance_lock :: "'n win_os \<Rightarrow> bool \<Rightarrow> win_lock \<times> 'n \<Rightarrow> bool \<times> win_lock \<times> 'n" where
  "win_acquire_instance_lock os force gn = (case gn of (g, n) \<Rightarrow>
     case wi_CreateFileA os (win_lock_path os g) n of
       (None, n) \<Rightarrow> (False, g, n)
     | (Some hFile, n) \<Rightarrow> (case wi_CreateMutexA os win_mutex_name n of
           (None, n) \<Rightarrow> (False, g, wi_CloseHandle os hFile n)
         | (Some (hMutex, already_exists), n) \<Rightarrow>
             if already_exists \<and> \<not> force then (False, g, wi_CloseHandle os hFile (wi_CloseHandle os hMutex n))
             else case wi_open_osfhandle os hFile n of
               (fd, n) \<Rightarrow> (True, g\<lparr>g_lock_fd := fd, g_lock_handle := Some hMutex\<rparr>, n)))"

definition win_release_instance_lock :: "'n win_os \<Rightarrow> win_lock \<times> 'n \<Rightarrow> win_lock \<times> 'n" where
  "win_release_instance_lock os gn = (case gn of (g, n) \<Rightarrow>
     let (g, n) = (case g_lock_handle g of
                     Some h \<Rightarrow> (g\<lparr>g_lock_handle := None\<rparr>, wi_CloseHandle os h n) | None \<Rightarrow> (g, n))
     in if g_lock_fd g \<ge> 0 then (g\<lparr>g_lock_fd := - 1\<rparr>, wi_close os (g_lock_fd g) n) else (g, n))"

text \<open>
  What the program relies on of Windows, for processes \<open>p\<close> with calls \<open>os p\<close>: \<open>handles\<close> are the open
  handles of the named mutex, each with its process. Creating the mutex opens a handle and says whether there
  was one before; closing closes only this one; a new handle of a file is not one of them.
\<close>

locale named_mutex =
  fixes os :: "nat \<Rightarrow> 'n win_os"
    and handles :: "'n \<Rightarrow> (nat \<times> nat) set"
  assumes create_file: "wi_CreateFileA (os p) path n = (r, n') \<Longrightarrow> handles n' = handles n \<and> (\<forall>h. r = Some h \<longrightarrow> (p, h) \<notin> handles n)"
    and create_mutex: "wi_CreateMutexA (os p) win_mutex_name n = (Some (h, ex), n') \<Longrightarrow>
      (p, h) \<notin> handles n \<and> handles n' = insert (p, h) (handles n) \<and> (ex \<longleftrightarrow> handles n \<noteq> {})"
    and create_fails: "wi_CreateMutexA (os p) win_mutex_name n = (None, n') \<Longrightarrow> handles n' = handles n"
    and close_handle: "handles (wi_CloseHandle (os p) h n) = handles n - {(p, h)}"
    and osfhandle: "handles (snd (wi_open_osfhandle (os p) h n)) = handles n"
    and close_fd: "handles (wi_close (os p) fd n) = handles n"
begin

definition win_lock_inv :: "(nat \<Rightarrow> win_lock) \<times> 'n \<Rightarrow> bool" where
  "win_lock_inv w \<longleftrightarrow> (\<forall>p h. g_lock_handle (fst w p) = Some h \<longrightarrow> handles (snd w) = {(p, h)})"

lemma win_acquire_cases:
  assumes "win_acquire_instance_lock (os p) False (g, n) = (b, g', n')"
  shows "(b \<and> handles n = {} \<and> (\<exists>h. g_lock_handle g' = Some h \<and> handles n' = {(p, h)})) \<or>
         (\<not> b \<and> g' = g \<and> handles n' = handles n)"
proof -
  obtain f n1 where f: "wi_CreateFileA (os p) (win_lock_path (os p) g) n = (f, n1)"
    by (cases "wi_CreateFileA (os p) (win_lock_path (os p) g) n")
  obtain m n2 where m: "wi_CreateMutexA (os p) win_mutex_name n1 = (m, n2)" by (cases "wi_CreateMutexA (os p) win_mutex_name n1")
  note h = create_file [OF f]
  show ?thesis
  proof (cases f)
    case None
    then show ?thesis using assms f h by (auto simp: win_acquire_instance_lock_def)
  next
    case (Some hFile)
    show ?thesis
    proof (cases m)
      case None
      then show ?thesis using assms f m Some h create_fails [of p n1 n2]
        by (auto simp: win_acquire_instance_lock_def close_handle)
    next
      fix x
      assume "m = Some x"
      then obtain hM ex where x: "m = Some (hM, ex)" by (cases x) auto
      obtain fd n3 where o: "wi_open_osfhandle (os p) hFile n2 = (fd, n3)" by (cases "wi_open_osfhandle (os p) hFile n2")
      have "handles n3 = handles n2" using osfhandle [of p hFile n2] o by simp
      then show ?thesis using assms f m x o Some h create_mutex [of p n1 hM ex n2]
        by (auto simp: win_acquire_instance_lock_def close_handle split: if_splits)
    qed
  qed
qed

lemma win_acquire_inv:
  assumes "win_lock_inv (G, n)" "win_acquire_instance_lock (os p) False (G p, n) = (b, g', n')"
  shows "win_lock_inv (G(p := g'), n')"
  using win_acquire_cases [OF assms(2)] assms(1) by (auto simp: win_lock_inv_def)

lemma win_lock_unique:
  assumes "win_lock_inv (G, n)" "g_lock_handle (G p) = Some h" "g_lock_handle (G q) = Some h'"
  shows "p = q"
proof -
  have "{(p, h)} = {(q, h')}" using assms unfolding win_lock_inv_def by (metis fst_conv snd_conv)
  then show ?thesis by simp
qed

lemma win_release_inv:
  assumes "win_lock_inv (G, n)" "win_release_instance_lock (os p) (G p, n) = (g', n')"
  shows "win_lock_inv (G(p := g'), n')"
  using assms win_lock_unique [OF assms(1)]
  by (fastforce simp: win_lock_inv_def win_release_instance_lock_def Let_def close_handle close_fd split: option.splits if_splits)

end

inductive win_lock_step :: "(nat \<Rightarrow> 'n win_os) \<Rightarrow> (nat \<Rightarrow> win_lock) \<times> 'n \<Rightarrow> (nat \<Rightarrow> win_lock) \<times> 'n \<Rightarrow> bool" for os where
  starts: "win_acquire_instance_lock (os p) False (G p, n) = (b, g', n') \<Longrightarrow> win_lock_step os (G, n) (G(p := g'), n')"
| ends: "win_release_instance_lock (os p) (G p, n) = (g', n') \<Longrightarrow> win_lock_step os (G, n) (G(p := g'), n')"

context named_mutex
begin

lemma win_lock_steps_inv: "(win_lock_step os)\<^sup>*\<^sup>* w w' \<Longrightarrow> win_lock_inv w \<Longrightarrow> win_lock_inv w'"
proof (induction rule: rtranclp_induct)
  case (step y z)
  from step(2) step.IH [OF step.prems] show ?case
    by (induction rule: win_lock_step.induct) (auto dest: win_acquire_inv win_release_inv)
qed

end

text \<open>A system with this one named mutex, which gives out handles above those in use.\<close>

type_synonym win_handles = "(nat \<times> nat) list"

definition fresh_handle :: "win_handles \<Rightarrow> nat" where
  "fresh_handle n = Suc (sum_list (map snd n))"

definition kernel_win :: "nat \<Rightarrow> win_handles win_os" where
  "kernel_win p =
     \<lparr>wi_CreateFileA = (\<lambda>path n. (Some (Suc (fresh_handle n)), n)),
      wi_CreateMutexA = (\<lambda>name n. (Some (fresh_handle n, n \<noteq> []), (p, fresh_handle n) # n)),
      wi_CloseHandle = (\<lambda>h n. removeAll (p, h) n),
      wi_open_osfhandle = (\<lambda>h n. (3, n)), wi_close = (\<lambda>fd n. n), wi_GetTempPathA = ''C:/Temp/''\<rparr>"

lemma fresh_handle_unused: "(q, h) \<in> set n \<Longrightarrow> h < fresh_handle n"
  using member_le_sum_list [of h "map snd n"] by (force simp: fresh_handle_def)

interpretation kw: named_mutex kernel_win set
  by unfold_locales (auto simp: kernel_win_def dest: fresh_handle_unused)

section \<open>Console events\<close>

datatype console_event =
  CTRL_C_EVENT | CTRL_BREAK_EVENT | CTRL_CLOSE_EVENT | CTRL_LOGOFF_EVENT | CTRL_SHUTDOWN_EVENT | Other_event nat

text \<open>The handler: whether it has handled the event, and the state.\<close>

definition console_control_handler :: "console_event \<Rightarrow> signal_state \<Rightarrow> bool \<times> signal_state" where
  "console_control_handler ev g = (case ev of
     Other_event k \<Rightarrow> (False, g)
   | _ \<Rightarrow> (True, if g_running_flag_ptr g then g\<lparr>g_running := 0\<rparr> else g))"

text \<open>A failure of \<open>SetConsoleCtrlHandler\<close> is only logged.\<close>

definition win_install_signal_handlers :: "bool \<Rightarrow> signal_state \<Rightarrow> signal_state" where
  "win_install_signal_handlers running_flag g =
     (let g = g\<lparr>g_running_flag_ptr := running_flag\<rparr> in if running_flag then g\<lparr>g_running := 1\<rparr> else g)"

text \<open>After a start with the flag, the loop runs until one of the five events, and then stops.\<close>

lemma console_events_stop_the_loop:
  "g_running (fold (\<lambda>ev g. snd (console_control_handler ev g)) evs (win_install_signal_handlers True g)) =
     (if \<exists>ev \<in> set evs. \<forall>k. ev \<noteq> Other_event k then 0 else 1)"
proof -
  have "g_running (fold (\<lambda>ev g. snd (console_control_handler ev g)) evs u) =
      (if \<exists>ev \<in> set evs. \<forall>k. ev \<noteq> Other_event k then 0 else g_running u)" if "g_running_flag_ptr u" for u :: signal_state
    using that
  proof (induction evs arbitrary: u)
    case (Cons ev evs)
    then have "g_running_flag_ptr (snd (console_control_handler ev u))"
      by (simp add: console_control_handler_def split: console_event.split)
    from Cons.IH [OF this] Cons.prems show ?case by (cases ev) (auto simp: console_control_handler_def)
  qed simp
  then show ?thesis by (simp add: win_install_signal_handlers_def)
qed

section \<open>Processes, directories and sleeping\<close>

text \<open>\<open>OpenProcess\<close>, and \<open>GetExitCodeProcess\<close> of the handle; 259 is \<open>STILL_ACTIVE\<close>.\<close>

definition win_is_pid_alive :: "(int \<Rightarrow> nat option) \<Rightarrow> (nat \<Rightarrow> nat option) \<Rightarrow> int \<Rightarrow> bool" where
  "win_is_pid_alive open_process exit_code pid =
     (case open_process pid of None \<Rightarrow> False | Some process \<Rightarrow> exit_code process = Some 259)"

definition win_get_home_dir :: "string option \<Rightarrow> string" where
  "win_get_home_dir USERPROFILE = (case USERPROFILE of Some home \<Rightarrow> home | None \<Rightarrow> [])"

definition before_backslash :: "string \<Rightarrow> string option" where
  "before_backslash s = (if CHR 0x5C \<in> set s then Some (rev (tl (dropWhile (\<lambda>c. c \<noteq> CHR 0x5C) (rev s)))) else None)"

definition win_resolve_static_dir :: "string option \<Rightarrow> (string \<Rightarrow> bool) \<Rightarrow> string \<Rightarrow> string" where
  "win_resolve_static_dir exe is_dir dir =
     (let exe_dir = (case exe of None \<Rightarrow> [] | Some p \<Rightarrow> (case before_backslash p of None \<Rightarrow> [] | Some d \<Rightarrow> d));
          try_dir = (\<lambda>d. if is_dir d then d else []);
          r = try_dir dir
      in if r \<noteq> [] then r
         else if exe_dir \<noteq> [] then
           (let r = try_dir (exe_dir @ [CHR 0x5C] @ dir)
            in if r \<noteq> [] then r
               else case before_backslash exe_dir of
                 Some up \<Rightarrow> (let r = try_dir (up @ [CHR 0x5C] @ dir) in if r \<noteq> [] then r else [])
               | None \<Rightarrow> [])
         else [])"

lemma win_resolve_static_dir_found:
  assumes "win_resolve_static_dir exe is_dir dir = r" "r \<noteq> []"
  shows "is_dir r \<and> (r = dir \<or> (\<not> is_dir dir \<or> dir = []) \<and> (\<exists>base. r = base @ [CHR 0x5C] @ dir))"
  using assms by (auto simp: win_resolve_static_dir_def Let_def split: if_splits option.splits)

text \<open>\<open>Sleep\<close> takes the milliseconds themselves.\<close>

definition win_sleep_ms :: "u32 \<Rightarrow> u32" where
  "win_sleep_ms ms = ms"

section \<open>Threads\<close>

text \<open>The wrapper, with the calls it makes on the handle of the thread.\<close>

record WinThread_Impl =
  wt_handle :: "nat option"
  wt_joined :: bool
  wt_detached :: bool

datatype win_thread_call = Wait_for nat | Close_thread nat

type_synonym WinThread = "WinThread_Impl option"

definition WinThread_init :: "nat option \<Rightarrow> WinThread" where
  "WinThread_init created = Some (case created of
     None \<Rightarrow> \<lparr>wt_handle = None, wt_joined = True, wt_detached = False\<rparr>
   | Some h \<Rightarrow> \<lparr>wt_handle = Some h, wt_joined = False, wt_detached = False\<rparr>)"

definition WinThread_joinable :: "WinThread \<Rightarrow> bool" where
  "WinThread_joinable t = (case t of None \<Rightarrow> False | Some i \<Rightarrow> \<not> wt_joined i \<and> \<not> wt_detached i)"

definition WinThread_join :: "WinThread \<Rightarrow> win_thread_call list \<times> WinThread" where
  "WinThread_join t = (case t of None \<Rightarrow> ([], t) | Some i \<Rightarrow>
     if \<not> WinThread_joinable t then ([], t)
     else case wt_handle i of
         Some h \<Rightarrow> ([Wait_for h, Close_thread h], Some (i\<lparr>wt_handle := None, wt_joined := True\<rparr>))
       | None \<Rightarrow> ([], Some (i\<lparr>wt_joined := True\<rparr>)))"

definition WinThread_detach :: "WinThread \<Rightarrow> win_thread_call list \<times> WinThread" where
  "WinThread_detach t = (case t of None \<Rightarrow> ([], t) | Some i \<Rightarrow>
     if \<not> WinThread_joinable t then ([], t)
     else case wt_handle i of
         Some h \<Rightarrow> ([Close_thread h], Some (i\<lparr>wt_handle := None, wt_detached := True\<rparr>))
       | None \<Rightarrow> ([], Some (i\<lparr>wt_detached := True\<rparr>)))"

definition WinThread_destroy :: "WinThread \<Rightarrow> win_thread_call list" where
  "WinThread_destroy t = (if WinThread_joinable t then fst (WinThread_join t) else [])"

text \<open>The assignment closes a handle that is still there.\<close>

definition WinThread_assign :: "WinThread \<Rightarrow> WinThread \<Rightarrow> win_thread_call list \<times> WinThread \<times> WinThread" where
  "WinThread_assign this other =
     (let (calls, this) = (if WinThread_joinable this then WinThread_join this else ([], this))
      in (calls @ (case this of None \<Rightarrow> [] | Some i \<Rightarrow> (case wt_handle i of Some h \<Rightarrow> [Close_thread h] | None \<Rightarrow> [])), other, None))"

primrec win_thread_life :: "thread_op list \<Rightarrow> WinThread \<Rightarrow> win_thread_call list" where
  "win_thread_life [] t = WinThread_destroy t"
| "win_thread_life (c # cs) t = (case (case c of Join \<Rightarrow> WinThread_join t | Detach \<Rightarrow> WinThread_detach t) of
     (calls, t) \<Rightarrow> calls @ win_thread_life cs t)"

lemma win_thread_life_done: "\<not> WinThread_joinable t \<Longrightarrow> win_thread_life cs t = []"
  by (induction cs)
    (auto simp: WinThread_destroy_def WinThread_join_def WinThread_detach_def split: option.split thread_op.split)

text \<open>The handle is closed exactly once, after the thread has ended unless it was detached.\<close>

lemma win_thread_closed_once:
  "win_thread_life cs (WinThread_init (Some h)) =
     (case cs of Detach # _ \<Rightarrow> [Close_thread h] | _ \<Rightarrow> [Wait_for h, Close_thread h])"
proof (cases cs)
  case Nil
  then show ?thesis by (simp add: WinThread_destroy_def WinThread_join_def WinThread_joinable_def WinThread_init_def)
next
  case (Cons c cs')
  then show ?thesis
    by (cases c) (auto simp: WinThread_join_def WinThread_detach_def WinThread_joinable_def WinThread_init_def
        intro!: win_thread_life_done)
qed

section \<open>The serial port\<close>

datatype win_parity = NOPARITY | EVENPARITY | ODDPARITY

record dcb =
  BaudRate :: nat
  ByteSize :: nat
  two_stop_bits :: bool
  dcb_parity :: win_parity
  fParity :: bool
  fOutxCtsFlow :: bool
  rts_enabled :: bool
  fOutxDsrFlow :: bool
  dtr_enabled :: bool
  fOutX :: bool
  fInX :: bool

record comm_timeouts =
  ReadIntervalTimeout :: nat
  ReadTotalTimeoutConstant :: nat
  ReadTotalTimeoutMultiplier :: nat
  WriteTotalTimeoutConstant :: nat
  WriteTotalTimeoutMultiplier :: nat

text \<open>\<open>co_wide\<close> is the conversion of the name from UTF-8, if it succeeds.\<close>

record 'n comm_os =
  co_wide :: "string \<Rightarrow> string option"
  co_CreateFileW :: "string \<Rightarrow> 'n \<Rightarrow> nat option \<times> 'n"
  co_CloseHandle :: "nat \<Rightarrow> 'n \<Rightarrow> 'n"
  co_FlushFileBuffers :: "nat \<Rightarrow> 'n \<Rightarrow> 'n"
  co_SetCommTimeouts :: "nat \<Rightarrow> comm_timeouts \<Rightarrow> 'n \<Rightarrow> 'n"
  co_GetCommState :: "nat \<Rightarrow> 'n \<Rightarrow> dcb option"
  co_SetCommState :: "nat \<Rightarrow> dcb \<Rightarrow> 'n \<Rightarrow> bool \<times> 'n"
  co_ReadFile :: "nat \<Rightarrow> nat \<Rightarrow> 'n \<Rightarrow> u8 list option \<times> 'n"
  co_WriteFile :: "nat \<Rightarrow> u8 list \<Rightarrow> 'n \<Rightarrow> nat option \<times> 'n"

record WinSerialPort =
  wp_handle :: "nat option"
  wp_rs485_enabled :: bool
  wp_open :: bool

definition WinSerialPort_init :: WinSerialPort where
  "WinSerialPort_init = \<lparr>wp_handle = None, wp_rs485_enabled = False, wp_open = False\<rparr>"

definition WinSerialPort_close :: "'n comm_os \<Rightarrow> WinSerialPort \<times> 'n \<Rightarrow> WinSerialPort \<times> 'n" where
  "WinSerialPort_close os pn = (case pn of (p, n) \<Rightarrow>
     (p\<lparr>wp_handle := None, wp_open := False\<rparr>,
      case wp_handle p of None \<Rightarrow> n | Some h \<Rightarrow> co_CloseHandle os h (co_FlushFileBuffers os h n)))"

text \<open>Names of ports from \<open>COM10\<close> on need a prefix; \<open>stoi\<close> that throws leaves the name.\<close>

definition com_name :: "'n comm_os \<Rightarrow> string \<Rightarrow> string" where
  "com_name os device =
     (let wdev = (if device \<noteq> [] then (case co_wide os device of Some w \<Rightarrow> w | None \<Rightarrow> []) else [])
      in if length device \<ge> 4 \<and> map lower (take 3 device) = ''com'' then
           (case stoi (drop 3 device) of
              Some pn \<Rightarrow> if pn \<ge> 10 then [CHR 0x5C, CHR 0x5C, CHR ''.'', CHR 0x5C] @ ''COM'' @ to_string pn else wdev
            | None \<Rightarrow> wdev)
         else wdev)"

definition open_timeouts :: comm_timeouts where
  "open_timeouts = \<lparr>ReadIntervalTimeout = 100, ReadTotalTimeoutConstant = 1000, ReadTotalTimeoutMultiplier = 10,
     WriteTotalTimeoutConstant = 1000, WriteTotalTimeoutMultiplier = 10\<rparr>"

text \<open>The two \<open>switch\<close> statements and the settings between and after them; \<open>None\<close> is a default branch.\<close>

definition dcb_settings :: "int \<Rightarrow> char \<Rightarrow> int \<Rightarrow> dcb \<Rightarrow> dcb option" where
  "dcb_settings baud parity stop_bits d = do {
     rate \<leftarrow> (if baud = 9600 then Some 9600 else if baud = 19200 then Some 19200
       else if baud = 38400 then Some 38400 else if baud = 57600 then Some 57600
       else if baud = 115200 then Some 115200 else None);
     let d = d\<lparr>BaudRate := rate, ByteSize := 8, two_stop_bits := stop_bits = 2\<rparr>
     in do {
       d \<leftarrow> (if parity = CHR ''N'' then Some (d\<lparr>dcb_parity := NOPARITY, fParity := False\<rparr>)
         else if parity = CHR ''E'' then Some (d\<lparr>dcb_parity := EVENPARITY, fParity := True\<rparr>)
         else if parity = CHR ''O'' then Some (d\<lparr>dcb_parity := ODDPARITY, fParity := True\<rparr>)
         else None);
       Some (d\<lparr>fOutxCtsFlow := False, rts_enabled := False, fOutxDsrFlow := False, dtr_enabled := False,
               fOutX := False, fInX := False\<rparr>) } }"

definition WinSerialPort_open ::
    "'n comm_os \<Rightarrow> string \<Rightarrow> int \<Rightarrow> char \<Rightarrow> int \<Rightarrow> bool \<Rightarrow> WinSerialPort \<times> 'n \<Rightarrow> bool \<times> WinSerialPort \<times> 'n" where
  "WinSerialPort_open os device baud parity stop_bits rs485 pn =
     (case WinSerialPort_close os pn of (p, n) \<Rightarrow>
      case co_CreateFileW os (com_name os device) n of
        (None, n) \<Rightarrow> (False, p\<lparr>wp_handle := None\<rparr>, n)
      | (Some h, n) \<Rightarrow>
          let p = p\<lparr>wp_handle := Some h\<rparr>;
              n = co_SetCommTimeouts os h open_timeouts n
          in case co_GetCommState os h n of
            None \<Rightarrow> (False, WinSerialPort_close os (p, n))
          | Some d \<Rightarrow> (case dcb_settings baud parity stop_bits d of
              None \<Rightarrow> (False, WinSerialPort_close os (p, n))
            | Some d \<Rightarrow> (case co_SetCommState os h d n of (done, n) \<Rightarrow>
                if \<not> done then (False, WinSerialPort_close os (p, n))
                else (True, p\<lparr>wp_rs485_enabled := rs485, wp_open := True\<rparr>, n))))"

definition WinSerialPort_flush :: "'n comm_os \<Rightarrow> WinSerialPort \<Rightarrow> 'n \<Rightarrow> 'n" where
  "WinSerialPort_flush os p n = (case wp_handle p of None \<Rightarrow> n | Some h \<Rightarrow> co_FlushFileBuffers os h n)"

definition WinSerialPort_read ::
    "'n comm_os \<Rightarrow> nat \<Rightarrow> nat \<Rightarrow> WinSerialPort \<Rightarrow> 'n \<Rightarrow> (int \<times> u8 list) \<times> 'n" where
  "WinSerialPort_read os len timeout_ms p n =
     (case wp_handle p of
        Some h \<Rightarrow>
          if \<not> wp_open p \<or> len = 0 then ((- 1, []), n)
          else let to = \<lparr>ReadIntervalTimeout = 100, ReadTotalTimeoutConstant = timeout_ms, ReadTotalTimeoutMultiplier = 0,
                         WriteTotalTimeoutConstant = 0, WriteTotalTimeoutMultiplier = 0\<rparr>
               in (case co_ReadFile os h len (co_SetCommTimeouts os h to n) of
                     (None, n) \<Rightarrow> ((- 1, []), n)
                   | (Some bs, n) \<Rightarrow> ((int (length bs), bs), n))
      | None \<Rightarrow> ((- 1, []), n))"

definition WinSerialPort_write :: "'n comm_os \<Rightarrow> u8 list \<Rightarrow> WinSerialPort \<Rightarrow> 'n \<Rightarrow> int \<times> 'n" where
  "WinSerialPort_write os buffer p n =
     (case wp_handle p of
        Some h \<Rightarrow>
          if \<not> wp_open p \<or> buffer = [] then (- 1, n)
          else (case co_WriteFile os h buffer n of (None, n) \<Rightarrow> (- 1, n) | (Some bw, n) \<Rightarrow> (int bw, n))
      | None \<Rightarrow> (- 1, n))"

text \<open>The move operations: the new object, what is left of the old one, and the line.\<close>

definition WinSerialPort_move :: "WinSerialPort \<Rightarrow> WinSerialPort \<times> WinSerialPort" where
  "WinSerialPort_move o' = (o', o'\<lparr>wp_handle := None, wp_open := False\<rparr>)"

definition WinSerialPort_assign :: "'n comm_os \<Rightarrow> WinSerialPort \<Rightarrow> WinSerialPort \<Rightarrow> 'n \<Rightarrow> WinSerialPort \<times> WinSerialPort \<times> 'n" where
  "WinSerialPort_assign os this o' n =
     (case WinSerialPort_close os (this, n) of (_, n) \<Rightarrow> (o', o'\<lparr>wp_handle := None, wp_open := False\<rparr>, n))"

section \<open>The same line in both builds\<close>

text \<open>Speed, second stop bit and parity of a line with eight data bits and no flow control.\<close>

definition tty_format :: "termios \<Rightarrow> (nat \<times> bool \<times> win_parity) option" where
  "tty_format t =
     (if cs8 t \<and> \<not> crtscts t \<and> \<not> ixon t \<and> \<not> ixoff t
      then Some (speed t, cstopb t, if \<not> parenb t then NOPARITY else if parodd t then ODDPARITY else EVENPARITY) else None)"

definition dcb_format :: "dcb \<Rightarrow> (nat \<times> bool \<times> win_parity) option" where
  "dcb_format d =
     (if ByteSize d = 8 \<and> \<not> fOutxCtsFlow d \<and> \<not> fOutxDsrFlow d \<and> \<not> fOutX d \<and> \<not> fInX d \<and> (fParity d \<longleftrightarrow> dcb_parity d \<noteq> NOPARITY)
      then Some (BaudRate d, two_stop_bits d, dcb_parity d) else None)"

text \<open>Systems on which every call succeeds, and what is then set on the line.\<close>

locale tty_line =
  fixes os :: "'n tty_os" and settings :: "'n \<Rightarrow> termios option"
  assumes tty_opens: "0 \<le> fst (os_open os device n)"
    and tty_attributes: "os_tcgetattr os fd n \<noteq> None"
    and tty_speed: "\<exists>t'. os_cfsetspeed os sp t = Some t' \<and> speed t' = sp"
    and tty_set: "fst (os_tcsetattr os fd t n) \<and> settings (snd (os_tcsetattr os fd t n)) = Some t"
    and tty_keeps: "settings (os_blocking os fd n) = settings n" "settings (os_tcflush os fd q n) = settings n"
begin

lemma tty_open_format:
  assumes "SerialPort_open os device baud parity stop_bits rs485 (p, n) = (b, p', n')"
  shows "b = (baud_speed baud \<noteq> None \<and> parity \<in> {CHR ''N'', CHR ''E'', CHR ''O''}) \<and>
    (b \<longrightarrow> (\<exists>t. settings n' = Some t \<and> tty_format t = Some (the (baud_speed baud), stop_bits = 2,
       if parity = CHR ''N'' then NOPARITY else if parity = CHR ''O'' then ODDPARITY else EVENPARITY)))"
proof -
  obtain p1 n1 where c: "SerialPort_close os (p, n) = (p1, n1)" by (cases "SerialPort_close os (p, n)")
  obtain fd n2 where o: "os_open os device n1 = (fd, n2)" "0 \<le> fd"
    using tty_opens [of device n1] by (cases "os_open os device n1") auto
  obtain t where t: "os_tcgetattr os fd n2 = Some t" using tty_attributes [of fd n2] by auto
  show ?thesis
  proof (cases "baud_speed baud")
    case None
    then show ?thesis using assms c o t by (simp add: SerialPort_open_def Let_def)
  next
    case (Some sp)
    obtain t1 where t1: "os_cfsetspeed os sp (os_cfmakeraw os t) = Some t1" "speed t1 = sp" using tty_speed by blast
    show ?thesis
    proof (cases "frame_settings parity stop_bits t1")
      case None
      then show ?thesis using assms c o t t1 Some by (auto simp: SerialPort_open_def Let_def frame_settings_def split: if_splits)
    next
      fix t2
      assume t2: "frame_settings parity stop_bits t1 = Some t2"
      obtain d n3 where s: "os_tcsetattr os fd (line_settings t2) n2 = (d, n3)" by (cases "os_tcsetattr os fd (line_settings t2) n2")
      then have d: "d" "settings n3 = Some (line_settings t2)" using tty_set [of fd "line_settings t2" n2] by auto
      have b: "b" "settings n' = Some (line_settings t2)"
        using assms c o t t1 t2 s d Some tty_keeps by (auto simp: SerialPort_open_def Let_def)
      moreover have "parity \<in> {CHR ''N'', CHR ''E'', CHR ''O''}" using t2 by (auto simp: frame_settings_def Let_def split: if_splits)
      moreover have "tty_format (line_settings t2) = Some (sp, stop_bits = 2,
          if parity = CHR ''N'' then NOPARITY else if parity = CHR ''O'' then ODDPARITY else EVENPARITY)"
        using t2 t1(2) by (auto simp: frame_settings_def line_settings_def tty_format_def Let_def split: if_splits)
      ultimately show ?thesis using Some by simp
    qed
  qed
qed

end

locale comm_line =
  fixes os :: "'n comm_os" and settings :: "'n \<Rightarrow> dcb option"
  assumes comm_opens: "fst (co_CreateFileW os device n) \<noteq> None"
    and comm_state: "co_GetCommState os h n \<noteq> None"
    and comm_set: "fst (co_SetCommState os h d n) \<and> settings (snd (co_SetCommState os h d n)) = Some d"
begin

lemma comm_open_format:
  assumes "WinSerialPort_open os device baud parity stop_bits rs485 (p, n) = (b, p', n')"
  shows "b = (baud_speed baud \<noteq> None \<and> parity \<in> {CHR ''N'', CHR ''E'', CHR ''O''}) \<and>
    (b \<longrightarrow> (\<exists>d. settings n' = Some d \<and> dcb_format d = Some (the (baud_speed baud), stop_bits = 2,
       if parity = CHR ''N'' then NOPARITY else if parity = CHR ''O'' then ODDPARITY else EVENPARITY)))"
proof -
  obtain p1 n1 where c: "WinSerialPort_close os (p, n) = (p1, n1)" by (cases "WinSerialPort_close os (p, n)")
  obtain h n2 where o: "co_CreateFileW os (com_name os device) n1 = (Some h, n2)"
    using comm_opens [of "com_name os device" n1] by (cases "co_CreateFileW os (com_name os device) n1") auto
  let ?n3 = "co_SetCommTimeouts os h open_timeouts n2"
  obtain d where d: "co_GetCommState os h ?n3 = Some d" using comm_state [of h ?n3] by auto
  have none: "dcb_settings baud parity stop_bits d = None \<longleftrightarrow>
      \<not> (baud_speed baud \<noteq> None \<and> parity \<in> {CHR ''N'', CHR ''E'', CHR ''O''})"
    by (simp add: dcb_settings_def baud_speed_def Let_def)
  show ?thesis
  proof (cases "dcb_settings baud parity stop_bits d")
    case None
    then show ?thesis using assms c o d none by (simp add: WinSerialPort_open_def Let_def)
  next
    case (Some d1)
    obtain ok n4 where s: "co_SetCommState os h d1 ?n3 = (ok, n4)" by (cases "co_SetCommState os h d1 ?n3")
    then have "ok" "settings n4 = Some d1" using comm_set [of h d1 ?n3] by auto
    then have "b" "settings n' = Some d1" using assms c o d s Some by (auto simp: WinSerialPort_open_def Let_def)
    moreover have "dcb_format d1 = Some (the (baud_speed baud), stop_bits = 2,
        if parity = CHR ''N'' then NOPARITY else if parity = CHR ''O'' then ODDPARITY else EVENPARITY)"
      using Some by (auto simp: dcb_settings_def baud_speed_def dcb_format_def Let_def split: if_splits)
    ultimately show ?thesis using none Some by simp
  qed
qed

end

text \<open>A terminal and a communication device, of which only the settings are kept.\<close>

definition settings_tty :: "termios tty_os" where
  "settings_tty =
     \<lparr>os_open = (\<lambda>d n. (3, n)), os_close = (\<lambda>fd n. n), os_tcgetattr = (\<lambda>fd n. Some n),
      os_cfmakeraw = (\<lambda>t. t), os_cfsetspeed = (\<lambda>s t. Some (t\<lparr>speed := s\<rparr>)), os_tcsetattr = (\<lambda>fd t n. (True, t)),
      os_blocking = (\<lambda>fd n. n), os_tcflush = (\<lambda>fd q n. n), os_select = (\<lambda>fd t n. (0, n)),
      os_read = (\<lambda>fd k n. (Failed, n)), os_write = (\<lambda>fd f n. (- 1, n))\<rparr>"

interpretation st: tty_line settings_tty Some
  by unfold_locales (auto simp: settings_tty_def)

text \<open>The communication device also has the bytes that have arrived and are not yet read.\<close>

definition settings_comm :: "(dcb \<times> u8 list) comm_os" where
  "settings_comm =
     \<lparr>co_wide = Some, co_CreateFileW = (\<lambda>d n. (Some 7, n)), co_CloseHandle = (\<lambda>h n. n), co_FlushFileBuffers = (\<lambda>h n. n),
      co_SetCommTimeouts = (\<lambda>h t n. n), co_GetCommState = (\<lambda>h n. Some (fst n)), co_SetCommState = (\<lambda>h d n. (True, d, snd n)),
      co_ReadFile = (\<lambda>h k n. (Some (take k (snd n)), fst n, drop k (snd n))),
      co_WriteFile = (\<lambda>h bs n. (Some (length bs), n))\<rparr>"

interpretation sc: comm_line settings_comm "\<lambda>n. Some (fst n)"
  by unfold_locales (auto simp: settings_comm_def)

section \<open>Properties\<close>

text \<open>
  C36. Both builds open the same ports in the same way: on systems where every call succeeds, the
  Windows and the POSIX \<open>open\<close> accept exactly the same speeds, parities and stop bits (five speeds, the
  parities N, E and O), and the line then has in both the wanted speed, eight data bits, parity and
  stop bits and no flow control. The control lines RTS and DTR, and what the code leaves as \<open>GetCommState\<close> found it,
  are not compared.
\<close>

theorem serial_builds_agree:
  assumes "tty_line os tset" "comm_line co cset"
    and "SerialPort_open os device baud parity stop_bits rs485 (p, n) = (b, p', n')"
    and "WinSerialPort_open co device' baud parity stop_bits rs485' (q, m) = (b', q', m')"
  shows "b' = b \<and> b = (baud \<in> {9600, 19200, 38400, 57600, 115200} \<and> parity \<in> {CHR ''N'', CHR ''E'', CHR ''O''}) \<and>
    (b \<longrightarrow> (\<exists>t d par. tset n' = Some t \<and> cset m' = Some d \<and> tty_format t = Some (nat baud, stop_bits = 2, par) \<and>
       dcb_format d = tty_format t \<and> (par = NOPARITY \<longleftrightarrow> parity = CHR ''N'') \<and> (par = ODDPARITY \<longleftrightarrow> parity = CHR ''O'')))"
proof -
  have rates: "baud_speed baud \<noteq> None \<longleftrightarrow> baud \<in> {9600, 19200, 38400, 57600, 115200}"
    "baud_speed baud \<noteq> None \<Longrightarrow> the (baud_speed baud) = nat baud"
    by (auto simp: baud_speed_def)
  let ?par = "if parity = CHR ''N'' then NOPARITY else if parity = CHR ''O'' then ODDPARITY else EVENPARITY"
  note tty = tty_line.tty_open_format [OF assms(1,3)] and comm = comm_line.comm_open_format [OF assms(2,4)]
  have b: "b' = b" "b = (baud \<in> {9600, 19200, 38400, 57600, 115200} \<and> parity \<in> {CHR ''N'', CHR ''E'', CHR ''O''})"
    using tty comm unfolding rates(1) by blast+
  have "\<exists>t d par. tset n' = Some t \<and> cset m' = Some d \<and> tty_format t = Some (nat baud, stop_bits = 2, par) \<and>
      dcb_format d = tty_format t \<and> (par = NOPARITY \<longleftrightarrow> parity = CHR ''N'') \<and> (par = ODDPARITY \<longleftrightarrow> parity = CHR ''O'')" if good: "b"
  proof -
    have r: "the (baud_speed baud) = nat baud" using rates good tty by blast
    obtain t d where "tset n' = Some t" "tty_format t = Some (nat baud, stop_bits = 2, ?par)"
        "cset m' = Some d" "dcb_format d = Some (nat baud, stop_bits = 2, ?par)"
      using tty comm good b(1) unfolding r by blast
    moreover have "(?par = NOPARITY \<longleftrightarrow> parity = CHR ''N'') \<and> (?par = ODDPARITY \<longleftrightarrow> parity = CHR ''O'')" by simp
    ultimately show ?thesis by (intro exI [of _ t] exI [of _ d] exI [of _ ?par]) simp
  qed
  with b show ?thesis by blast
qed

abbreviation default_tty :: termios where
  "default_tty \<equiv> \<lparr>cs8 = False, cstopb = True, parenb = False, parodd = False, crtscts = True, ixon = True, ixoff = False,
     ixany = False, vmin = 0, vtime = 0, speed = 0\<rparr>"

abbreviation default_dcb :: dcb where
  "default_dcb \<equiv> \<lparr>BaudRate = 0, ByteSize = 7, two_stop_bits = True, dcb_parity = NOPARITY, fParity = False, fOutxCtsFlow = True,
     rts_enabled = True, fOutxDsrFlow = True, dtr_enabled = True, fOutX = True, fInX = True\<rparr>"

theorem serial_builds_agree_witness:
  "\<exists>p' n' q' m'. SerialPort_open settings_tty ''/dev/ttyUSB0'' 9600 (CHR ''O'') 1 False (SerialPort_init, default_tty) = (True, p', n') \<and>
    WinSerialPort_open settings_comm ''COM12'' 9600 (CHR ''O'') 1 False (WinSerialPort_init, (default_dcb, [])) = (True, q', m') \<and>
    tty_format n' = Some (9600, False, ODDPARITY) \<and> dcb_format (fst m') = tty_format n'"
proof -
  obtain b p' n' where p: "SerialPort_open settings_tty ''/dev/ttyUSB0'' 9600 (CHR ''O'') 1 False (SerialPort_init, default_tty) = (b, p', n')"
    by (rule prod_cases3)
  obtain b' q' m' where w: "WinSerialPort_open settings_comm ''COM12'' 9600 (CHR ''O'') 1 False (WinSerialPort_init, (default_dcb, [])) = (b', q', m')"
    by (rule prod_cases3)
  from serial_builds_agree [OF st.tty_line_axioms sc.comm_line_axioms p w] p w show ?thesis by auto
qed

text \<open>
  C37. Flushing the port discards old input on POSIX but not on Windows: bytes that have arrived before the
  flush, such as a late answer to an earlier request, are gone in the POSIX build, where a read then waits for new ones;
  in the Windows build \<open>FlushFileBuffers\<close> only pushes out what is to be sent, and the next read returns the old bytes.
\<close>

theorem windows_flush_keeps_stale:
  assumes "wp_open q" "wp_handle q = Some h" "0 < k" "k \<le> length (win_rx m)"
    and "\<And>m. win_rx (co_FlushFileBuffers co h m) = win_rx m" "\<And>to m. win_rx (co_SetCommTimeouts co h to m) = win_rx m"
    and "\<And>m. k \<le> length (win_rx m) \<Longrightarrow> fst (co_ReadFile co h k m) = Some (take k (win_rx m))"
    and "sp_open p" "0 \<le> sp_fd p"
    and "\<And>n. tty_rx (os_tcflush os (sp_fd p) TCIFLUSH n) = []"
    and "\<And>n. tty_rx n = [] \<Longrightarrow> fst (os_select os (sp_fd p) timeout n) = 0"
  shows "fst (WinSerialPort_read co k timeout q (WinSerialPort_flush co q m)) = (int k, take k (win_rx m)) \<and>
    fst (SerialPort_read os k timeout p (SerialPort_flush os p n)) = (0, [])"
proof
  let ?m = "co_SetCommTimeouts co h \<lparr>ReadIntervalTimeout = 100, ReadTotalTimeoutConstant = timeout, ReadTotalTimeoutMultiplier = 0,
    WriteTotalTimeoutConstant = 0, WriteTotalTimeoutMultiplier = 0\<rparr> (co_FlushFileBuffers co h m)"
  have rx: "win_rx ?m = win_rx m" by (simp add: assms(5,6))
  have "fst (co_ReadFile co h k ?m) = Some (take k (win_rx m))" using assms(7) [of ?m] assms(4) rx by simp
  then show "fst (WinSerialPort_read co k timeout q (WinSerialPort_flush co q m)) = (int k, take k (win_rx m))"
    using assms(1-4) by (auto simp: WinSerialPort_read_def WinSerialPort_flush_def min_def Let_def split: prod.split option.split)
  show "fst (SerialPort_read os k timeout p (SerialPort_flush os p n)) = (0, [])"
    using assms(3,8,9) assms(10) [of n] assms(11) [of "os_tcflush os (sp_fd p) TCIFLUSH n"]
    by (cases "os_select os (sp_fd p) timeout (os_tcflush os (sp_fd p) TCIFLUSH n)")
      (simp add: SerialPort_read_def SerialPort_flush_def)
qed

definition rx_tty :: "u8 list tty_os" where
  "rx_tty =
     \<lparr>os_open = (\<lambda>d n. (3, n)), os_close = (\<lambda>fd n. n), os_tcgetattr = (\<lambda>fd n. Some default_tty),
      os_cfmakeraw = (\<lambda>t. t), os_cfsetspeed = (\<lambda>s t. Some (t\<lparr>speed := s\<rparr>)), os_tcsetattr = (\<lambda>fd t n. (True, n)),
      os_blocking = (\<lambda>fd n. n), os_tcflush = (\<lambda>fd q n. []), os_select = (\<lambda>fd t n. (if n = [] then 0 else 1, n)),
      os_read = (\<lambda>fd k n. (Data (take k n), drop k n)), os_write = (\<lambda>fd f n. (int (length f), n))\<rparr>"

theorem windows_flush_keeps_stale_witness:
  "fst (WinSerialPort_read settings_comm 2 500 \<lparr>wp_handle = Some 7, wp_rs485_enabled = False, wp_open = True\<rparr>
      (WinSerialPort_flush settings_comm \<lparr>wp_handle = Some 7, wp_rs485_enabled = False, wp_open = True\<rparr> (default_dcb, [9, 8, 7]))) =
     (int 2, [9, 8]) \<and>
   fst (SerialPort_read rx_tty 2 500 \<lparr>sp_fd = 3, sp_open = True\<rparr> (SerialPort_flush rx_tty \<lparr>sp_fd = 3, sp_open = True\<rparr> [9, 8, 7])) = (0, [])"
proof -
  have "fst (WinSerialPort_read settings_comm 2 500 \<lparr>wp_handle = Some 7, wp_rs485_enabled = False, wp_open = True\<rparr>
      (WinSerialPort_flush settings_comm \<lparr>wp_handle = Some 7, wp_rs485_enabled = False, wp_open = True\<rparr> (default_dcb, [9, 8, 7]))) =
     (int 2, take 2 (snd (default_dcb, [9, 8, 7]))) \<and>
   fst (SerialPort_read rx_tty 2 500 \<lparr>sp_fd = 3, sp_open = True\<rparr> (SerialPort_flush rx_tty \<lparr>sp_fd = 3, sp_open = True\<rparr> [9, 8, 7])) = (0, [])"
    by (rule windows_flush_keeps_stale [where win_rx = snd and tty_rx = "\<lambda>n. n" and h = 7])
      (simp_all add: settings_comm_def rx_tty_def)
  then show ?thesis by simp
qed

text \<open>
  Only one controller runs under Windows as well: when processes start without \<open>--force\<close> and end in
  any order, at most one of them has the named mutex, and while one has it every further start is refused and changes nothing.
\<close>

theorem windows_lock_exclusive:
  assumes "named_mutex os handles"
    and "(win_lock_step os)\<^sup>*\<^sup>* (\<lambda>p. win_lock_init, n0) (G, n)" "g_lock_handle (G p) = Some h"
  shows "(g_lock_handle (G q) \<noteq> None \<longrightarrow> q = p) \<and>
    (\<exists>n'. win_acquire_instance_lock (os q) False (G q, n) = (False, G q, n') \<and> handles n' = handles n)"
proof -
  have inv: "named_mutex.win_lock_inv handles (G, n)"
    using named_mutex.win_lock_steps_inv [OF assms(1,2)] by (simp add: named_mutex.win_lock_inv_def [OF assms(1)] win_lock_init_def)
  have hd: "handles n = {(p, h)}" using inv assms(3) by (simp add: named_mutex.win_lock_inv_def [OF assms(1)])
  obtain b g' n' where a: "win_acquire_instance_lock (os q) False (G q, n) = (b, g', n')"
    by (cases "win_acquire_instance_lock (os q) False (G q, n)")
  show ?thesis
    using named_mutex.win_lock_unique [OF assms(1) inv assms(3)] named_mutex.win_acquire_cases [OF assms(1) a] hd a by auto
qed

theorem windows_lock_exclusive_witness:
  "\<exists>(G :: nat \<Rightarrow> win_lock) n. g_lock_handle (G 7) = Some 1 \<and>
    (\<exists>n'. win_acquire_instance_lock (kernel_win 8) False (G 8, n) = (False, G 8, n') \<and> set n' = {(7, 1)})"
proof -
  let ?g = "win_lock_init\<lparr>g_lock_fd := 3, g_lock_handle := Some 1\<rparr>" and ?G = "\<lambda>p::nat. win_lock_init"
  have n: "win_acquire_instance_lock (kernel_win 7) False (win_lock_init, []) = (True, ?g, [(7, 1)])"
    by (simp add: win_acquire_instance_lock_def kernel_win_def fresh_handle_def)
  have "win_lock_step kernel_win (?G, []) (?G(7 := ?g), [(7, 1)])"
    using win_lock_step.starts [of kernel_win 7 ?G "[]"] n by simp
  then have "(win_lock_step kernel_win)\<^sup>*\<^sup>* (?G, []) (?G(7 := ?g), [(7, 1)])" by (rule r_into_rtranclp)
  from windows_lock_exclusive [OF kw.named_mutex_axioms this, of 7 1 8] show ?thesis
    by (intro exI [of _ "?G(7 := ?g)"] exI [of _ "[(7, 1)]"]) simp
qed

end
