(* ===== verification/Controller.thy ===== *)
theory Controller
  imports Control_Thread Web_Server
begin

text \<open>
  The threads of the running program on the shared queues: the control thread, the web thread and
  the shutdown, as one step relation, and its refinement to the control thread with its environment.
\<close>

section \<open>The steps\<close>

text \<open>
  The control thread, the web thread and the shutdown of the main thread on the shared queues:
  a request works on the queues of the control loop, and its wake-up callback is \<open>kick\<close>.
\<close>

type_synonym 'c controller = "thread_pc \<times> 'c ControlLoop \<times> WebServer"

definition with_queues :: "'c ControlLoop \<Rightarrow> WebServer \<Rightarrow> WebServer" where
  "with_queues s w = w\<lparr>w_cmd_queue := cmd_queue s, w_status_queue := status_queue s\<rparr>"

definition after_request :: "WebServer \<Rightarrow> WebServer \<Rightarrow> 'c ControlLoop \<Rightarrow> 'c ControlLoop" where
  "after_request w w' s =
     (let s = s\<lparr>cmd_queue := w_cmd_queue w'\<rparr>
      in if wake_calls w' \<noteq> wake_calls w then kick s else s)"

inductive controller_step ::
    "mongoose \<Rightarrow> 'c IModbusClient \<Rightarrow> 'c controller \<Rightarrow> 'c controller \<Rightarrow> bool" for mg ops where
  control: "thread_step ops (pc, s) (pc', s') \<Longrightarrow> controller_step mg ops (pc, s, w) (pc', s', w)"
| request: "handleRequest mg hm (with_queues s w) = (r, w') \<Longrightarrow>
    controller_step mg ops (pc, s, w) (pc, after_request w w' s, w')"
| stop_web: "controller_step mg ops (pc, s, w) (pc, s, WebServer_stop w)"
| stop_loop: "controller_step mg ops (pc, s, w) (pc, request_stop s, w)"

text \<open>Every step of the controller is a run of the control thread and its environment.\<close>

lemma request_steps:
  assumes "json_numbers mg" "handleRequest mg hm (with_queues s w) = (r, w')"
  shows "(system_step ops cmd_valid)\<^sup>*\<^sup>* (pc, s) (pc, after_request w w' s)"
proof -
  let ?s = "s\<lparr>cmd_queue := w_cmd_queue w'\<rparr>"
  have "pushes_valid (with_queues s w) w'"
    using handleRequest_pushes [OF assms(1), of "with_queues s w" hm] assms(2) by simp
  then consider "w_cmd_queue w' = cmd_queue s"
    | q cmd where "cmd_queue s = Some q" "cmd_valid cmd" "w_cmd_queue w' = Some (snd (CmdQueue_push cmd q))"
    by (auto simp: pushes_valid_def with_queues_def simp del: cmd_valid.simps)
  then have "(system_step ops cmd_valid)\<^sup>*\<^sup>* (pc, s) (pc, ?s)"
  proof cases
    case 2
    then show ?thesis
      by (intro r_into_rtranclp) (auto simp: system_step_def simp del: cmd_valid.simps intro: other_step.push)
  qed simp
  moreover have "system_step ops cmd_valid (pc, ?s) (pc, kick ?s)"
    by (simp add: system_step_def other_step.kicked)
  ultimately show ?thesis by (auto simp: after_request_def Let_def intro: rtranclp.rtrancl_into_rtrancl)
qed

lemma controller_refines_system:
  assumes "json_numbers mg" "(controller_step mg ops)\<^sup>*\<^sup>* (pc0, s0, w0) (pc, s, w)"
  shows "system_reachable ops cmd_valid (pc0, s0) (pc, s)"
  using assms(2)
proof (induction "(pc, s, w)" arbitrary: pc s w rule: rtranclp_induct)
  case base
  then show ?case by (simp add: system_reachable_def)
next
  case (step y)
  obtain pc1 s1 w1 where y: "y = (pc1, s1, w1)" by (cases y)
  have stopped: "(system_step ops cmd_valid)\<^sup>*\<^sup>* (pc1, s1) (pc1, request_stop s1)"
    by (intro r_into_rtranclp) (simp add: system_step_def other_step.stopped)
  have thread_runs: "(system_step ops cmd_valid)\<^sup>*\<^sup>* x x'" if "thread_step ops x x'" for x x'
    using that by (intro r_into_rtranclp) (simp add: system_step_def)
  have "(system_step ops cmd_valid)\<^sup>*\<^sup>* (pc1, s1) (pc, s)"
    using step.hyps(2) y
    by (cases rule: controller_step.cases)
      (auto intro: request_steps [OF assms(1)] stopped thread_runs)
  with step.hyps(3) [OF y] show ?case by (simp add: system_reachable_def)
qed

end
