(* ===== verification/Config_Store.thy ===== *)
theory Config_Store
  imports Text_Format Device "HOL-Library.Char_ord" "HOL-Library.List_Lexorder"
begin

text \<open>
  The settings file: the class \<open>Config\<close> of \<open>src/utils/Config.cpp\<close> and the two places of
  \<open>src/main.cpp\<close> that load and save the settings of the user interface. A \<open>std::map\<close> is its list of
  entries in the order of the keys. Files are the parameter \<open>files\<close> on a state \<open>'f\<close> of the file
  system: reading gives the text or fails to open, writing fails to open or says whether all went well.
\<close>

abbreviation MODBUS_GATEWAY_IP :: string where "MODBUS_GATEWAY_IP \<equiv> ''192.168.123.10''"
abbreviation MODBUS_GATEWAY_PORT :: int where "MODBUS_GATEWAY_PORT \<equiv> 8899"

record 'f files =
  f_read :: "string \<Rightarrow> 'f \<Rightarrow> string option"
  f_write :: "string \<Rightarrow> string \<Rightarrow> 'f \<Rightarrow> bool option \<times> 'f"

section \<open>The store\<close>

type_synonym config = "(string \<times> string) list"

fun Config_set :: "string \<Rightarrow> string \<Rightarrow> config \<Rightarrow> config" where
  "Config_set key val [] = [(key, val)]"
| "Config_set key val ((k, v) # values) =
     (if key < k then (key, val) # (k, v) # values
      else if key = k then (key, val) # values
      else (k, v) # Config_set key val values)"

definition Config_init :: config where
  "Config_init =
     Config_set ''heating.target'' ''40.0'' (Config_set ''dhw.target'' ''45.0'' (Config_set ''web.port'' ''8080''
       (Config_set ''modbus.slave_id'' (to_string (uint MODBUS_SLAVE_ID))
         (Config_set ''modbus.port'' (to_string MODBUS_GATEWAY_PORT)
           (Config_set ''modbus.host'' MODBUS_GATEWAY_IP [])))))"

definition Config_hasKey :: "string \<Rightarrow> config \<Rightarrow> bool" where
  "Config_hasKey key values \<longleftrightarrow> map_of values key \<noteq> None"

definition Config_getString :: "string \<Rightarrow> string \<Rightarrow> config \<Rightarrow> string" where
  "Config_getString key default_value values =
     (case map_of values key of Some v \<Rightarrow> v | None \<Rightarrow> default_value)"

definition Config_getInt :: "string \<Rightarrow> int \<Rightarrow> config \<Rightarrow> int" where
  "Config_getInt key default_value values =
     (case map_of values key of
        Some v \<Rightarrow> (case stoi v of Some i \<Rightarrow> i | None \<Rightarrow> default_value)
      | None \<Rightarrow> default_value)"

definition Config_getDouble :: "string \<Rightarrow> fp \<Rightarrow> config \<Rightarrow> fp" where
  "Config_getDouble key default_value values =
     (case map_of values key of
        Some v \<Rightarrow> (case stod v of Some x \<Rightarrow> x | None \<Rightarrow> default_value)
      | None \<Rightarrow> default_value)"

definition Config_getBool :: "string \<Rightarrow> bool \<Rightarrow> config \<Rightarrow> bool" where
  "Config_getBool key default_value values =
     (case map_of values key of
        Some v \<Rightarrow> map lower v = ''true'' \<or> map lower v = ''1'' \<or> map lower v = ''yes''
      | None \<Rightarrow> default_value)"

section \<open>Files\<close>

abbreviation newline :: char where "newline \<equiv> CHR 0x0A"

text \<open>The lines that \<open>std::getline\<close> gives until the end of the file.\<close>

function getlines :: "string \<Rightarrow> string list" where
  "getlines s =
     (if s = [] then []
      else takeWhile (\<lambda>c. c \<noteq> newline) s # getlines (drop 1 (dropWhile (\<lambda>c. c \<noteq> newline) s)))"
  by pat_completeness auto
termination
proof (relation "measure length", simp)
  fix s :: string
  assume "s \<noteq> []"
  then have "0 < length s" by simp
  then show "(drop 1 (dropWhile (\<lambda>c. c \<noteq> newline) s), s) \<in> measure length"
    using length_dropWhile_le [of "\<lambda>c. c \<noteq> newline" s] by (simp only: in_measure length_drop)
qed

declare getlines.simps [simp del]

definition is_blank :: "char \<Rightarrow> bool" where
  "is_blank c \<longleftrightarrow> c = CHR '' '' \<or> c = CHR 0x09"

definition trim :: "string \<Rightarrow> string" where
  "trim s = rev (dropWhile is_blank (rev (dropWhile is_blank s)))"

definition parse_line :: "string \<Rightarrow> config \<Rightarrow> config" where
  "parse_line l values =
     (if l = [] \<or> hd l = CHR ''#'' \<or> hd l = CHR '';'' then values
      else if CHR ''='' \<notin> set l then values
      else
        let key = trim (takeWhile (\<lambda>c. c \<noteq> CHR ''='') l);
            val = trim (tl (dropWhile (\<lambda>c. c \<noteq> CHR ''='') l))
        in if key \<noteq> [] then Config_set key val values else values)"

definition Config_loadFromFile :: "'f files \<Rightarrow> string \<Rightarrow> 'f \<Rightarrow> config \<Rightarrow> bool \<times> config" where
  "Config_loadFromFile files filename f values =
     (case f_read files filename f of
        None \<Rightarrow> (False, values)
      | Some text \<Rightarrow> (True, fold parse_line (getlines text) values))"

definition config_text :: "config \<Rightarrow> string" where
  "config_text values = concat (map (\<lambda>(key, val). key @ '' = '' @ val @ [newline]) values)"

definition Config_saveToFile :: "'f files \<Rightarrow> string \<Rightarrow> config \<Rightarrow> 'f \<Rightarrow> bool \<times> 'f" where
  "Config_saveToFile files filename values f =
     (case f_write files filename (config_text values) f of
        (None, f) \<Rightarrow> (False, f)
      | (Some good, f) \<Rightarrow> (good, f))"

section \<open>The settings of the user interface\<close>

type_synonym settings = "int \<times> string \<times> fp \<times> fp"

text \<open>The callback that \<open>main\<close> installs in the control loop.\<close>

definition save_settings :: "'f files \<Rightarrow> string \<Rightarrow> settings \<Rightarrow> config \<times> 'f \<Rightarrow> config \<times> 'f" where
  "save_settings files config_path st cf = (case st of (working_mode, priority, dhw_target, heating_target) \<Rightarrow>
     case cf of (config, f) \<Rightarrow>
       let config = Config_set ''ui.working_mode'' (to_string working_mode) config;
           config = Config_set ''ui.priority'' priority config;
           config = Config_set ''ui.dhw_target'' (to_string_f dhw_target) config;
           config = Config_set ''ui.heating_target'' (to_string_f heating_target) config
       in (config, snd (Config_saveToFile files config_path config f)))"

definition load_config :: "'f files \<Rightarrow> string \<Rightarrow> 'f \<Rightarrow> config" where
  "load_config files config_path f = snd (Config_loadFromFile files config_path f Config_init)"

definition load_settings :: "config \<Rightarrow> settings" where
  "load_settings config =
     (Config_getInt ''ui.working_mode'' 3 config, Config_getString ''ui.priority'' ''dhw'' config,
      fp_to_f32 (Config_getDouble ''ui.dhw_target'' (Fin 45) config),
      fp_to_f32 (Config_getDouble ''ui.heating_target'' (Fin 40) config))"

section \<open>Properties of the store\<close>

lemma map_of_Config_set [simp]: "map_of (Config_set key val c) = (map_of c)(key \<mapsto> val)"
  by (induction c) auto

abbreviation config_sorted :: "config \<Rightarrow> bool" where
  "config_sorted \<equiv> sorted_wrt (\<lambda>a b. fst a < fst b)"

lemma set_Config_set: "set (Config_set key val c) \<subseteq> insert (key, val) (set c)"
  by (induction c) (auto split: if_splits)

lemma Config_set_sorted: "config_sorted c \<Longrightarrow> config_sorted (Config_set key val c)"
proof (induction c)
  case (Cons e c)
  obtain k v where e: "e = (k, v)" by (cases e)
  have c: "config_sorted c" "\<forall>x \<in> set c. k < fst x" using Cons.prems e by auto
  have n: "\<forall>x \<in> set (Config_set key val c). k < fst x" if "k < key"
    using set_Config_set [of key val c] c(2) that by auto
  show ?case
  proof (cases rule: linorder_cases [of key k])
    case less
    then have "\<forall>x \<in> set c. key < fst x" using c(2) by (blast intro: less_trans)
    with less c show ?thesis by (simp add: e)
  next
    case equal
    with c show ?thesis by (simp add: e)
  next
    case greater
    then have "\<not> key < k" "key \<noteq> k" by auto
    with n [OF greater] Cons.IH [OF c(1)] show ?thesis by (simp add: e)
  qed
qed simp

lemma config_sorted_distinct: "config_sorted c \<Longrightarrow> distinct (map fst c)"
  by (induction c) auto

text \<open>
  Entries as the parser leaves them: no delimiter in the key, no line break, nothing to trim.
  A key that begins like a comment can come from a line that begins with a blank.
\<close>

definition entry_ok :: "string \<times> string \<Rightarrow> bool" where
  "entry_ok e \<longleftrightarrow> (case e of (k, v) \<Rightarrow>
     k \<noteq> [] \<and> CHR ''='' \<notin> set k \<and> newline \<notin> set k \<and> newline \<notin> set v \<and> trim k = k \<and> trim v = v)"

definition comment_key :: "string \<Rightarrow> bool" where
  "comment_key k \<longleftrightarrow> hd k = CHR ''#'' \<or> hd k = CHR '';''"

definition config_ok :: "config \<Rightarrow> bool" where
  "config_ok c \<longleftrightarrow> config_sorted c \<and> (\<forall>e \<in> set c. entry_ok e)"

lemma Config_set_ok: "config_ok c \<Longrightarrow> entry_ok (k, v) \<Longrightarrow> config_ok (Config_set k v c)"
  using Config_set_sorted [of c k v] set_Config_set [of k v c] by (fastforce simp: config_ok_def)

lemma set_trim: "set (trim s) \<subseteq> set s"
  by (auto simp: trim_def dest!: set_dropWhileD)

lemma dropWhile_hd: "dropWhile P s = [] \<or> \<not> P (hd (dropWhile P s))"
  using hd_dropWhile by blast

lemma trim_ends:
  "trim s = [] \<or> \<not> is_blank (hd (trim s)) \<and> \<not> is_blank (last (trim s))"
proof -
  define t where "t = dropWhile is_blank s"
  define u where "u = dropWhile is_blank (rev t)"
  have s: "trim s = rev u" by (simp add: trim_def t_def u_def)
  show ?thesis
  proof (cases "u = []")
    case False
    then have l: "\<not> is_blank (hd u)" using dropWhile_hd [of is_blank "rev t"] by (auto simp: u_def)
    have "t \<noteq> []" using False by (auto simp: u_def)
    then have t: "\<not> is_blank (hd t)" using dropWhile_hd [of is_blank s] by (auto simp: t_def)
    obtain p where "rev t = p @ u" by (metis u_def takeWhile_dropWhile_id)
    then have "t = rev u @ rev p" by (metis rev_append rev_rev_ident)
    then have "hd t = hd (rev u)" using False by simp
    with t l s False show ?thesis by (simp add: last_rev)
  qed (simp add: s)
qed

lemma dropWhile_noop: "s = [] \<or> \<not> P (hd s) \<Longrightarrow> dropWhile P s = s"
  by (cases s) auto

lemma trim_fixed: "s = [] \<or> \<not> is_blank (hd s) \<and> \<not> is_blank (last s) \<Longrightarrow> trim s = s"
  by (auto simp: trim_def dropWhile_noop hd_rev)

lemma trim_no_blank: "(\<And>c. c \<in> set s \<Longrightarrow> \<not> is_blank c) \<Longrightarrow> trim s = s"
  by (rule trim_fixed) auto

lemma trim_trim [simp]: "trim (trim s) = trim s"
  using trim_ends by (rule trim_fixed)

lemma trim_fixed_ends: "trim s = s \<Longrightarrow> s \<noteq> [] \<Longrightarrow> \<not> is_blank (hd s) \<and> \<not> is_blank (last s)"
  using trim_ends [of s] by simp

lemma trim_blank_first: "is_blank b \<Longrightarrow> trim (b # s) = trim s"
  by (simp add: trim_def)

lemma trim_blank_last:
  assumes "is_blank b" "trim s = s" "s \<noteq> []"
  shows "trim (s @ [b]) = s"
  using trim_fixed_ends [OF assms(2,3)] assms(1,3) by (simp add: trim_def dropWhile_noop hd_rev)

lemma parse_saved:
  assumes "entry_ok (k, v)"
  shows "parse_line (k @ '' = '' @ v) c = (if comment_key k then c else Config_set k v c)"
proof -
  have k: "k \<noteq> []" "CHR ''='' \<notin> set k" "trim k = k" "trim v = v" using assms by (auto simp: entry_ok_def)
  have b: "is_blank (CHR '' '')" by (simp add: is_blank_def)
  have t: "takeWhile (\<lambda>c. c \<noteq> CHR ''='') (k @ '' = '' @ v) = k @ '' ''"
    using k(2) by (subst takeWhile_append2) auto
  have d: "dropWhile (\<lambda>c. c \<noteq> CHR ''='') (k @ '' = '' @ v) = ''= '' @ v"
    using k(2) by (subst dropWhile_append2) auto
  have "trim (tl (''= '' @ v)) = v" using trim_blank_first [OF b, of v] k(4) by simp
  moreover have "trim (k @ '' '') = k" using trim_blank_last [OF b k(3,1)] by simp
  ultimately show ?thesis
    using k(1) unfolding parse_line_def t d Let_def by (auto simp: comment_key_def)
qed

lemma parse_line_ok:
  assumes "config_ok c" "newline \<notin> set l"
  shows "config_ok (parse_line l c)"
proof -
  let ?k = "trim (takeWhile (\<lambda>c. c \<noteq> CHR ''='') l)" and ?v = "trim (tl (dropWhile (\<lambda>c. c \<noteq> CHR ''='') l))"
  have "set ?v \<subseteq> set l"
    using set_trim [of "tl (dropWhile (\<lambda>c. c \<noteq> CHR ''='') l)"]
    by (auto dest!: list.set_sel(2) [rotated] set_dropWhileD) (metis in_set_dropD drop_Suc drop0 set_dropWhileD subsetD)
  moreover have "set ?k \<subseteq> set l" "CHR ''='' \<notin> set ?k"
    using set_trim [of "takeWhile (\<lambda>c. c \<noteq> CHR ''='') l"] by (auto dest: set_takeWhileD)
  ultimately have "?k \<noteq> [] \<Longrightarrow> entry_ok (?k, ?v)" using assms(2) by (auto simp: entry_ok_def)
  then show ?thesis using assms(1) by (auto simp: parse_line_def Let_def intro: Config_set_ok)
qed

lemma getlines_no_newline: "l \<in> set (getlines s) \<Longrightarrow> newline \<notin> set l"
proof (induction s rule: getlines.induct)
  case (1 s)
  have "newline \<notin> set (takeWhile (\<lambda>c. c \<noteq> newline) s)" by (auto dest: set_takeWhileD)
  with 1 show ?case by (subst (asm) (2) getlines.simps) (auto split: if_splits)
qed

lemma getlines_Cons:
  assumes "newline \<notin> set l"
  shows "getlines (l @ newline # s) = l # getlines s"
proof -
  have "\<And>c. c \<in> set l \<Longrightarrow> c \<noteq> newline" using assms by auto
  then show ?thesis by (subst getlines.simps) (simp add: takeWhile_append2 dropWhile_append2)
qed

lemma getlines_config_text:
  "\<forall>e \<in> set c. entry_ok e \<Longrightarrow> getlines (config_text c) = map (\<lambda>(k, v). k @ '' = '' @ v) c"
proof (induction c)
  case Nil
  then show ?case by (simp add: config_text_def getlines.simps)
next
  case (Cons e c)
  obtain k v where e: "e = (k, v)" by (cases e)
  have "newline \<notin> set (k @ '' = '' @ v)" using Cons.prems e by (auto simp: entry_ok_def)
  from getlines_Cons [OF this, of "config_text c"] Cons e show ?case
    by (simp add: config_text_def)
qed

lemma fold_parse_ok:
  "config_ok c \<Longrightarrow> \<forall>l \<in> set ls. newline \<notin> set l \<Longrightarrow> config_ok (fold parse_line ls c)"
  by (induction ls arbitrary: c) (auto intro: parse_line_ok)

lemma loadFromFile_ok: "config_ok c \<Longrightarrow> config_ok (snd (Config_loadFromFile files name f c))"
  by (auto simp: Config_loadFromFile_def split: option.split intro!: fold_parse_ok dest: getlines_no_newline)

text \<open>What a file written by \<open>saveToFile\<close> says of a key when it is loaded into another store.\<close>

lemma load_saved:
  assumes "config_ok c"
  shows "map_of (fold parse_line (getlines (config_text c)) c0) k =
    (if comment_key k then map_of c0 k else case map_of c k of None \<Rightarrow> map_of c0 k | Some v \<Rightarrow> Some v)"
proof -
  have "distinct (map fst c)" "\<forall>e \<in> set c. entry_ok e"
    using assms by (auto simp: config_ok_def config_sorted_distinct)
  then have "map_of (fold parse_line (map (\<lambda>(k, v). k @ '' = '' @ v) c) c0) k =
    (if comment_key k then map_of c0 k else case map_of c k of None \<Rightarrow> map_of c0 k | Some v \<Rightarrow> Some v)"
  proof (induction c arbitrary: c0)
    case (Cons e c)
    obtain k' v where e: "e = (k', v)" by (cases e)
    have k': "entry_ok (k', v)" "map_of c k' = None" using Cons.prems e by (auto simp: map_of_eq_None_iff)
    from Cons e k'(2) show ?case
      by (simp add: parse_saved [OF k'(1), simplified]) (auto split: option.split)
  qed simp
  then show ?thesis using getlines_config_text assms by (simp add: config_ok_def)
qed

subsection \<open>The entries of the user interface\<close>

lemma plain_text: "\<forall>c \<in> set s. digit_val c < 99 \<or> c = CHR ''.'' \<or> c = CHR ''-'' \<Longrightarrow> trim s = s \<and> newline \<notin> set s"
proof -
  have "\<not> is_blank c \<and> c \<noteq> newline" if "digit_val c < 99 \<or> c = CHR ''.'' \<or> c = CHR ''-''" for c
    using that by (auto simp: is_blank_def digit_val_def split: if_splits)
  then show "\<forall>c \<in> set s. digit_val c < 99 \<or> c = CHR ''.'' \<or> c = CHR ''-'' \<Longrightarrow> trim s = s \<and> newline \<notin> set s"
    by (intro conjI trim_no_blank) blast+
qed

lemma digits_plain: "c \<in> set (digits n) \<Longrightarrow> digit_val c < 99"
  using digits_vals(2) [of n] by force

lemma to_string_plain: "trim (to_string i) = to_string i \<and> newline \<notin> set (to_string i)"
  by (rule plain_text) (auto simp: to_string_def fmt_d_def digits_plain)

lemma to_string_f_plain: "trim (to_string_f x) = to_string_f x \<and> newline \<notin> set (to_string_f x)"
proof (rule plain_text)
  have z: "digit_val (CHR ''0'') < 99" by code_simp
  have l: "digit_val (CHR ''i'') < 99" "digit_val (CHR ''n'') < 99" "digit_val (CHR ''f'') < 99" "digit_val (CHR ''a'') < 99"
    by code_simp+
  show "\<forall>c \<in> set (to_string_f x). digit_val c < 99 \<or> c = CHR ''.'' \<or> c = CHR ''-''"
    using z l by (cases x) (auto simp: to_string_f_def fmt_fixed_def Let_def pad_left_def digits_plain)
qed

lemma ui_keys:
  "entry_ok (''ui.working_mode'', to_string i)" "entry_ok (''ui.dhw_target'', to_string_f x)"
  "entry_ok (''ui.heating_target'', to_string_f x)"
  "p \<in> {''dhw'', ''heating''} \<Longrightarrow> entry_ok (''ui.priority'', p)"
  using to_string_plain to_string_f_plain by (auto simp: entry_ok_def trim_def is_blank_def)

lemma Config_init_ok: "config_ok Config_init"
proof -
  have "entry_ok (''modbus.slave_id'', to_string i)" "entry_ok (''modbus.port'', to_string i)" for i
    using to_string_plain by (auto simp: entry_ok_def trim_def is_blank_def)
  moreover have "entry_ok (''heating.target'', ''40.0'')" "entry_ok (''dhw.target'', ''45.0'')" "entry_ok (''web.port'', ''8080'')"
      "entry_ok (''modbus.host'', MODBUS_GATEWAY_IP)"
    by (simp_all add: entry_ok_def trim_def is_blank_def)
  moreover have "config_ok []" by (simp add: config_ok_def)
  ultimately show ?thesis unfolding Config_init_def by (intro Config_set_ok)
qed

lemma save_settings_ok:
  assumes "config_ok c" "p \<in> {''dhw'', ''heating''}"
  shows "config_ok (fst (save_settings files path (m, p, d, h) (c, f)))"
  using assms by (simp add: save_settings_def Let_def) (intro Config_set_ok ui_keys; simp)

section \<open>Properties\<close>

text \<open>The stores the program can have: the defaults, files loaded over them, settings saved.\<close>

inductive config_reachable :: "'f files \<Rightarrow> config \<Rightarrow> bool" for files where
  init: "config_reachable files Config_init"
| load: "config_reachable files c \<Longrightarrow> config_reachable files (snd (Config_loadFromFile files name f c))"
| save: "config_reachable files c \<Longrightarrow> p \<in> {''dhw'', ''heating''} \<Longrightarrow>
    config_reachable files (fst (save_settings files path (m, p, d, h) (c, f)))"

text \<open>The file system: what is written to the path is read back.\<close>

definition writable :: "'f files \<Rightarrow> string \<Rightarrow> bool" where
  "writable files path \<longleftrightarrow>
     (\<forall>text f. fst (f_write files path text f) = Some True \<and> f_read files path (snd (f_write files path text f)) = Some text)"

lemma parse_line_keeps: "dom (map_of c) \<subseteq> dom (map_of (parse_line l c))"
  by (auto simp: parse_line_def Let_def)

lemma fold_parse_keeps: "dom (map_of c) \<subseteq> dom (map_of (fold parse_line ls c))"
proof (induction ls arbitrary: c)
  case (Cons l ls)
  show ?case using subset_trans [OF parse_line_keeps [of c l] Cons.IH] by simp
qed simp

lemma config_reachable_ok:
  assumes "config_reachable files c"
  shows "config_ok c \<and> dom (map_of Config_init) \<subseteq> dom (map_of c)"
  using assms
proof (induction rule: config_reachable.induct)
  case init
  then show ?case by (simp add: Config_init_ok)
next
  case (load c name f)
  have "dom (map_of c) \<subseteq> dom (map_of (snd (Config_loadFromFile files name f c)))"
    using fold_parse_keeps by (simp add: Config_loadFromFile_def split: option.split)
  from subset_trans [OF conjunct2 [OF load.IH] this] loadFromFile_ok [OF conjunct1 [OF load.IH]] show ?case by simp
next
  case (save c p path m d h f)
  have "dom (map_of c) \<subseteq> dom (map_of (fst (save_settings files path (m, p, d, h) (c, f))))"
    by (auto simp: save_settings_def Let_def)
  from subset_trans [OF conjunct2 [OF save.IH] this] save_settings_ok [OF conjunct1 [OF save.IH] save.hyps(2)]
  show ?case by simp
qed

lemma saved_text:
  assumes "writable files path"
  shows "f_read files path (snd (Config_saveToFile files path c f)) = Some (config_text c)"
    and "fst (Config_saveToFile files path c f)"
proof -
  have "fst (f_write files path (config_text c) f) = Some True"
      "f_read files path (snd (f_write files path (config_text c) f)) = Some (config_text c)"
    using assms by (simp_all add: writable_def)
  then show "f_read files path (snd (Config_saveToFile files path c f)) = Some (config_text c)"
    and "fst (Config_saveToFile files path c f)"
    by (cases "f_write files path (config_text c) f"; simp add: Config_saveToFile_def)+
qed

text \<open>
  A settings file that the program writes is read back as it was: whatever files it loaded and
  settings it saved before, after saving to a path that can be written, a new program that loads the
  path has the same value for every key, except for keys that begin with the comment characters
  \<open>#\<close> or \<open>;\<close>, whose lines are skipped.
\<close>

theorem config_roundtrip:
  assumes "config_reachable files c" "writable files path" "\<not> comment_key k"
  shows "fst (Config_saveToFile files path c f) \<and>
    map_of (load_config files path (snd (Config_saveToFile files path c f))) k = map_of c k"
proof -
  have ok: "config_ok c" "map_of c k = None \<Longrightarrow> map_of Config_init k = None"
    using config_reachable_ok [OF assms(1)] by (auto simp: dom_def)
  show ?thesis
    using saved_text [OF assms(2), of c f] ok(2) assms(3) load_saved [OF ok(1), of Config_init k]
    by (auto simp: load_config_def Config_loadFromFile_def split: option.splits)
qed

abbreviation one_file :: "string files" where
  "one_file \<equiv> \<lparr>f_read = (\<lambda>p f. Some f), f_write = (\<lambda>p text f. (Some True, text))\<rparr>"

theorem config_roundtrip_witness:
  "fst (Config_saveToFile one_file ''s.ini'' (fst (save_settings one_file ''s.ini'' (2, ''heating'', Fin 45, Fin 30) (Config_init, []))) []) \<and>
   map_of (load_config one_file ''s.ini'' (snd (Config_saveToFile one_file ''s.ini''
      (fst (save_settings one_file ''s.ini'' (2, ''heating'', Fin 45, Fin 30) (Config_init, []))) []))) ''ui.priority'' =
   map_of (fst (save_settings one_file ''s.ini'' (2, ''heating'', Fin 45, Fin 30) (Config_init, []))) ''ui.priority''"
  by (rule config_roundtrip [OF config_reachable.save [OF config_reachable.init]])
    (simp_all add: writable_def comment_key_def)

text \<open>
  C16. The settings of the user survive a restart exactly: after the callback has saved a working
  mode, a priority and two targets, each target any \<open>float\<close> from 16 up to but not including 64 degrees, the next start
  of the program reads the same four values, the targets bit for bit, although they are stored as
  decimal numbers with six digits.
\<close>

theorem settings_survive_restart:
  assumes "config_reachable files c" "writable files path"
    and "- (2 ^ 31) \<le> m" "m < 2 ^ 31" "p \<in> {''dhw'', ''heating''}"
    and "16 \<le> d" "d < 64" "f32 d = Fin d" "16 \<le> h" "h < 64" "f32 h = Fin h"
  shows "load_settings (load_config files path (snd (save_settings files path (m, p, Fin d, Fin h) (c, f)))) =
    (m, p, Fin d, Fin h)"
proof -
  define c' where "c' = fst (save_settings files path (m, p, Fin d, Fin h) (c, f))"
  have ok: "config_ok c'" unfolding c'_def
    by (rule save_settings_ok [OF conjunct1 [OF config_reachable_ok [OF assms(1)]] assms(5)])
  have f': "snd (save_settings files path (m, p, Fin d, Fin h) (c, f)) = snd (Config_saveToFile files path c' f)"
    by (simp add: c'_def save_settings_def Let_def)
  have l: "map_of (load_config files path (snd (Config_saveToFile files path c' f))) k = Some v"
    if "map_of c' k = Some v" "\<not> comment_key k" for k v
    using that saved_text(1) [OF assms(2), of c' f] load_saved [OF ok, of Config_init k]
    by (simp add: load_config_def Config_loadFromFile_def)
  have r: "r32 d = d" "r32 h = h"
    using assms(8,11) by (auto simp: f32_def fp_round_def Let_def split: if_splits)
  have "map_of c' ''ui.working_mode'' = Some (to_string m)" "map_of c' ''ui.priority'' = Some p"
      "map_of c' ''ui.dhw_target'' = Some (to_string_f (Fin d))" "map_of c' ''ui.heating_target'' = Some (to_string_f (Fin h))"
    by (simp_all add: c'_def save_settings_def Let_def)
  from l [OF this(1)] l [OF this(2)] l [OF this(3)] l [OF this(4)]
    stod_to_string_f [OF assms(6,7) r(1)] stod_to_string_f [OF assms(9,10) r(2)]
  show ?thesis unfolding f'
    by (auto simp: load_settings_def Config_getInt_def Config_getString_def Config_getDouble_def comment_key_def
        stoi_to_string [OF assms(3,4)])
qed

theorem settings_survive_restart_witness:
  "load_settings (load_config one_file ''s.ini'' (snd (save_settings one_file ''s.ini'' (2, ''heating'', Fin 45, Fin 30) (Config_init, [])))) =
    (2, ''heating'', Fin 45, Fin 30)"
  by (rule settings_survive_restart [OF config_reachable.init]) (simp_all add: writable_def fp_simps)

end
