(* ===== verification/Serial_Client.thy ===== *)
theory Serial_Client
  imports Rtu_Response Serial_Port Text_Format Control_Converge
begin

text \<open>
  The client of a device on a serial line: the C functions of
  \<open>src/modbus/modbus_serial_client.c\<close> and the class \<open>ModbusSerialClient\<close> of
  \<open>src/modbus/ModbusSerialClient.cpp\<close> around them, over the serial port. \<open>None\<close> is a call that
  writes outside a buffer. Log output and sleeping are left out.
\<close>

record modbus_serial_client_t =
  sc_device :: string
  sc_baud :: int
  sc_parity :: char
  sc_stop_bits :: int
  sc_rs485_enabled :: bool
  sc_slave_id :: u8
  sc_port :: "SerialPort option"
  sc_connected :: bool

abbreviation MODBUS_SERIAL_WRITE_MAX_RETRIES :: nat where "MODBUS_SERIAL_WRITE_MAX_RETRIES \<equiv> 3"
abbreviation MODBUS_SERIAL_RECV_TIMEOUT_MS :: nat where "MODBUS_SERIAL_RECV_TIMEOUT_MS \<equiv> 2000"
abbreviation MODBUS_SERIAL_MAX_FRAME :: nat where "MODBUS_SERIAL_MAX_FRAME \<equiv> 256"
abbreviation MODBUS_SERIAL_READ_HEADER_LEN :: nat where "MODBUS_SERIAL_READ_HEADER_LEN \<equiv> 3"

section \<open>Creation and connection\<close>

definition c_toupper :: "char \<Rightarrow> char" where
  "c_toupper c = (if of_char c \<in> {97..122 :: nat} then char_of (of_char c - 32 :: nat) else c)"

definition valid_parity :: "char \<Rightarrow> bool" where
  "valid_parity parity \<longleftrightarrow>
     \<not> ((parity \<noteq> CHR ''N'' \<and> parity \<noteq> CHR ''E'' \<and> parity \<noteq> CHR ''O'') \<and>
        (parity \<noteq> CHR ''n'' \<and> parity \<noteq> CHR ''e'' \<and> parity \<noteq> CHR ''o''))"

text \<open>\<open>memory\<close>: whether \<open>malloc\<close> succeeds; the device path is \<open>None\<close> for a null pointer.\<close>

definition modbus_serial_client_create ::
    "bool \<Rightarrow> string option \<Rightarrow> int \<Rightarrow> char \<Rightarrow> int \<Rightarrow> bool \<Rightarrow> u8 \<Rightarrow> modbus_serial_client_t option" where
  "modbus_serial_client_create memory device baud parity stop_bits rs485_enabled slave_id =
     (case device of
        None \<Rightarrow> None
      | Some path \<Rightarrow>
          if length path \<ge> 256 then None
          else if baud \<notin> set [9600, 19200, 38400, 57600, 115200] then None
          else if \<not> valid_parity parity then None
          else if stop_bits \<noteq> 1 \<and> stop_bits \<noteq> 2 then None
          else if \<not> memory then None
          else Some \<lparr>sc_device = path, sc_baud = baud, sc_parity = c_toupper parity, sc_stop_bits = stop_bits,
                     sc_rs485_enabled = rs485_enabled, sc_slave_id = slave_id, sc_port = None, sc_connected = False\<rparr>)"

definition modbus_serial_client_connect ::
    "'n tty_os \<Rightarrow> modbus_serial_client_t \<times> 'n \<Rightarrow> bool \<times> modbus_serial_client_t \<times> 'n" where
  "modbus_serial_client_connect os cn = (case cn of (client, n) \<Rightarrow>
     if sc_connected client then (False, client, n)
     else case windmi_serial_open os (sc_device client) (sc_baud client) (sc_parity client)
                 (sc_stop_bits client) (sc_rs485_enabled client) n of
       (port, n) \<Rightarrow>
         let client = client\<lparr>sc_port := port\<rparr>
         in if port = None then (False, client, n)
            else (True, client\<lparr>sc_connected := True\<rparr>, windmi_serial_flush os port n))"

definition modbus_serial_client_disconnect ::
    "'n tty_os \<Rightarrow> modbus_serial_client_t \<times> 'n \<Rightarrow> modbus_serial_client_t \<times> 'n" where
  "modbus_serial_client_disconnect os cn = (case cn of (client, n) \<Rightarrow>
     if sc_port client \<noteq> None
     then (client\<lparr>sc_port := None, sc_connected := False\<rparr>, windmi_serial_close os (sc_port client) n)
     else (client, n))"

definition modbus_serial_client_destroy :: "'n tty_os \<Rightarrow> modbus_serial_client_t \<times> 'n \<Rightarrow> 'n" where
  "modbus_serial_client_destroy os cn = (case cn of (client, n) \<Rightarrow>
     if sc_connected client then snd (modbus_serial_client_disconnect os (client, n))
     else if sc_port client \<noteq> None then windmi_serial_close os (sc_port client) n
     else n)"

definition modbus_serial_client_is_connected :: "modbus_serial_client_t \<Rightarrow> bool" where
  "modbus_serial_client_is_connected client = sc_connected client"

definition modbus_serial_flush_buffer :: "'n tty_os \<Rightarrow> modbus_serial_client_t \<times> 'n \<Rightarrow> 'n" where
  "modbus_serial_flush_buffer os cn = (case cn of (client, n) \<Rightarrow>
     if sc_port client \<noteq> None then windmi_serial_flush os (sc_port client) n else n)"

section \<open>Frames on the line\<close>

function serial_write_all :: "'n tty_os \<Rightarrow> SerialPort option \<Rightarrow> u8 list \<Rightarrow> nat \<Rightarrow> 'n \<Rightarrow> bool \<times> 'n" where
  "serial_write_all os port request total_sent n =
     (if total_sent < length request
      then case windmi_serial_write os (drop total_sent request) port n of (delivered, n) \<Rightarrow>
        if delivered \<le> 0 then (False, n)
        else serial_write_all os port request (total_sent + nat delivered) n
      else (True, n))"
  by pat_completeness auto
termination
  by (relation "measure (\<lambda>(os, port, request, total_sent, n). length request - total_sent)") auto

declare serial_write_all.simps [simp del]

definition serial_send_frame ::
    "'n tty_os \<Rightarrow> u8 list \<Rightarrow> modbus_serial_client_t \<times> 'n \<Rightarrow> bool \<times> 'n" where
  "serial_send_frame os request cn = (case cn of (client, n) \<Rightarrow>
     if sc_port client = None \<or> request = [] then (False, n)
     else serial_write_all os (sc_port client) request 0 (windmi_serial_flush os (sc_port client) n))"

function serial_read_all ::
    "'n tty_os \<Rightarrow> SerialPort option \<Rightarrow> nat \<Rightarrow> nat \<Rightarrow> u8 list \<Rightarrow> 'n \<Rightarrow> u8 list option \<times> 'n" where
  "serial_read_all os port timeout_ms expected_len acc n =
     (if length acc < expected_len
      then case windmi_serial_read os (expected_len - length acc) timeout_ms port n of ((count, bs), n) \<Rightarrow>
        if count \<le> 0 \<or> bs = [] then (None, n)
        else serial_read_all os port timeout_ms expected_len (acc @ take (expected_len - length acc) bs) n
      else (Some acc, n))"
  by pat_completeness auto
termination
  by (relation "measure (\<lambda>(os, port, timeout_ms, expected_len, acc, n). expected_len - length acc)")
    (auto simp: length_greater_0_conv [symmetric] simp del: length_greater_0_conv)

declare serial_read_all.simps [simp del]

definition serial_receive_exact ::
    "'n tty_os \<Rightarrow> nat \<Rightarrow> nat \<Rightarrow> modbus_serial_client_t \<Rightarrow> 'n \<Rightarrow> u8 list option \<times> 'n" where
  "serial_receive_exact os expected_len timeout_ms client n =
     (if sc_port client = None \<or> expected_len = 0 then (None, n)
      else serial_read_all os (sc_port client) timeout_ms expected_len [] n)"

section \<open>Registers\<close>

definition modbus_serial_read_write_registers_internal ::
    "'n tty_os \<Rightarrow> u16 \<Rightarrow> u16 \<Rightarrow> bool \<Rightarrow> modbus_serial_client_t \<times> 'n \<Rightarrow>
       (i16 list option \<times> modbus_serial_client_t \<times> 'n) option" where
  "modbus_serial_read_write_registers_internal os address count single cn =
     (if \<not> sc_connected (fst cn) \<or> count = 0 then Some (None, cn)
      else
        let client = fst cn;
            down = client\<lparr>sc_connected := False\<rparr>;
            read_count = (if single then 1 else count);
            request = modbus_rtu_build_read_frame (replicate 8 0) (sc_slave_id client) address read_count
        in case serial_send_frame os request cn of (delivered, n) \<Rightarrow>
          if \<not> delivered then Some (None, down, n)
          else case serial_receive_exact os MODBUS_SERIAL_READ_HEADER_LEN MODBUS_SERIAL_RECV_TIMEOUT_MS client n of
            (None, n) \<Rightarrow> Some (None, down, n)
          | (Some header, n) \<Rightarrow>
              if header ! 0 \<noteq> sc_slave_id client then Some (None, client, n)
              else if header ! 1 AND 0x80 \<noteq> 0
              then Some (None, client, snd (serial_receive_exact os 2 MODBUS_SERIAL_RECV_TIMEOUT_MS client n))
              else if unat (header ! 2) \<noteq> unat read_count * 2 then Some (None, client, n)
              else
                let remaining = unat (header ! 2) + 2
                in case serial_receive_exact os remaining MODBUS_SERIAL_RECV_TIMEOUT_MS client n of
                     (None, n) \<Rightarrow> Some (None, down, n)
                   | (Some data_and_crc, n) \<Rightarrow>
                       if MODBUS_SERIAL_READ_HEADER_LEN + remaining > MODBUS_SERIAL_MAX_FRAME then None
                       else if \<not> crc_matches (header @ data_and_crc) then Some (None, client, n)
                       else Some (Some (response_values (unat read_count) data_and_crc), client, n))"

definition modbus_serial_read_register ::
    "'n tty_os \<Rightarrow> u16 \<Rightarrow> modbus_serial_client_t \<times> 'n \<Rightarrow> (i16 option \<times> modbus_serial_client_t \<times> 'n) option" where
  "modbus_serial_read_register os address cn = do {
     (r, cn) \<leftarrow> modbus_serial_read_write_registers_internal os address 1 True cn;
     Some (map_option hd r, cn) }"

definition modbus_serial_read_registers ::
    "'n tty_os \<Rightarrow> u16 \<Rightarrow> u16 \<Rightarrow> modbus_serial_client_t \<times> 'n \<Rightarrow>
       (i16 list option \<times> modbus_serial_client_t \<times> 'n) option" where
  "modbus_serial_read_registers os address count cn =
     (if count = 0 then Some (None, cn)
      else modbus_serial_read_write_registers_internal os address count False cn)"

text \<open>One round of the retry loop of \<open>modbus_serial_write_register\<close>: whether it reached \<open>return 0\<close>.\<close>

definition serial_write_attempt ::
    "'n tty_os \<Rightarrow> u16 \<Rightarrow> u16 \<Rightarrow> modbus_serial_client_t \<times> 'n \<Rightarrow> (bool \<times> modbus_serial_client_t \<times> 'n) option" where
  "serial_write_attempt os address value cn =
     (let client = fst cn;
          down = client\<lparr>sc_connected := False\<rparr>;
          request = modbus_rtu_build_write_frame (replicate 8 0) (sc_slave_id client) address value
      in case serial_send_frame os request cn of (delivered, n) \<Rightarrow>
        if \<not> delivered then Some (False, down, n)
        else case serial_receive_exact os 8 MODBUS_SERIAL_RECV_TIMEOUT_MS client n of
          (None, n) \<Rightarrow> Some (False, down, n)
        | (Some response, n) \<Rightarrow>
            if \<not> write_response_ok (sc_slave_id client) response then Some (False, client, n)
            else do {
              (r, cn) \<leftarrow> modbus_serial_read_register os address (client, n);
              Some (r = Some value, cn) })"

primrec serial_write_retries ::
    "nat \<Rightarrow> 'n tty_os \<Rightarrow> u16 \<Rightarrow> u16 \<Rightarrow> modbus_serial_client_t \<times> 'n \<Rightarrow> (bool \<times> modbus_serial_client_t \<times> 'n) option" where
  "serial_write_retries 0 os address value cn = Some (False, cn)"
| "serial_write_retries (Suc k) os address value cn = do {
     (done, cn) \<leftarrow> serial_write_attempt os address value cn;
     if done then Some (True, cn) else serial_write_retries k os address value cn }"

definition modbus_serial_write_register ::
    "'n tty_os \<Rightarrow> u16 \<Rightarrow> u16 \<Rightarrow> modbus_serial_client_t \<times> 'n \<Rightarrow> (bool \<times> modbus_serial_client_t \<times> 'n) option" where
  "modbus_serial_write_register os address value cn =
     (if \<not> sc_connected (fst cn) then Some (False, cn)
      else serial_write_retries MODBUS_SERIAL_WRITE_MAX_RETRIES os address value cn)"

section \<open>The class around the functions\<close>

text \<open>
  \<open>impl_->c_client\<close> is null only in an object whose constructor failed. The read-back of one
  register stays within the buffers (shown below), so the \<open>None\<close> of the C functions, here an
  exception, does not occur.
\<close>

record 'n ModbusSerialClient =
  c_client :: "modbus_serial_client_t option"
  last_error :: string
  line :: 'n

definition ModbusSerialClient_init ::
    "bool \<Rightarrow> string \<Rightarrow> int \<Rightarrow> char \<Rightarrow> int \<Rightarrow> bool \<Rightarrow> u8 \<Rightarrow> 'n \<Rightarrow> ModbusException + 'n ModbusSerialClient" where
  "ModbusSerialClient_init memory device baud parity stop_bits rs485_enabled slave_id n =
     (if baud \<noteq> 9600 \<and> baud \<noteq> 19200 \<and> baud \<noteq> 38400 \<and> baud \<noteq> 57600 \<and> baud \<noteq> 115200
      then Inl (ModbusException (''Invalid baud rate: '' @ fmt_d baud))
      else if \<not> valid_parity parity
      then Inl (ModbusException (''Invalid parity: '' @ [CHR 0x27, parity, CHR 0x27] @ '' (must be N, E, or O)''))
      else if stop_bits \<noteq> 1 \<and> stop_bits \<noteq> 2
      then Inl (ModbusException (''Invalid stop bits: '' @ fmt_d stop_bits @ '' (must be 1 or 2)''))
      else case modbus_serial_client_create memory (Some device) baud (c_toupper parity) stop_bits rs485_enabled slave_id of
        None \<Rightarrow> Inl (ModbusException ''Failed to create Modbus serial client'')
      | Some c \<Rightarrow> Inr \<lparr>c_client = Some c, last_error = [], line = n\<rparr>)"

definition ser_destroy :: "'n tty_os \<Rightarrow> 'n ModbusSerialClient \<Rightarrow> 'n" where
  "ser_destroy os m = (case c_client m of None \<Rightarrow> line m
     | Some c \<Rightarrow> modbus_serial_client_destroy os (c, line m))"

definition ser_connect :: "'n tty_os \<Rightarrow> 'n ModbusSerialClient \<Rightarrow> bool \<times> 'n ModbusSerialClient" where
  "ser_connect os m = (case c_client m of
     None \<Rightarrow> (False, m\<lparr>last_error := ''Client is not initialized''\<rparr>)
   | Some c \<Rightarrow> (case modbus_serial_client_connect os (c, line m) of (b, c, n) \<Rightarrow>
       let m = m\<lparr>c_client := Some c, line := n\<rparr>
       in (b, if b then m else m\<lparr>last_error := ''Failed to connect to serial port''\<rparr>)))"

definition ser_disconnect :: "'n tty_os \<Rightarrow> 'n ModbusSerialClient \<Rightarrow> 'n ModbusSerialClient" where
  "ser_disconnect os m = (case c_client m of
     None \<Rightarrow> m
   | Some c \<Rightarrow> (case modbus_serial_client_disconnect os (c, line m) of (c, n) \<Rightarrow> m\<lparr>c_client := Some c, line := n\<rparr>))"

definition ser_isConnected :: "'n ModbusSerialClient \<Rightarrow> bool" where
  "ser_isConnected m = (case c_client m of None \<Rightarrow> False | Some c \<Rightarrow> modbus_serial_client_is_connected c)"

definition ser_readRegister ::
    "'n tty_os \<Rightarrow> u16 \<Rightarrow> 'n ModbusSerialClient \<Rightarrow> (ModbusException, i16, 'n ModbusSerialClient) outcome" where
  "ser_readRegister os a m = (case c_client m of
     None \<Rightarrow> (Inl (ModbusException ''Client is not initialized''), m)
   | Some c \<Rightarrow> (case modbus_serial_read_register os a (c, line m) of
        None \<Rightarrow> (Inl (ModbusException ''(buffer overrun)''), m)
      | Some (None, c, n) \<Rightarrow>
          (Inl (ModbusException ''Failed to read register''),
           m\<lparr>c_client := Some c, line := n, last_error := ''Failed to read register''\<rparr>)
      | Some (Some v, c, n) \<Rightarrow> (Inr v, m\<lparr>c_client := Some c, line := n\<rparr>)))"

definition ser_writeRegister ::
    "'n tty_os \<Rightarrow> u16 \<Rightarrow> u16 \<Rightarrow> 'n ModbusSerialClient \<Rightarrow> (ModbusException, unit, 'n ModbusSerialClient) outcome" where
  "ser_writeRegister os a v m = (case c_client m of
     None \<Rightarrow> (Inl (ModbusException ''Client is not initialized''), m)
   | Some c \<Rightarrow> (case modbus_serial_write_register os a v (c, line m) of
        None \<Rightarrow> (Inl (ModbusException ''(buffer overrun)''), m)
      | Some (False, c, n) \<Rightarrow>
          (Inl (ModbusException ''Failed to write register''),
           m\<lparr>c_client := Some c, line := n, last_error := ''Failed to write register''\<rparr>)
      | Some (True, c, n) \<Rightarrow> (Inr (), m\<lparr>c_client := Some c, line := n\<rparr>)))"

definition ser_flushBuffer :: "'n tty_os \<Rightarrow> 'n ModbusSerialClient \<Rightarrow> 'n ModbusSerialClient" where
  "ser_flushBuffer os m = (case c_client m of None \<Rightarrow> m
     | Some c \<Rightarrow> m\<lparr>line := modbus_serial_flush_buffer os (c, line m)\<rparr>)"

definition serial_ops :: "'n tty_os \<Rightarrow> 'n ModbusSerialClient IModbusClient" where
  "serial_ops os =
     \<lparr>m_connect = ser_connect os, m_disconnect = ser_disconnect os, m_isConnected = ser_isConnected,
      m_readRegister = ser_readRegister os, m_writeRegister = ser_writeRegister os,
      m_flushBuffer = ser_flushBuffer os, m_getLastError = last_error\<rparr>"

section \<open>A working line\<close>

text \<open>
  The contract of an open descriptor \<open>fd\<close> of a line with a device on it: \<open>rx\<close> are the bytes that
  have arrived, \<open>got\<close> the part of a request that the device has received, and \<open>regs\<close> its registers.
  Both directions move any positive number of bytes at a time. A flush discards what has arrived
  and starts a new request; a request of eight bytes is answered as \<open>rtu_answers\<close> says.
\<close>

locale rtu_line =
  fixes os :: "'n tty_os" and slave :: u8 and fd :: int and link :: "'n \<Rightarrow> bool"
    and rx :: "'n \<Rightarrow> u8 list" and got :: "'n \<Rightarrow> u8 list" and regs :: "'n \<Rightarrow> u16 \<Rightarrow> i16"
    and held :: "u16 set" and readable :: "u16 set"
  assumes fd_valid: "0 \<le> fd"
    and flush_rx: "link n \<Longrightarrow> link (os_tcflush os fd TCIFLUSH n) \<and> rx (os_tcflush os fd TCIFLUSH n) = [] \<and>
      got (os_tcflush os fd TCIFLUSH n) = [] \<and> regs (os_tcflush os fd TCIFLUSH n) = regs n"
    and select_rx: "link n \<Longrightarrow> os_select os fd t n = (if rx n = [] then 0 else 1, n)"
    and read_rx: "link n \<Longrightarrow> rx n \<noteq> [] \<Longrightarrow> 0 < k \<Longrightarrow>
      \<exists>bs n'. os_read os fd k n = (Data bs, n') \<and> bs \<noteq> [] \<and> length bs \<le> k \<and> rx n = bs @ rx n' \<and>
        link n' \<and> regs n' = regs n"
    and write_part: "link n \<Longrightarrow> rx n = [] \<Longrightarrow> f \<noteq> [] \<Longrightarrow> length (got n @ f) = 8 \<Longrightarrow>
      \<exists>j n'. os_write os fd f n = (int j, n') \<and> 0 < j \<and> j \<le> length f \<and> link n' \<and>
        (if j < length f then got n' = got n @ take j f \<and> rx n' = [] \<and> regs n' = regs n
         else rtu_answers slave held readable (got n @ f) (regs n) (rx n') (regs n'))"
    and held_readable: "held \<subseteq> readable"
begin

definition open_port :: "SerialPort option \<Rightarrow> bool" where
  "open_port p \<longleftrightarrow> (\<exists>q. p = Some q \<and> sp_fd q = fd \<and> sp_open q)"

lemma write_all_link:
  assumes "link n" "rx n = []" "open_port p" "length f = 8" "got n = take k f" "k < 8" "regs n = r"
  shows "\<exists>n'. serial_write_all os p f k n = (True, n') \<and> link n' \<and>
    rtu_answers slave held readable f r (rx n') (regs n')"
  using assms
proof (induction "8 - k" arbitrary: n k rule: less_induct)
  case less
  obtain q where p: "p = Some q" "sp_fd q = fd" "sp_open q" using less.prems(3) by (auto simp: open_port_def)
  have d: "drop k f \<noteq> []" "length (got n @ drop k f) = 8" "got n @ drop k f = f" using less.prems by auto
  obtain j n1 where w: "os_write os fd (drop k f) n = (int j, n1)" "0 < j" "j \<le> length (drop k f)" "link n1"
      "if j < length (drop k f) then got n1 = got n @ take j (drop k f) \<and> rx n1 = [] \<and> regs n1 = regs n
       else rtu_answers slave held readable (got n @ drop k f) (regs n) (rx n1) (regs n1)"
    using write_part [OF less.prems(1,2) d(1,2)] by blast
  have s: "windmi_serial_write os (drop k f) p n = (int j, n1)"
    using p w(1) d(1) fd_valid by (simp add: windmi_serial_write_def SerialPort_write_def)
  show ?case
  proof (cases "j < length (drop k f)")
    case True
    then have k: "k + j < 8" using less.prems(4) by simp
    have g: "got n1 = take (k + j) f" using True w(5) less.prems(5) by (simp add: take_add)
    have "8 - (k + j) < 8 - k" using w(2) less.prems(6) by simp
    from less.hyps [OF this w(4) _ less.prems(3,4) g k] True w(5) less.prems(7)
    show ?thesis using s w(2) less.prems(4,6) by (subst serial_write_all.simps) simp
  next
    case False
    then have "k + j = 8" using w(3) less.prems(4,6) by simp
    then have "serial_write_all os p f (k + j) n1 = (True, n1)"
      using less.prems(4) by (subst serial_write_all.simps) simp
    then have "serial_write_all os p f k n = (True, n1)"
      using s w(2) less.prems(4,6) by (subst serial_write_all.simps) simp
    with False w(4,5) d(3) less.prems(7) show ?thesis by auto
  qed
qed

lemma read_all_link:
  assumes "link n" "rx n = ys @ zs" "length acc + length ys = want" "open_port p"
  shows "\<exists>n'. serial_read_all os p t want acc n = (Some (acc @ ys), n') \<and> link n' \<and> rx n' = zs \<and> regs n' = regs n"
  using assms
proof (induction "length ys" arbitrary: n ys acc rule: less_induct)
  case less
  show ?case
  proof (cases "ys = []")
    case True
    then show ?thesis using less.prems by (subst serial_read_all.simps) simp
  next
    case False
    obtain q where p: "p = Some q" "sp_fd q = fd" "sp_open q" using less.prems(4) by (auto simp: open_port_def)
    from False have k: "0 < want - length acc" "rx n \<noteq> []" "length ys = want - length acc" using less.prems by auto
    obtain bs n1 where r: "os_read os fd (want - length acc) n = (Data bs, n1)" "bs \<noteq> []" "length bs \<le> want - length acc"
        "rx n = bs @ rx n1" "link n1" "regs n1 = regs n"
      using read_rx [OF less.prems(1) k(2,1)] by auto
    then have "bs @ rx n1 = ys @ zs" using less.prems(2) by simp
    then have "bs = take (length bs) ys" "rx n1 = drop (length bs) ys @ zs"
      using r(3) k(3) by (auto simp: append_eq_conv_conj)
    then obtain ys1 where ys: "ys = bs @ ys1" "rx n1 = ys1 @ zs" by (metis append_take_drop_id)
    have "length ys1 < length ys" using ys(1) r(2) by (cases bs) auto
    moreover have "length (acc @ bs) + length ys1 = want" using less.prems(3) ys(1) by simp
    ultimately obtain n' where n': "serial_read_all os p t want (acc @ bs) n1 = (Some ((acc @ bs) @ ys1), n')"
        "link n'" "rx n' = zs" "regs n' = regs n1"
      using less.hyps [of ys1 n1 "acc @ bs"] r(5) ys(2) less.prems(4) by blast
    have "windmi_serial_read os (want - length acc) t p n = ((int (length bs), bs), n1)"
      using p k r(1) fd_valid select_rx [OF less.prems(1)] by (simp add: windmi_serial_read_def SerialPort_read_def)
    with n' r ys k show ?thesis by (subst serial_read_all.simps) simp
  qed
qed

abbreviation on_line :: "modbus_serial_client_t \<Rightarrow> bool" where
  "on_line c \<equiv> sc_connected c \<and> open_port (sc_port c) \<and> sc_slave_id c = slave"

lemma open_port_some: "open_port p \<Longrightarrow> p \<noteq> None"
  by (auto simp: open_port_def)

lemma send_line:
  assumes "link n" "on_line c" "length f = 8"
  obtains n1 where "link n1" "serial_send_frame os f (c, n) = (True, n1)"
    "rtu_answers slave held readable f (regs n) (rx n1) (regs n1)"
proof -
  have f: "windmi_serial_flush os (sc_port c) n = os_tcflush os fd TCIFLUSH n"
    using assms(2) fd_valid by (auto simp: windmi_serial_flush_def SerialPort_flush_def open_port_def)
  obtain n1 where "serial_write_all os (sc_port c) f 0 (os_tcflush os fd TCIFLUSH n) = (True, n1)" "link n1"
      "rtu_answers slave held readable f (regs n) (rx n1) (regs n1)"
    using write_all_link [of "os_tcflush os fd TCIFLUSH n" "sc_port c" f 0 "regs n"] flush_rx [OF assms(1)] assms(2,3) by auto
  with assms f open_port_some [of "sc_port c"] show thesis
    by (intro that [of n1]) (auto simp: serial_send_frame_def)
qed

lemma receive_line:
  assumes "link n" "rx n = ys @ zs" "length ys = want" "ys \<noteq> []" "on_line c"
  obtains n' where "serial_receive_exact os want t c n = (Some ys, n')" "link n'" "rx n' = zs" "regs n' = regs n"
  using read_all_link [OF assms(1,2), of "[]" want "sc_port c" t] assms(3-5) open_port_some [of "sc_port c"]
  by (auto simp: serial_receive_exact_def)

lemma read_line:
  assumes "link n" "on_line c" "a \<in> readable"
  shows "\<exists>v n'. modbus_serial_read_register os a (c, n) = Some (Some v, c, n') \<and> link n' \<and>
    (\<forall>s \<in> held. regs n' s = regs n s) \<and> (a \<in> held \<longrightarrow> v = regs n a)"
proof -
  obtain n1 where n1: "link n1" "serial_send_frame os (read_request slave a) (c, n) = (True, n1)"
      "rtu_answers slave held readable (read_request slave a) (regs n) (rx n1) (regs n1)"
    using send_line [OF assms(1,2), of "read_request slave a"] by auto
  obtain v where v: "rx n1 = [slave, 3, 2] @ value_tail slave v" "\<forall>s \<in> held. regs n1 s = regs n s"
      "a \<in> held \<longrightarrow> v = regs n a"
    using n1(3) assms(3) by (rule rtu_answers_read)
  obtain n2 where n2: "serial_receive_exact os 3 2000 c n1 = (Some [slave, 3, 2], n2)" "link n2"
      "rx n2 = value_tail slave v @ []" "regs n2 = regs n1"
    using receive_line [OF n1(1) v(1), of 3 c 2000] assms(2) by auto
  have t: "value_tail slave v \<noteq> []" using value_response(2) [of slave v] by auto
  obtain n3 where n3: "serial_receive_exact os 4 2000 c n2 = (Some (value_tail slave v), n3)" "link n3" "regs n3 = regs n2"
    using receive_line [OF n2(2,3) value_response(2) t assms(2), of 2000] by auto
  have "modbus_serial_read_register os a (c, n) = Some (Some v, c, n3)"
    using assms(2) n1(2) n2(1) n3(1)
    by (simp add: modbus_serial_read_register_def modbus_serial_read_write_registers_internal_def request_buffers
        Let_def value_response)
  with v n2 n3 show ?thesis by auto
qed

lemma read_line_refused:
  assumes "link n" "on_line c" "a \<notin> readable"
  shows "\<exists>n'. modbus_serial_read_register os a (c, n) = Some (None, c, n') \<and> link n' \<and> (\<forall>s \<in> held. regs n' s = regs n s)"
proof -
  obtain n1 where n1: "link n1" "serial_send_frame os (read_request slave a) (c, n) = (True, n1)"
      "rtu_answers slave held readable (read_request slave a) (regs n) (rx n1) (regs n1)"
    using send_line [OF assms(1,2), of "read_request slave a"] by auto
  obtain e t where e: "rx n1 = [slave, 0x83, e] @ t" "length t = 2" "\<forall>s \<in> held. regs n1 s = regs n s"
    using n1(3) assms(3) by (rule rtu_answers_refused)
  obtain n2 where n2: "serial_receive_exact os 3 2000 c n1 = (Some [slave, 0x83, e], n2)" "link n2" "rx n2 = t @ []" "regs n2 = regs n1"
    using receive_line [OF n1(1) e(1), of 3 c 2000] assms(2) by auto
  have t: "t \<noteq> []" using e(2) by auto
  obtain n3 where n3: "serial_receive_exact os 2 2000 c n2 = (Some t, n3)" "link n3" "regs n3 = regs n2"
    using receive_line [OF n2(2,3) e(2) t assms(2), of 2000] by auto
  have "modbus_serial_read_register os a (c, n) = Some (None, c, n3)"
    using assms(2) n1(2) n2(1) n3(1)
    by (simp add: modbus_serial_read_register_def modbus_serial_read_write_registers_internal_def request_buffers Let_def)
  with e n2 n3 show ?thesis by auto
qed

lemma write_line:
  assumes "link n" "on_line c" "a \<in> held"
  shows "\<exists>n'. modbus_serial_write_register os a w (c, n) = Some (True, c, n') \<and> link n' \<and>
    (\<forall>s \<in> held. regs n' s = ((regs n)(a := w)) s)"
proof -
  obtain n1 where n1: "link n1" "serial_send_frame os (write_request slave a w) (c, n) = (True, n1)"
      "rtu_answers slave held readable (write_request slave a w) (regs n) (rx n1) (regs n1)"
    using send_line [OF assms(1,2), of "write_request slave a w"] by auto
  have r: "rx n1 = write_request slave a w @ []" "\<forall>s \<in> held. regs n1 s = ((regs n)(a := w)) s"
    using rtu_answers_write [OF n1(3) assms(3)] by auto
  have f: "write_request slave a w \<noteq> []" by (simp add: write_request_def with_crc_def)
  obtain n2 where n2: "serial_receive_exact os 8 2000 c n1 = (Some (write_request slave a w), n2)" "link n2" "regs n2 = regs n1"
    using receive_line [OF n1(1) r(1) length_request(2) f assms(2), of 2000] by auto
  obtain v n3 where n3: "modbus_serial_read_register os a (c, n2) = Some (Some v, c, n3)" "link n3"
      "\<forall>s \<in> held. regs n3 s = regs n2 s" "a \<in> held \<longrightarrow> v = regs n2 a"
    using read_line [OF n2(2) assms(2), of a] assms(3) held_readable by blast
  have "v = w" using n3(4) n2(3) assms(3) bspec [OF r(2) assms(3)] by simp
  then have "serial_write_attempt os a w (c, n) = Some (True, c, n3)"
    using assms(2) n1(2) n2(1) n3(1) by (simp add: serial_write_attempt_def request_buffers Let_def write_response_echo)
  then have "modbus_serial_write_register os a w (c, n) = Some (True, c, n3)"
    using assms(2) by (simp add: modbus_serial_write_register_def numeral_3_eq_3)
  moreover have "\<forall>s \<in> held. regs n3 s = ((regs n)(a := w)) s"
    using r(2) n2(3) n3(3) by simp
  ultimately show ?thesis using n3(2) by blast
qed

end

definition ser_ready :: "u8 \<Rightarrow> int \<Rightarrow> ('n \<Rightarrow> bool) \<Rightarrow> 'n ModbusSerialClient \<Rightarrow> bool" where
  "ser_ready slave fd link m \<longleftrightarrow>
     (\<exists>c q. c_client m = Some c \<and> sc_connected c \<and> sc_port c = Some q \<and> sp_fd q = fd \<and> sp_open q \<and>
        sc_slave_id c = slave) \<and> link (line m)"

sublocale rtu_line \<subseteq> held_registers "serial_ops os" "ser_ready slave fd link" "\<lambda>m. regs (line m)" held readable
proof unfold_locales
  fix m :: "'n ModbusSerialClient" and a v m' and r :: "ModbusException + i16"
  assume m: "ser_ready slave fd link m"
  then obtain c where c: "c_client m = Some c" "on_line c" "link (line m)"
    by (auto simp: ser_ready_def open_port_def)
  then have ready: "ser_ready slave fd link (m\<lparr>c_client := Some c, line := n\<rparr>)"
      "ser_ready slave fd link (m\<lparr>c_client := Some c, line := n, last_error := e\<rparr>)" if "link n" for n e
    using that by (auto simp: ser_ready_def open_port_def)
  show "m_isConnected (serial_ops os) m"
    using c by (simp add: serial_ops_def ser_isConnected_def modbus_serial_client_is_connected_def)
  show "a \<in> readable \<Longrightarrow> \<exists>v m'. m_readRegister (serial_ops os) a m = (Inr v, m')"
    using read_line [OF c(3,2)] c(1) by (fastforce simp: serial_ops_def ser_readRegister_def)
  show "ser_ready slave fd link m' \<and> (\<forall>s \<in> held. regs (line m') s = regs (line m) s)"
    if "m_readRegister (serial_ops os) a m = (r, m')"
    using that read_line [OF c(3,2), of a] read_line_refused [OF c(3,2), of a] c ready
    by (cases "a \<in> readable") (auto simp: serial_ops_def ser_readRegister_def)
  show "v = regs (line m) a" if "a \<in> held" "m_readRegister (serial_ops os) a m = (Inr v, m')"
    using that read_line [OF c(3,2), of a] subsetD [OF held_readable, of a] c
    by (auto simp: serial_ops_def ser_readRegister_def)
  show "\<exists>m'. m_writeRegister (serial_ops os) a v m = (Inr (), m') \<and> ser_ready slave fd link m' \<and>
      (\<forall>s \<in> held. regs (line m') s = ((regs (line m))(a := v)) s)" if "a \<in> held"
    using write_line [OF c(3,2) that, of v] c ready
    by (auto simp: serial_ops_def ser_writeRegister_def simp del: fun_upd_apply)
qed

locale serial_heat_pump = rtu_line os slave fd link rx got regs held readable
  for os :: "'n tty_os" and slave fd link rx got regs held readable +
  assumes line_held:
      "{REG_RUNNING_MODE, REG_DHW_TARGET, REG_HEATING_TARGET, REG_DHW_PRIORITY, REG_OCCUPANCY_MODE} \<subseteq> held"
    and line_readable:
      "{REG_OUTDOOR_TEMP, REG_INDOOR_TEMP, REG_LEAVING_WATER_TEMP, REG_ENTERING_WATER_TEMP,
        REG_DHW_TANK_TEMP, REG_RUNNING_MODE, REG_RUNNING_STATUS, REG_DHW_TARGET, REG_HEATING_TARGET,
        REG_DHW_PRIORITY} \<subseteq> readable"

sublocale serial_heat_pump \<subseteq> heat_pump "serial_ops os" "ser_ready slave fd link" "\<lambda>m. regs (line m)" held readable
proof unfold_locales
  show "ser_ready slave fd link m'" if "ser_ready slave fd link m" "m_connect (serial_ops os) m = (b, m')" for m b m'
    using that by (auto simp: serial_ops_def ser_connect_def modbus_serial_client_connect_def ser_ready_def Let_def)
qed (use line_held line_readable in simp_all)

end
