(* ===== verification/Serial_Correct.thy ===== *)
theory Serial_Correct
  imports Serial_Client
begin

text \<open>
  What the serial client guarantees: the settings and the port of a client are well formed at any
  time, and the control loop converges over a working line as it does in the simulation.
\<close>

section \<open>A line\<close>

text \<open>
  A line with one device on it, for the concrete runs: both directions move at most \<open>Suc chunk\<close>
  bytes at a time, and the device acts on a request when its eighth byte arrives.
\<close>

record wire =
  wr_rx :: "u8 list"
  wr_got :: "u8 list"
  wr_regs :: "u16 \<Rightarrow> i16"

definition wire_write :: "u8 \<Rightarrow> u16 list \<Rightarrow> nat \<Rightarrow> u8 list \<Rightarrow> wire \<Rightarrow> int \<times> wire" where
  "wire_write slave served chunk f w =
     (let j = min (length f) (Suc chunk); g = wr_got w @ take j f
      in (int j,
          if length g < 8 then w\<lparr>wr_got := g\<rparr>
          else case rtu_device slave served g (wr_regs w) of
            (bs, r) \<Rightarrow> \<lparr>wr_rx = wr_rx w @ bs, wr_got = [], wr_regs = r\<rparr>))"

definition raw_tty :: termios where
  "raw_tty = \<lparr>cs8 = True, cstopb = False, parenb = False, parodd = False, crtscts = False,
     ixon = False, ixoff = False, ixany = False, vmin = 1, vtime = 0, speed = 9600\<rparr>"

definition wire_tty :: "u8 \<Rightarrow> u16 list \<Rightarrow> nat \<Rightarrow> wire tty_os" where
  "wire_tty slave served chunk =
     \<lparr>os_open = (\<lambda>d w. (5, w)), os_close = (\<lambda>fd w. w), os_tcgetattr = (\<lambda>fd w. Some raw_tty),
      os_cfmakeraw = (\<lambda>t. t), os_cfsetspeed = (\<lambda>s t. Some (t\<lparr>speed := s\<rparr>)), os_tcsetattr = (\<lambda>fd t w. (True, w)),
      os_blocking = (\<lambda>fd w. w), os_tcflush = (\<lambda>fd q w. w\<lparr>wr_rx := [], wr_got := []\<rparr>),
      os_select = (\<lambda>fd t w. (if wr_rx w = [] then 0 else 1, w)),
      os_read = (\<lambda>fd k w. let j = min k (Suc chunk) in (Data (take j (wr_rx w)), w\<lparr>wr_rx := drop j (wr_rx w)\<rparr>)),
      os_write = (\<lambda>fd f w. wire_write slave served chunk f w)\<rparr>"

lemma wire_write_part:
  assumes "wr_rx w = []" "f \<noteq> []" "length (wr_got w @ f) = 8"
  shows "\<exists>j w'. wire_write slave served chunk f w = (int j, w') \<and> 0 < j \<and> j \<le> length f \<and>
    (if j < length f then wr_got w' = wr_got w @ take j f \<and> wr_rx w' = [] \<and> wr_regs w' = wr_regs w
     else rtu_answers slave (set served) (set served) (wr_got w @ f) (wr_regs w) (wr_rx w') (wr_regs w'))"
proof -
  let ?j = "min (length f) (Suc chunk)"
  obtain bs r where d: "rtu_device slave served (wr_got w @ f) (wr_regs w) = (bs, r)"
    by (cases "rtu_device slave served (wr_got w @ f) (wr_regs w)")
  have j: "0 < ?j" "?j \<le> length f" using assms(2) by auto
  show ?thesis
  proof (cases "?j < length f")
    case True
    then have "length (wr_got w @ take ?j f) < 8" using assms(3) by auto
    then have "wire_write slave served chunk f w = (int ?j, w\<lparr>wr_got := wr_got w @ take ?j f\<rparr>)"
      by (simp add: wire_write_def Let_def)
    with True j assms(1) show ?thesis by (intro exI [of _ ?j] exI conjI) auto
  next
    case False
    then have e: "?j = length f" by simp
    then have "wire_write slave served chunk f w = (int (length f), \<lparr>wr_rx = bs, wr_got = [], wr_regs = r\<rparr>)"
      using assms(1,3) d unfolding wire_write_def Let_def e by simp
    with assms(2) rtu_device_answers [OF d] show ?thesis
      by (intro exI [of _ "length f"] exI conjI) auto
  qed
qed

lemma wire_tty_sel [simp]:
  "os_tcflush (wire_tty slave served chunk) fd q w = w\<lparr>wr_rx := [], wr_got := []\<rparr>"
  "os_select (wire_tty slave served chunk) fd t w = (if wr_rx w = [] then 0 else 1, w)"
  "os_read (wire_tty slave served chunk) fd k w =
     (let j = min k (Suc chunk) in (Data (take j (wr_rx w)), w\<lparr>wr_rx := drop j (wr_rx w)\<rparr>))"
  "os_write (wire_tty slave served chunk) fd f w = wire_write slave served chunk f w"
  by (simp_all add: wire_tty_def)

interpretation wl: rtu_line "wire_tty slave served chunk" slave 5 "\<lambda>w. True" wr_rx wr_got wr_regs "set served" "set served"
  for slave :: u8 and served :: "u16 list" and chunk :: nat
proof unfold_locales
  fix w :: wire and f :: "u8 list"
  assume "wr_rx w = []" "f \<noteq> []" "length (wr_got w @ f) = 8"
  from wire_write_part [OF this] show "\<exists>j w'. os_write (wire_tty slave served chunk) 5 f w = (int j, w') \<and> 0 < j \<and> j \<le> length f \<and> True \<and>
      (if j < length f then wr_got w' = wr_got w @ take j f \<and> wr_rx w' = [] \<and> wr_regs w' = wr_regs w
       else rtu_answers slave (set served) (set served) (wr_got w @ f) (wr_regs w) (wr_rx w') (wr_regs w'))"
    by simp
qed (auto simp: Let_def)

interpretation wlp: serial_heat_pump "wire_tty slave pump_registers chunk" slave 5 "\<lambda>w. True" wr_rx wr_got wr_regs
    "set pump_registers" "set pump_registers"
  for slave :: u8 and chunk :: nat
  by unfold_locales (simp_all add: pump_registers_def)

section \<open>Well-formed clients\<close>

text \<open>
  The settings of a client are ones the port accepts, its path fits, and the client is connected
  only with an open port. A client that has lost its connection may still hold an open port.
\<close>

definition settings_ok :: "modbus_serial_client_t \<Rightarrow> bool" where
  "settings_ok c \<longleftrightarrow>
     length (sc_device c) < 256 \<and> baud_speed (sc_baud c) \<noteq> None \<and>
     sc_parity c \<in> {CHR ''N'', CHR ''E'', CHR ''O''} \<and> sc_stop_bits c \<in> {1, 2}"

definition serial_wf :: "modbus_serial_client_t \<Rightarrow> bool" where
  "serial_wf c \<longleftrightarrow> settings_ok c \<and> (case sc_port c of None \<Rightarrow> \<not> sc_connected c | Some p \<Rightarrow> port_inv p \<and> sp_open p)"

lemma settings_ok_update [simp]:
  "settings_ok (c\<lparr>sc_port := p\<rparr>) = settings_ok c" "settings_ok (c\<lparr>sc_connected := b\<rparr>) = settings_ok c"
  by (simp_all add: settings_ok_def)

lemma serial_wf_down: "serial_wf c \<Longrightarrow> serial_wf (c\<lparr>sc_connected := False\<rparr>)"
  by (auto simp: serial_wf_def split: option.splits)

lemma c_toupper_parity [simp]:
  "c_toupper (CHR ''N'') = CHR ''N''" "c_toupper (CHR ''E'') = CHR ''E''" "c_toupper (CHR ''O'') = CHR ''O''"
  "c_toupper (CHR ''n'') = CHR ''N''" "c_toupper (CHR ''e'') = CHR ''E''" "c_toupper (CHR ''o'') = CHR ''O''"
  by code_simp+

lemma toupper_parity: "valid_parity p \<Longrightarrow> c_toupper p \<in> {CHR ''N'', CHR ''E'', CHR ''O''}"
  by (auto simp: valid_parity_def)

lemma baud_speed_iff: "baud_speed b \<noteq> None \<longleftrightarrow> b \<in> set [9600, 19200, 38400, 57600, 115200]"
  by (simp add: baud_speed_def)

lemma serial_create_wf:
  assumes "modbus_serial_client_create memory device baud parity stop_bits rs485 slave = Some c"
  shows "serial_wf c \<and> \<not> sc_connected c"
proof -
  obtain path where d: "device = Some path"
    using assms by (cases device) (simp_all add: modbus_serial_client_create_def)
  have t: "length path < 256" "baud \<in> set [9600, 19200, 38400, 57600, 115200]" "valid_parity parity"
      "stop_bits = 1 \<or> stop_bits = 2" "memory"
    using assms unfolding modbus_serial_client_create_def d option.case by (meson not_le option.distinct(1))+
  then have "c = \<lparr>sc_device = path, sc_baud = baud, sc_parity = c_toupper parity, sc_stop_bits = stop_bits,
      sc_rs485_enabled = rs485, sc_slave_id = slave, sc_port = None, sc_connected = False\<rparr>"
    using assms unfolding modbus_serial_client_create_def d option.case by auto
  moreover have "baud_speed baud \<noteq> None" using t(2) by (simp only: baud_speed_iff)
  ultimately show ?thesis using t toupper_parity [OF t(3)] by (simp add: serial_wf_def settings_ok_def)
qed

lemma windmi_serial_open_wf:
  assumes "windmi_serial_open os device baud parity stop_bits rs485 n = (Some p, n')"
  shows "port_inv p \<and> sp_open p"
  using assms SerialPort_open_cases [of os device baud parity stop_bits rs485 SerialPort_init n]
  by (auto simp: windmi_serial_open_def split: prod.splits if_splits)

lemma serial_connect_wf:
  assumes "serial_wf c" "modbus_serial_client_connect os (c, n) = (b, c', n')"
  shows "serial_wf c' \<and> sc_connected c' = (b \<or> sc_connected c)"
  using assms windmi_serial_open_wf
  by (fastforce simp: modbus_serial_client_connect_def serial_wf_def Let_def split: prod.splits if_splits option.splits)

lemma serial_disconnect_wf:
  assumes "serial_wf c" "modbus_serial_client_disconnect os (c, n) = (c', n')"
  shows "serial_wf c' \<and> \<not> sc_connected c' \<and> sc_port c' = None"
  using assms by (auto simp: modbus_serial_client_disconnect_def serial_wf_def split: if_splits option.splits)

lemma serial_internal_wf:
  assumes "serial_wf c" "modbus_serial_read_write_registers_internal os a count single (c, n) = Some (r, c', n')"
  shows "serial_wf c'"
proof (cases "sc_connected c \<and> count \<noteq> 0")
  case True
  note run = assms(2) [unfolded modbus_serial_read_write_registers_internal_def Let_def fst_conv snd_conv]
  obtain b n1 where s: "serial_send_frame os (modbus_rtu_build_read_frame (replicate 8 0) (sc_slave_id c) a
      (if single then 1 else count)) (c, n) = (b, n1)"
    by fastforce
  obtain ho n2 where h: "serial_receive_exact os 3 2000 c n1 = (ho, n2)"
    by (cases "serial_receive_exact os 3 2000 c n1")
  show ?thesis
  proof (cases "b \<and> ho \<noteq> None")
    case True': True
    then obtain header where "ho = Some header" by auto
    with run True True' s h assms(1) serial_wf_down [OF assms(1)] show ?thesis
      by (auto split: prod.splits option.splits if_splits)
  next
    case False
    with run True s h serial_wf_down [OF assms(1)] show ?thesis by (cases b; cases ho) auto
  qed
qed (use assms in \<open>auto simp: modbus_serial_read_write_registers_internal_def split: if_splits\<close>)

lemma serial_read_wf:
  "serial_wf c \<Longrightarrow> modbus_serial_read_register os a (c, n) = Some (r, c', n') \<Longrightarrow> serial_wf c'"
  by (auto simp: modbus_serial_read_register_def split: bind_splits dest: serial_internal_wf)

lemma serial_attempt_wf:
  assumes "serial_wf c" "serial_write_attempt os a v (c, n) = Some (b, c', n')"
  shows "serial_wf c'"
proof -
  let ?f = "modbus_rtu_build_write_frame (replicate 8 0) (sc_slave_id c) a v"
  obtain d n1 where s: "serial_send_frame os ?f (c, n) = (d, n1)" by (cases "serial_send_frame os ?f (c, n)")
  obtain ro n2 where r: "serial_receive_exact os 8 2000 c n1 = (ro, n2)" by (cases "serial_receive_exact os 8 2000 c n1")
  show ?thesis
    using assms s r serial_wf_down [OF assms(1)] serial_read_wf [OF assms(1), of os a n2]
    by (cases d; cases ro) (auto simp: serial_write_attempt_def Let_def split: bind_splits if_splits)
qed

lemma serial_retries_wf:
  assumes "serial_wf c" "serial_write_retries k os a v (c, n) = Some (b, c', n')"
  shows "serial_wf c'"
  using assms
proof (induction k arbitrary: c n)
  case (Suc k)
  obtain b1 c1 n1 where w: "serial_write_attempt os a v (c, n) = Some (b1, c1, n1)"
    using Suc.prems(2) by (cases "serial_write_attempt os a v (c, n)") auto
  from serial_attempt_wf [OF Suc.prems(1) w] Suc w show ?case by (cases b1) auto
qed simp

lemma serial_write_wf:
  "serial_wf c \<Longrightarrow> modbus_serial_write_register os a v (c, n) = Some (b, c', n') \<Longrightarrow> serial_wf c'"
  by (auto simp: modbus_serial_write_register_def split: if_splits dest: serial_retries_wf)

text \<open>A read of one register stays within the buffers whatever arrives.\<close>

lemma serial_read_some: "\<exists>r. modbus_serial_read_register os a (c, n) = Some r"
  by (auto simp: modbus_serial_read_register_def modbus_serial_read_write_registers_internal_def Let_def
      split: prod.splits option.splits bind_splits)

text \<open>The states a program can bring an object into by calls of its member functions.\<close>

inductive ser_reachable :: "'n tty_os \<Rightarrow> 'n ModbusSerialClient \<Rightarrow> bool" for os where
  init: "ModbusSerialClient_init memory device baud parity stop_bits rs485 slave n = Inr m \<Longrightarrow> ser_reachable os m"
| connect: "ser_reachable os m \<Longrightarrow> ser_connect os m = (b, m') \<Longrightarrow> ser_reachable os m'"
| disconnect: "ser_reachable os m \<Longrightarrow> ser_reachable os (ser_disconnect os m)"
| read_reg: "ser_reachable os m \<Longrightarrow> ser_readRegister os a m = (r, m') \<Longrightarrow> ser_reachable os m'"
| write_reg: "ser_reachable os m \<Longrightarrow> ser_writeRegister os a v m = (w, m') \<Longrightarrow> ser_reachable os m'"
| flush: "ser_reachable os m \<Longrightarrow> ser_reachable os (ser_flushBuffer os m)"
| other: "ser_reachable os m \<Longrightarrow> ser_reachable os (m\<lparr>line := n\<rparr>)"

lemma ser_reachable_wf:
  assumes "ser_reachable os m"
  shows "\<exists>c. c_client m = Some c \<and> serial_wf c"
  using assms
proof (induction rule: ser_reachable.induct)
  case (init memory device baud parity stop_bits rs485 slave n m)
  then show ?case
    by (auto simp: ModbusSerialClient_init_def split: if_splits option.splits dest: serial_create_wf)
next
  case (connect m b m')
  then obtain c where c: "c_client m = Some c" "serial_wf c" by blast
  obtain b1 c1 n1 where r: "modbus_serial_client_connect os (c, line m) = (b1, c1, n1)" by (rule prod_cases3)
  from serial_connect_wf [OF c(2) r] connect.hyps(2) c(1) r show ?case
    by (auto simp: ser_connect_def Let_def split: if_splits)
next
  case (disconnect m)
  then show ?case by (auto simp: ser_disconnect_def split: prod.splits dest: serial_disconnect_wf)
next
  case (read_reg m a r m')
  then show ?case
    by (auto simp: ser_readRegister_def split: option.splits prod.splits dest: serial_read_wf)
next
  case (write_reg m a v w m')
  then show ?case
    by (auto simp: ser_writeRegister_def split: option.splits prod.splits bool.splits dest: serial_write_wf)
qed (auto simp: ser_flushBuffer_def)

context serial_heat_pump
begin

lemma as_heat_pump: "heat_pump (serial_ops os) (ser_ready slave fd link) (\<lambda>m. regs (line m)) held readable"
  by unfold_locales

end

section \<open>Properties\<close>

text \<open>
  C11. One iteration of the control loop brings a device on a serial line in line with the working
  mode: whatever valid commands are waiting, if the line moves bytes, in pieces of any size, between
  the port and a device that answers the protocol, then the iteration returns and the registers of
  the device are as the table of the working mode says, with the same exception as over the network: a
  priority register that differed from the remembered priority before, and that no waiting command
  set, may be left as it was. The mode register must hold one of the values 0 to 2 and the saved targets be
  in their ranges or as the device reported them.
\<close>

theorem serial_iteration_converges:
  assumes "serial_heat_pump os slave fd link rx got regs held readable"
    and "modbus_client s = Some m" "ser_ready slave fd link m"
    and "sint (regs (line m) REG_RUNNING_MODE) \<in> {0, 1, 2}"
    and "target_ok UNIV 40 63 (saved_dhw_target s)" "target_ok UNIV 25 63 (saved_heating_target s)"
    and "\<And>q. cmd_queue s = Some q \<Longrightarrow> queue_valid q"
  shows "\<exists>s' m'. loop_iteration (serial_ops os) stops s = Some s' \<and> modbus_client s' = Some m' \<and>
    ser_ready slave fd link m' \<and> settings_table (regs (line m')) s' \<and>
    (mode_table (regs (line m')) s' \<or> stale_priority (regs (line m)) s (regs (line m')) s')"
  using assms(2-) by (rule heat_pump.iteration_meets_table [OF serial_heat_pump.as_heat_pump [OF assms(1)]])

abbreviation serial_pump :: "wire ModbusSerialClient" where
  "serial_pump \<equiv>
     \<lparr>c_client = Some \<lparr>sc_device = ''/dev/ttyUSB0'', sc_baud = 9600, sc_parity = CHR ''N'', sc_stop_bits = 1,
        sc_rs485_enabled = True, sc_slave_id = 11, sc_port = Some \<lparr>sp_fd = 5, sp_open = True\<rparr>, sc_connected = True\<rparr>,
      last_error = [],
      line = \<lparr>wr_rx = [7], wr_got = [],
        wr_regs = (\<lambda>a. if a = REG_RUNNING_MODE \<or> a = REG_DHW_PRIORITY then 0 else 400)\<rparr>\<rparr>"

theorem serial_iteration_converges_witness:
  "\<exists>s' m'. loop_iteration (serial_ops (wire_tty 11 pump_registers 2)) (\<lambda>n. False)
      (ControlLoop_init\<lparr>modbus_client := Some serial_pump, cmd_queue := Some demo_queue\<rparr>) = Some s' \<and>
    modbus_client s' = Some m' \<and> ser_ready 11 5 (\<lambda>w. True) m' \<and> mode_table (wr_regs (line m')) s'"
proof -
  let ?s = "ControlLoop_init\<lparr>modbus_client := Some serial_pump, cmd_queue := Some demo_queue\<rparr>"
  have "serial_heat_pump (wire_tty 11 pump_registers 2) 11 5 (\<lambda>w. True) wr_rx wr_got wr_regs
      (set pump_registers) (set pump_registers)"
    by (rule wlp.serial_heat_pump_axioms)
  from serial_iteration_converges [OF this, where s = ?s and m = serial_pump and stops = "\<lambda>n. False"] show ?thesis
    using demo_queue_not_stale [of ?s] by (auto simp: ControlLoop_init_def target_ok_Fin demo_queue_valid ser_ready_def)
qed

text \<open>
  C33. A serial client is well formed whatever calls are made on it and whatever the operating system
  answers: its settings are a baud rate, parity and number of stop bits that the port accepts, its
  device path fits the 256-byte member, and it is connected only while it holds an open port with a
  descriptor. A read of a register then never writes outside its buffers.
\<close>

theorem serial_client_wf:
  assumes "ser_reachable os m"
  shows "\<exists>c. c_client m = Some c \<and> serial_wf c \<and> modbus_serial_read_register os a (c, line m) \<noteq> None"
  using ser_reachable_wf [OF assms] serial_read_some by fastforce

theorem serial_client_wf_witness:
  "\<exists>c. c_client (snd (ser_connect (wire_tty 11 pump_registers 2) (projr
      (ModbusSerialClient_init True ''/dev/ttyUSB0'' 9600 CHR ''e'' 1 False 11 (line serial_pump))))) = Some c \<and> serial_wf c \<and>
    modbus_serial_read_register (wire_tty 11 pump_registers 2) 1
      (c, line (snd (ser_connect (wire_tty 11 pump_registers 2) (projr
        (ModbusSerialClient_init True ''/dev/ttyUSB0'' 9600 CHR ''e'' 1 False 11 (line serial_pump)))))) \<noteq> None"
proof (rule serial_client_wf [OF ser_reachable.connect [OF ser_reachable.init prod.collapse [symmetric]]])
  show "ModbusSerialClient_init True ''/dev/ttyUSB0'' 9600 CHR ''e'' 1 False 11 (line serial_pump) =
    Inr (projr (ModbusSerialClient_init True ''/dev/ttyUSB0'' 9600 CHR ''e'' 1 False 11 (line serial_pump)))"
    by (simp add: ModbusSerialClient_init_def modbus_serial_client_create_def valid_parity_def)
qed

end
