(* ===== verification/Main_Program.thy ===== *)
theory Main_Program
  imports Config_Store Selftest Tcp_Correct Serial_Correct Logger
begin

text \<open>
  \<open>main\<close> of \<open>src/main.cpp\<close> around the threads: the command line, the choice of the client, the
  self-test run and the switching off at shutdown, with the usage text and the setup of the logger. Error
  texts are left out: what counts is the exit code. The start of the control loop is \<open>boot\<close>, and the loading and saving of the
  settings is in \<open>Config_Store\<close>.
\<close>

section \<open>The command line\<close>

definition parse_log_level :: "string \<Rightarrow> LogLevel option" where
  "parse_log_level level_str =
     (if level_str = ''TRACE'' \<or> level_str = ''Trace'' then Some Trace
      else if level_str = ''DEBUG'' \<or> level_str = ''Debug'' then Some Debug
      else if level_str = ''INFO'' \<or> level_str = ''Info'' then Some Info
      else if level_str = ''WARN'' \<or> level_str = ''Warn'' then Some Warn
      else if level_str = ''ERROR'' \<or> level_str = ''Error'' then Some Error
      else if level_str = ''FATAL'' \<or> level_str = ''Fatal'' then Some Fatal
      else None)"

abbreviation WEB_SERVER_PORT :: int where "WEB_SERVER_PORT \<equiv> 8080"
abbreviation SERIAL_DEFAULT_BAUD :: int where "SERIAL_DEFAULT_BAUD \<equiv> 9600"
abbreviation SERIAL_DEFAULT_PARITY :: char where "SERIAL_DEFAULT_PARITY \<equiv> CHR ''N''"
abbreviation SERIAL_DEFAULT_STOP_BITS :: int where "SERIAL_DEFAULT_STOP_BITS \<equiv> 1"

record options =
  o_modbus_ip :: string
  o_modbus_port :: int
  o_serial_device :: string
  o_baud_rate :: int
  o_parity :: char
  o_stop_bits :: int
  o_rs485_enabled :: bool
  o_serial_config_specified :: bool
  o_web_port :: int
  o_static_dir :: string
  o_log_file_path :: string
  o_log_level :: LogLevel
  o_run_selftest :: bool
  o_demo_mode :: bool
  o_force_lock :: bool
  o_config_path :: string
  o_ip_specified :: bool
  o_port_specified :: bool
  o_serial_specified :: bool

definition default_options :: options where
  "default_options =
     \<lparr>o_modbus_ip = MODBUS_GATEWAY_IP, o_modbus_port = MODBUS_GATEWAY_PORT, o_serial_device = [],
      o_baud_rate = SERIAL_DEFAULT_BAUD, o_parity = SERIAL_DEFAULT_PARITY, o_stop_bits = SERIAL_DEFAULT_STOP_BITS,
      o_rs485_enabled = False, o_serial_config_specified = False, o_web_port = WEB_SERVER_PORT,
      o_static_dir = ''static'', o_log_file_path = [], o_log_level = Info, o_run_selftest = False,
      o_demo_mode = False, o_force_lock = False, o_config_path = [], o_ip_specified = False,
      o_port_specified = False, o_serial_specified = False\<rparr>"

text \<open>One option with the argument that follows it: the new options, or the exit code.\<close>

definition option_with_value :: "string \<Rightarrow> string \<Rightarrow> options \<Rightarrow> (int + options) option" where
  "option_with_value a v opt =
     (if a = ''--ip'' \<or> a = ''-i'' then Some (Inr (opt\<lparr>o_modbus_ip := v, o_ip_specified := True\<rparr>))
      else if a = ''--port'' \<or> a = ''-p'' then Some (Inr (opt\<lparr>o_modbus_port := atoi v, o_port_specified := True\<rparr>))
      else if a = ''--web'' \<or> a = ''-w'' then Some (Inr (opt\<lparr>o_web_port := atoi v\<rparr>))
      else if a = ''--static-dir'' \<or> a = ''-t'' \<or> a = ''--web-dir'' then Some (Inr (opt\<lparr>o_static_dir := v\<rparr>))
      else if a = ''--log-level'' \<or> a = ''-l''
      then Some (case parse_log_level v of None \<Rightarrow> Inl 1 | Some l \<Rightarrow> Inr (opt\<lparr>o_log_level := l\<rparr>))
      else if a = ''--log-file'' \<or> a = ''-o'' then Some (Inr (opt\<lparr>o_log_file_path := v\<rparr>))
      else if a = ''--serial''
      then Some (Inr (opt\<lparr>o_serial_device := v, o_serial_specified := True, o_serial_config_specified := True\<rparr>))
      else if a = ''--baud'' then Some (Inr (opt\<lparr>o_baud_rate := atoi v, o_serial_config_specified := True\<rparr>))
      else if a = ''--parity''
      then Some (if length v \<noteq> 1 \<or> \<not> valid_parity (hd v) then Inl 1
                 else Inr (opt\<lparr>o_parity := c_toupper (hd v), o_serial_config_specified := True\<rparr>))
      else if a = ''--stop-bits''
      then Some (let s = atoi v in if s \<noteq> 1 \<and> s \<noteq> 2 then Inl 1
                 else Inr (opt\<lparr>o_stop_bits := s, o_serial_config_specified := True\<rparr>))
      else if a = ''--config'' then Some (Inr (opt\<lparr>o_config_path := v\<rparr>))
      else None)"

definition option_alone :: "string \<Rightarrow> options \<Rightarrow> options option" where
  "option_alone a opt =
     (if a = ''--selftest'' \<or> a = ''-s'' then Some (opt\<lparr>o_run_selftest := True\<rparr>)
      else if a = ''--demo'' \<or> a = ''-d'' then Some (opt\<lparr>o_demo_mode := True\<rparr>)
      else if a = ''--force'' \<or> a = ''-f'' then Some (opt\<lparr>o_force_lock := True\<rparr>)
      else if a = ''--rs485'' then Some (opt\<lparr>o_rs485_enabled := True, o_serial_config_specified := True\<rparr>)
      else None)"

text \<open>The loop over the arguments behind the program name. The strings of the branches are distinct, so their order does not matter.\<close>

function parse_args :: "string list \<Rightarrow> options \<Rightarrow> int + options" where
  "parse_args [] opt = Inr opt"
| "parse_args (a # rest) opt =
     (if a = ''--help'' \<or> a = ''-h'' then Inl 0
      else case option_alone a opt of
        Some opt \<Rightarrow> parse_args rest opt
      | None \<Rightarrow>
          if rest = [] then Inl 1
          else case option_with_value a (hd rest) opt of
            None \<Rightarrow> Inl 1
          | Some (Inl code) \<Rightarrow> Inl code
          | Some (Inr opt) \<Rightarrow> parse_args (tl rest) opt)"
  by pat_completeness auto
termination
  by (relation "measure (\<lambda>(args, opt). length args)") auto

text \<open>The checks on combinations of options, and the exit code when one fails.\<close>

definition check_options :: "options \<Rightarrow> int option" where
  "check_options opt =
     (if o_serial_specified opt \<and> (o_ip_specified opt \<or> o_port_specified opt) then Some 1
      else if o_serial_specified opt \<and> o_demo_mode opt then Some 1
      else if o_serial_config_specified opt \<and> \<not> o_serial_specified opt then Some 1
      else None)"

text \<open>The lines that \<open>--help\<close> prints, for the name of the program.\<close>

definition usage_text :: "string \<Rightarrow> string list" where
  "usage_text argv0 =
     [''Usage: '' @ argv0 @ '' [options]'',
      ''Options:'',
      ''  -i, --ip <address>      Modbus gateway IP (default: '' @ MODBUS_GATEWAY_IP @ '')'',
      ''  -p, --port <port>       Modbus gateway port (default: '' @ fmt_d MODBUS_GATEWAY_PORT @ '')'',
      ''  -w, --web <port>        Web server HTTP port (default: '' @ fmt_d WEB_SERVER_PORT @ '', demo: 10000)'',
      ''  -t, --static-dir <dir>  Static files directory (default: static)'',
      ''  -l, --log-level <lvl>   Log level: TRACE,DEBUG,INFO,WARN,ERROR,FATAL'',
      ''  -o, --log-file <path>   Log to file (in addition to console)'',
      ''  -f, --force             Force start even if lock is held by stale process'',
      ''  -s, --selftest          Run self-test and exit'',
      ''  -d, --demo              Run in demo mode with simulated Windmi device'',
      ''      --serial <device>   Serial device for Modbus RTU (e.g., /dev/ttyUSB0 or COM3)'',
      ''      --baud <rate>       Baud rate (default: '' @ fmt_d SERIAL_DEFAULT_BAUD @ '')'',
      ''      --parity <N|E|O>    Parity: N(none), E(even), O(odd)'',
      ''      --stop-bits <1|2>   Stop bits: 1 or 2'',
      ''      --rs485             Enable RS-485 direction control'',
      ''      --config <path>     Settings file path (default: ~/.windmi/settings.ini)'']"

text \<open>The logger for the options; \<open>open_file\<close> opens the log file, if it can.\<close>

definition setup_logger :: "(string \<Rightarrow> nat option) \<Rightarrow> options \<Rightarrow> Logger \<Rightarrow> Logger" where
  "setup_logger open_file opt g =
     (let g = setLevel (o_log_level opt) g
      in if o_log_file_path opt \<noteq> [] then addOutput (FileLogOutput (open_file (o_log_file_path opt))) g else g)"

text \<open>The outputs are then the console and, where a log file was asked for and could be opened, that file.\<close>

lemma setup_logger_outputs:
  "lg_outputs (setup_logger open_file opt Logger_init) = ConsoleLogOutput #
     (if o_log_file_path opt = [] then [] else [FileLogOutput (open_file (o_log_file_path opt))])"
  "lg_level (setup_logger open_file opt Logger_init) = level_int (o_log_level opt)"
  by (simp_all add: setup_logger_def Logger_init_def setLevel_def addOutput_def Let_def)

section \<open>The client\<close>

datatype client_choice = Simulated | Serial string int char int bool | Gateway string int

definition choose_client :: "options \<Rightarrow> client_choice" where
  "choose_client opt =
     (if o_demo_mode opt then Simulated
      else if o_serial_device opt \<noteq> []
      then Serial (o_serial_device opt) (o_baud_rate opt) (o_parity opt) (o_stop_bits opt) (o_rs485_enabled opt)
      else Gateway (o_modbus_ip opt) (o_modbus_port opt))"

definition listen_port :: "options \<Rightarrow> int" where
  "listen_port opt = (if o_demo_mode opt \<and> o_web_port opt = WEB_SERVER_PORT then 10000 else o_web_port opt)"

text \<open>The self-test run of \<open>main\<close>: the exit code, the report and the client.\<close>

definition selftest_main :: "'c IModbusClient \<Rightarrow> 'c \<Rightarrow> int \<times> SelftestReport option \<times> 'c option" where
  "selftest_main ops c = (case m_connect ops c of
     (False, c) \<Rightarrow> (1, None, Some c)
   | (True, c) \<Rightarrow> (case selftest_run ops (Some c) of
        (rep, c) \<Rightarrow> (if rep_all_critical_passed rep then 0 else 1, Some rep, map_option (m_disconnect ops) c)))"

section \<open>Shutdown\<close>

text \<open>The loop that writes the mode register with a client of its own: whether it succeeded.\<close>

primrec shutdown_attempts :: "nat \<Rightarrow> 'c IModbusClient \<Rightarrow> 'c \<Rightarrow> bool \<times> 'c" where
  "shutdown_attempts 0 ops c = (False, c)"
| "shutdown_attempts (Suc k) ops c = (case m_connect ops c of
     (True, c) \<Rightarrow> (case m_writeRegister ops REG_RUNNING_MODE 0 (m_flushBuffer ops c) of
          (Inr u, c) \<Rightarrow> (True, m_disconnect ops c)
        | (Inl e, c) \<Rightarrow> shutdown_attempts k ops (m_disconnect ops c))
   | (False, c) \<Rightarrow> shutdown_attempts k ops c)"

definition shutdown_off :: "bool \<Rightarrow> 'c IModbusClient \<Rightarrow> ModbusException + 'c \<Rightarrow> bool \<times> (ModbusException + 'c)" where
  "shutdown_off demo_mode ops client =
     (if demo_mode then (False, client)
      else case client of
        Inl e \<Rightarrow> (False, Inl e)
      | Inr c \<Rightarrow> (case shutdown_attempts 3 ops c of (off_written, c) \<Rightarrow> (off_written, Inr c)))"

section \<open>What an accepted command line gives\<close>

definition options_ok :: "options \<Rightarrow> bool" where
  "options_ok opt \<longleftrightarrow>
     o_parity opt \<in> {CHR ''N'', CHR ''E'', CHR ''O''} \<and> o_stop_bits opt \<in> {1, 2} \<and>
     (o_serial_device opt \<noteq> [] \<longrightarrow> o_serial_specified opt) \<and>
     (o_serial_specified opt \<longrightarrow> o_serial_config_specified opt)"

lemma default_options_ok: "options_ok default_options"
  by (simp add: options_ok_def default_options_def)

lemma if_branches: "(if P then x else y) = z \<Longrightarrow> (x = z \<Longrightarrow> R) \<Longrightarrow> (y = z \<Longrightarrow> R) \<Longrightarrow> R"
  by (cases P) auto

lemma option_alone_ok: "options_ok opt \<Longrightarrow> option_alone a opt = Some opt' \<Longrightarrow> options_ok opt'"
  unfolding option_alone_def by (elim if_branches) (auto simp: options_ok_def)

lemma options_ok_update [simp]:
  "options_ok (opt\<lparr>o_modbus_ip := v, o_ip_specified := b\<rparr>) = options_ok opt"
  "options_ok (opt\<lparr>o_modbus_port := i, o_port_specified := b\<rparr>) = options_ok opt"
  "options_ok (opt\<lparr>o_web_port := i\<rparr>) = options_ok opt" "options_ok (opt\<lparr>o_static_dir := v\<rparr>) = options_ok opt"
  "options_ok (opt\<lparr>o_log_level := l\<rparr>) = options_ok opt" "options_ok (opt\<lparr>o_log_file_path := v\<rparr>) = options_ok opt"
  "options_ok (opt\<lparr>o_config_path := v\<rparr>) = options_ok opt"
  by (simp_all add: options_ok_def)

lemma options_ok_serial:
  assumes "options_ok opt"
  shows "options_ok (opt\<lparr>o_serial_device := v, o_serial_specified := True, o_serial_config_specified := True\<rparr>)"
    and "options_ok (opt\<lparr>o_baud_rate := i, o_serial_config_specified := True\<rparr>)"
    and "s = 1 \<or> s = 2 \<Longrightarrow> options_ok (opt\<lparr>o_stop_bits := s, o_serial_config_specified := True\<rparr>)"
  using assms by (simp_all add: options_ok_def)

lemma parity_option_ok:
  assumes "options_ok opt" "(if length v \<noteq> 1 \<or> \<not> valid_parity (hd v) then Inl 1
    else Inr (opt\<lparr>o_parity := c_toupper (hd v), o_serial_config_specified := True\<rparr>)) = (Inr opt' :: int + options)"
  shows "options_ok opt'"
  using assms toupper_parity [of "hd v"] by (auto simp: options_ok_def split: if_splits)

lemma option_with_value_ok:
  assumes "options_ok opt" "option_with_value a v opt = Some (Inr opt')"
  shows "options_ok opt'"
  using assms(2) unfolding option_with_value_def
proof (elim if_branches)
  assume "Some (if length v \<noteq> 1 \<or> \<not> valid_parity (hd v) then Inl 1
    else Inr (opt\<lparr>o_parity := c_toupper (hd v), o_serial_config_specified := True\<rparr>)) = Some (Inr opt' :: int + options)"
  then show ?thesis using parity_option_ok [OF assms(1)] by blast
next
  assume "Some (let s = atoi v in if s \<noteq> 1 \<and> s \<noteq> 2 then Inl 1
    else Inr (opt\<lparr>o_stop_bits := s, o_serial_config_specified := True\<rparr>)) = Some (Inr opt' :: int + options)"
  then show ?thesis using options_ok_serial(3) [OF assms(1), of "atoi v"] by (auto simp: Let_def split: if_splits)
next
  assume "Some (case parse_log_level v of None \<Rightarrow> Inl 1 | Some l \<Rightarrow> Inr (opt\<lparr>o_log_level := l\<rparr>)) = Some (Inr opt' :: int + options)"
  then show ?thesis using assms(1) by (auto split: option.splits)
qed (use assms(1) options_ok_serial [OF assms(1)] in auto)

lemma parse_args_ok:
  "parse_args args opt = Inr opt' \<Longrightarrow> options_ok opt \<Longrightarrow> options_ok opt'"
proof (induction args opt rule: parse_args.induct)
  case (2 a rest opt)
  note run = "2.prems"(1) [unfolded parse_args.simps]
  have h: "\<not> (a = ''--help'' \<or> a = ''-h'')" using run by (metis Inl_Inr_False)
  note run = run [unfolded if_not_P [OF h]]
  show ?case
  proof (cases "option_alone a opt")
    case (Some o1)
    then show ?thesis using run "2.IH"(2) [OF h Some] option_alone_ok [OF "2.prems"(2)] by simp
  next
    case None
    have r: "rest \<noteq> []" using run None by (metis Inl_Inr_False option.simps(4))
    obtain o1 where o1: "option_with_value a (hd rest) opt = Some (Inr o1)" "parse_args (tl rest) o1 = Inr opt'"
      using run None r by (auto split: option.splits sum.splits)
    from "2.IH"(1) [OF h None r o1(1) refl o1(2)] option_with_value_ok [OF "2.prems"(2) o1(1)] show ?thesis .
  qed
qed simp

context held_registers
begin

lemma shutdown_works:
  assumes "m_connect ops c = (True, c1)" "ready (m_flushBuffer ops c1)" "REG_RUNNING_MODE \<in> held"
  shows "\<exists>c2. shutdown_attempts (Suc k) ops c = (True, m_disconnect ops c2) \<and> ready c2 \<and>
    (\<forall>s \<in> held. reg c2 s = ((reg (m_flushBuffer ops c1))(REG_RUNNING_MODE := 0)) s)"
proof -
  obtain c2 where "m_writeRegister ops REG_RUNNING_MODE 0 (m_flushBuffer ops c1) = (Inr (), c2)" "ready c2"
      "\<forall>s \<in> held. reg c2 s = ((reg (m_flushBuffer ops c1))(REG_RUNNING_MODE := 0)) s"
    using write_held [OF assms(2,3), of 0] by blast
  then show ?thesis using assms(1) by (intro exI [of _ c2]) (simp del: fun_upd_apply)
qed

end

lemma tcp_ops_sel:
  "m_connect (tcp_ops sk) = tcp_connect sk" "m_disconnect (tcp_ops sk) = tcp_disconnect sk"
  "m_writeRegister (tcp_ops sk) = tcp_writeRegister sk" "m_flushBuffer (tcp_ops sk) = tcp_flushBuffer sk"
  by (simp_all add: tcp_ops_def)

lemma tcp_shutdown_dead: "shutdown_attempts k (tcp_ops sk) (None, n) = (False, (None, n))"
  by (induction k) (simp_all add: tcp_ops_def tcp_connect_def)

lemma shutdown_attempts_skip:
  assumes "\<And>i. i < j \<Longrightarrow> m_connect ops (ms i) = (False, ms (Suc i))"
  shows "shutdown_attempts (j + k) ops (ms 0) = shutdown_attempts k ops (ms j)"
  using assms
proof (induction j arbitrary: k)
  case (Suc j)
  have "shutdown_attempts (j + Suc k) ops (ms 0) = shutdown_attempts (Suc k) ops (ms j)"
    using Suc.IH [of "Suc k"] Suc.prems by simp
  then show ?case using Suc.prems [of j] by simp
qed simp

section \<open>Properties\<close>

text \<open>
  C12. Shutdown switches the heat pump off: when the dedicated client connects and reaches a working
  device, the first attempt writes the mode register to off, reports success, and leaves every other
  setting of the device as it is.
\<close>

theorem shutdown_turns_off:
  assumes "held_registers ops ready reg held readable" "REG_RUNNING_MODE \<in> held"
    and "m_connect ops c = (True, c1)" "ready (m_flushBuffer ops c1)"
  shows "\<exists>c2. shutdown_off False ops (Inr c) = (True, Inr (m_disconnect ops c2)) \<and> reg c2 REG_RUNNING_MODE = 0 \<and>
    (\<forall>s \<in> held. s \<noteq> REG_RUNNING_MODE \<longrightarrow> reg c2 s = reg (m_flushBuffer ops c1) s)"
proof -
  obtain c2 where c2: "shutdown_attempts 3 ops c = (True, m_disconnect ops c2)"
      "\<forall>s \<in> held. reg c2 s = ((reg (m_flushBuffer ops c1))(REG_RUNNING_MODE := 0)) s"
    using held_registers.shutdown_works [OF assms(1,3,4,2), of 2] by (auto simp: numeral_3_eq_3 numeral_2_eq_2 simp del: fun_upd_apply)
  have "reg c2 REG_RUNNING_MODE = 0" using bspec [OF c2(2) assms(2)] by simp
  with c2 show ?thesis by (auto simp: shutdown_off_def)
qed

theorem shutdown_turns_off_witness:
  "\<exists>c2. shutdown_off False (tcp_ops (gateway_sockets 11 pump_registers 0))
      (ModbusClient_init True ''192.168.1.5'' 502 11 pump_wire) =
      (True, Inr (m_disconnect (tcp_ops (gateway_sockets 11 pump_registers 0)) c2)) \<and>
    gw_regs (snd c2) REG_RUNNING_MODE = 0 \<and>
    (\<forall>s \<in> set pump_registers. s \<noteq> REG_RUNNING_MODE \<longrightarrow>
       gw_regs (snd c2) s = gw_regs (snd (m_flushBuffer (tcp_ops (gateway_sockets 11 pump_registers 0)) (Some pump_conn, pump_wire))) s)"
proof -
  let ?ops = "tcp_ops (gateway_sockets 11 pump_registers 0)"
  let ?c = "(Some (pump_conn\<lparr>mc_socket_fd := INVALID_SOCKET, mc_connected := False\<rparr>), pump_wire)"
  have i: "ModbusClient_init True ''192.168.1.5'' 502 11 pump_wire = Inr ?c"
    by (simp add: ModbusClient_init_def modbus_client_create_def)
  obtain m n where f: "flush_loop (gateway_sockets 11 pump_registers 0) 3 0 pump_wire = Some (m, n)"
    using gw.flush_link [where slave = 11 and served = pump_registers and chunk = 0 and n = pump_wire and k = 0] by auto
  show ?thesis unfolding i
  proof (rule shutdown_turns_off)
    show "held_registers ?ops (tcp_ready 11 3 (\<lambda>g. True)) (\<lambda>m. gw_regs (snd m)) (set pump_registers) (set pump_registers)"
      by (rule gw.held_registers_axioms)
    show "REG_RUNNING_MODE \<in> set pump_registers" by (simp add: pump_registers_def)
    show "m_connect ?ops ?c = (True, (Some pump_conn, pump_wire))"
      by (simp add: tcp_ops_def tcp_connect_def modbus_client_connect_def gateway_sockets_def)
    show "tcp_ready 11 3 (\<lambda>g. True) (m_flushBuffer ?ops (Some pump_conn, pump_wire))"
      using f by (simp add: tcp_ops_def tcp_flushBuffer_def flush_read_buffer_def tcp_ready_def)
  qed
qed

text \<open>
  C34. Over the network a failed write spends the shutdown: whichever of the three attempts is the first to connect, if
  its write fails, the client is disconnected, which destroys it, so no later attempt can connect: the shutdown fails and
  nothing reaches the network after that disconnect. (An attempt that does not connect leaves the client usable for the next one.)
\<close>

theorem tcp_shutdown_no_second_chance:
  assumes "j < 3" "\<And>i. i < j \<Longrightarrow> tcp_connect sk (ms i) = (False, ms (Suc i))"
    and "tcp_connect sk (ms j) = (True, m1)"
    and "tcp_writeRegister sk REG_RUNNING_MODE 0 (tcp_flushBuffer sk m1) =
      (Inl (ModbusException ''Failed to write register''), m2)"
  shows "shutdown_off False (tcp_ops sk) (Inr (ms 0)) = (False, Inr (tcp_disconnect sk m2))"
proof -
  obtain n where n: "tcp_disconnect sk m2 = (None, n)"
    by (cases m2; cases "fst m2") (auto simp: tcp_disconnect_def)
  have "shutdown_attempts (j + Suc (2 - j)) (tcp_ops sk) (ms 0) = shutdown_attempts (Suc (2 - j)) (tcp_ops sk) (ms j)"
    using assms(2) by (intro shutdown_attempts_skip) (simp add: tcp_ops_sel)
  also have "\<dots> = (False, tcp_disconnect sk m2)"
    using tcp_shutdown_dead [of "2 - j" sk n] n unfolding shutdown_attempts.simps tcp_ops_sel assms(3) by (simp add: assms(4))
  finally have "shutdown_attempts 3 (tcp_ops sk) (ms 0) = (False, tcp_disconnect sk m2)" using assms(1) by simp
  then show ?thesis by (simp add: shutdown_off_def)
qed

text \<open>A network on which the first connection is refused, every later one opens, and nothing is delivered.\<close>

definition dead_sockets :: "nat sockets" where
  "dead_sockets =
     \<lparr>sk_socket = (\<lambda>g. (3, g)), sk_pton = (\<lambda>ip. True), sk_connect = (\<lambda>fd ip port g. (if g = 0 then - 1 else 0, Suc g)),
      sk_close = (\<lambda>fd g. g), sk_select = (\<lambda>fd t g. (0, g)), sk_recv = (\<lambda>fd k g. ([], g)),
      sk_send = (\<lambda>fd f g. (- 1, g))\<rparr>"

abbreviation unconnected :: modbus_client_t where
  "unconnected \<equiv> pump_conn\<lparr>mc_socket_fd := INVALID_SOCKET, mc_connected := False\<rparr>"

theorem tcp_shutdown_no_second_chance_witness:
  "fst (shutdown_off False (tcp_ops dead_sockets) (Inr (Some unconnected, 0))) = False"
proof -
  have f: "flush_loop dead_sockets 3 0 n = Some (0, n)" for n
    by (subst flush_loop.simps) (simp add: dead_sockets_def)
  have s: "send_frame dead_sockets r (pump_conn, n) = Some (False, n)" for r n
    using f by (simp add: send_frame_def flush_read_buffer_def dead_sockets_def)
  have w: "tcp_writeRegister dead_sockets REG_RUNNING_MODE 0 (tcp_flushBuffer dead_sockets (Some pump_conn, 2)) =
      (Inl (ModbusException ''Failed to write register''), (Some pump_conn, 2))"
    using f by (simp add: tcp_writeRegister_def tcp_flushBuffer_def flush_read_buffer_def modbus_write_register_def
        write_attempt_def s Let_def numeral_3_eq_3)
  have "shutdown_off False (tcp_ops dead_sockets) (Inr ((\<lambda>i. (Some unconnected, i)) 0)) =
      (False, Inr (tcp_disconnect dead_sockets (Some pump_conn, 2)))"
    by (rule tcp_shutdown_no_second_chance [where j = 1, OF _ _ _ w])
      (simp_all add: tcp_connect_def modbus_client_connect_def dead_sockets_def)
  then show ?thesis by simp
qed

text \<open>
  An accepted command line is consistent: the parity is one of N, E and O and the stop bits are
  1 or 2, a serial line is used only when it was asked for and neither a gateway nor the simulation
  was, and then creating the client fails exactly when the baud rate is not one of the five supported
  ones or the device path has 256 characters or more (neither is checked by the command line, and
  the exception is not caught).
\<close>

theorem command_line_consistent:
  assumes "parse_args args default_options = Inr opt" "check_options opt = None"
  shows "o_parity opt \<in> {CHR ''N'', CHR ''E'', CHR ''O''} \<and> o_stop_bits opt \<in> {1, 2} \<and>
    (\<forall>d b p s r. choose_client opt = Serial d b p s r \<longrightarrow>
       o_serial_specified opt \<and> \<not> o_ip_specified opt \<and> \<not> o_port_specified opt \<and> \<not> o_demo_mode opt \<and>
       ((\<exists>m. ModbusSerialClient_init True d b p s r MODBUS_SLAVE_ID n = Inr m) \<longleftrightarrow>
          b \<in> {9600, 19200, 38400, 57600, 115200} \<and> length d < 256))"
proof -
  have ok: "options_ok opt" using assms(1) default_options_ok by (rule parse_args_ok)
  have created: "(\<exists>m. ModbusSerialClient_init True d b p s r MODBUS_SLAVE_ID n = Inr m) \<longleftrightarrow>
      b \<in> {9600, 19200, 38400, 57600, 115200} \<and> length d < 256"
    if "p \<in> {CHR ''N'', CHR ''E'', CHR ''O''}" "s \<in> {1, 2}" for d b p s r
  proof -
    have p: "valid_parity p" "valid_parity (c_toupper p)" using that(1) by (auto simp: valid_parity_def)
    have s: "s = 1 \<or> s = 2" using that(2) by simp
    show ?thesis using p s by (auto simp: ModbusSerialClient_init_def modbus_serial_client_create_def split: if_splits)
  qed
  show ?thesis
    using ok assms(2) created
    by (auto simp: options_ok_def check_options_def choose_client_def simp del: insert_iff split: if_splits)
qed

theorem command_line_consistent_witness:
  "parse_args [''--serial'', ''/dev/ttyUSB0'', ''--parity'', ''e''] default_options =
     Inr (default_options\<lparr>o_serial_device := ''/dev/ttyUSB0'', o_serial_specified := True,
       o_serial_config_specified := True, o_parity := CHR ''E''\<rparr>) \<and>
   (\<exists>m. ModbusSerialClient_init True ''/dev/ttyUSB0'' 9600 CHR ''E'' 1 False MODBUS_SLAVE_ID () = Inr m)"
proof -
  let ?o = "default_options\<lparr>o_serial_device := ''/dev/ttyUSB0'', o_serial_specified := True,
       o_serial_config_specified := True, o_parity := CHR ''E''\<rparr>"
  have p: "parse_args [''--serial'', ''/dev/ttyUSB0'', ''--parity'', ''e''] default_options = Inr ?o"
    by (simp add: option_alone_def option_with_value_def valid_parity_def)
  have c: "check_options ?o = None" by (simp add: check_options_def default_options_def)
  have "choose_client ?o = Serial ''/dev/ttyUSB0'' 9600 (CHR ''E'') 1 False"
    by (simp add: choose_client_def default_options_def)
  with command_line_consistent [OF p c, of "()"] p show ?thesis by auto
qed

end
