(* ===== verification/Main_Run.thy ===== *)
theory Main_Run
  imports Controller Platform_Services Main_Program
begin

text \<open>
  A whole run of \<open>main\<close> (\<open>src/main.cpp\<close>), from the command line to the exit code: the instance lock, the
  client, the self-test, the settings, the threads and the shutdown, composed as the code composes
  them. The files, the lock and the device are the world that a run changes.
\<close>

section \<open>The world and the environment\<close>

record ('l, 'f, 'd) world =
  w_lock :: "lock_globals \<times> 'l"
  w_files :: 'f
  w_device :: 'd

text \<open>
  What the run depends on: the system calls, the files, the home directory, the path of the executable and its
  directories, whether a port can be listened on, mongoose, and the client: its operations, its constructor for
  a device, and the device behind a client.
\<close>

record ('c, 'l, 'f, 'd) env =
  e_lock :: "'l lock_os"
  e_files :: "'f files"
  e_home :: "string option \<times> string option"
  e_exe :: "string option"
  e_is_dir :: "string \<Rightarrow> bool"
  e_listen :: "int \<Rightarrow> bool"
  e_mongoose :: mongoose
  e_ops :: "'c IModbusClient"
  e_new :: "client_choice \<Rightarrow> 'd \<Rightarrow> ModbusException + 'c"
  e_device :: "'c \<Rightarrow> 'd"

datatype run_result = Exit int | Terminated

definition settings_path :: "('c, 'l, 'f, 'd) env \<Rightarrow> options \<Rightarrow> string" where
  "settings_path E opt =
     (if o_config_path opt = [] then get_home_dir (fst (e_home E)) (snd (e_home E)) @ ''/.windmi/settings.ini''
      else o_config_path opt)"

definition unlocked :: "('c, 'l, 'f, 'd) env \<Rightarrow> ('l, 'f, 'd) world \<Rightarrow> ('l, 'f, 'd) world" where
  "unlocked E w = w\<lparr>w_lock := release_instance_lock (e_lock E) (w_lock w)\<rparr>"

text \<open>The settings file after the callback was called with the given settings, in order.\<close>

definition after_callbacks :: "('c, 'l, 'f, 'd) env \<Rightarrow> options \<Rightarrow> settings list \<Rightarrow> 'f \<Rightarrow> 'f" where
  "after_callbacks E opt calls f =
     snd (fold (save_settings (e_files E) (settings_path E opt)) calls (load_config (e_files E) (settings_path E opt) f, f))"

text \<open>The object as it is started, with the settings of the file; the arrays of the queues are not initialised.\<close>

definition started ::
    "('c, 'l, 'f, 'd) env \<Rightarrow> options \<Rightarrow> 'f \<Rightarrow> 'c \<Rightarrow> Command list \<Rightarrow> StatusSnapshot list \<Rightarrow> 'c ControlLoop" where
  "started E opt f c cmds stats =
     (case load_settings (load_config (e_files E) (settings_path E opt) f) of
        (init_mode, init_priority, init_dhw, init_heating) \<Rightarrow>
          boot init_mode init_priority init_dhw init_heating c cmds stats)"

text \<open>The device after the shutdown write of a client of its own.\<close>

definition device_off :: "('c, 'l, 'f, 'd) env \<Rightarrow> options \<Rightarrow> 'c \<Rightarrow> 'd" where
  "device_off E opt c =
     (if o_demo_mode opt then e_device E c
      else case snd (shutdown_off False (e_ops E) (e_new E (choose_client opt) (e_device E c))) of
        Inl e \<Rightarrow> e_device E c
      | Inr c' \<Rightarrow> e_device E c')"

section \<open>A run\<close>

text \<open>While the main thread polls the web server: steps of the control thread and requests.\<close>

inductive serve_step :: "mongoose \<Rightarrow> 'c IModbusClient \<Rightarrow> 'c controller \<Rightarrow> 'c controller \<Rightarrow> bool" for mg ops where
  control: "thread_step ops (pc, s) (pc', s') \<Longrightarrow> serve_step mg ops (pc, s, w) (pc', s', w)"
| request: "handleRequest mg hm (with_queues s w) = (r, w') \<Longrightarrow>
    serve_step mg ops (pc, s, w) (pc, after_request w w' s, w')"

inductive main_run :: "('c, 'l, 'f, 'd) env \<Rightarrow> string list \<Rightarrow> ('l, 'f, 'd) world \<Rightarrow> run_result \<Rightarrow> ('l, 'f, 'd) world \<Rightarrow> bool"
  for E args where
  usage: "parse_args args default_options = Inl code \<Longrightarrow> main_run E args w (Exit code) w"
| conflict: "parse_args args default_options = Inr opt \<Longrightarrow> check_options opt = Some code \<Longrightarrow>
    main_run E args w (Exit code) w"
| refused: "parse_args args default_options = Inr opt \<Longrightarrow> check_options opt = None \<Longrightarrow>
    acquire_instance_lock (e_lock E) (o_force_lock opt) (w_lock w) = (False, L) \<Longrightarrow>
    main_run E args w (Exit 1) (w\<lparr>w_lock := L\<rparr>)"
| thrown: "parse_args args default_options = Inr opt \<Longrightarrow> check_options opt = None \<Longrightarrow>
    acquire_instance_lock (e_lock E) (o_force_lock opt) (w_lock w) = (True, L) \<Longrightarrow>
    e_new E (choose_client opt) (w_device w) = Inl e \<Longrightarrow>
    main_run E args w Terminated (w\<lparr>w_lock := L\<rparr>)"
| tested: "parse_args args default_options = Inr opt \<Longrightarrow> check_options opt = None \<Longrightarrow>
    acquire_instance_lock (e_lock E) (o_force_lock opt) (w_lock w) = (True, L) \<Longrightarrow>
    e_new E (choose_client opt) (w_device w) = Inr c \<Longrightarrow> o_run_selftest opt \<Longrightarrow>
    selftest_main (e_ops E) c = (code, rep, Some c') \<Longrightarrow>
    main_run E args w (Exit code) (unlocked E (w\<lparr>w_lock := L, w_device := e_device E c'\<rparr>))"
| unconnected: "parse_args args default_options = Inr opt \<Longrightarrow> check_options opt = None \<Longrightarrow>
    acquire_instance_lock (e_lock E) (o_force_lock opt) (w_lock w) = (True, L) \<Longrightarrow>
    e_new E (choose_client opt) (w_device w) = Inr c \<Longrightarrow> \<not> o_run_selftest opt \<Longrightarrow>
    m_connect (e_ops E) c = (False, c') \<Longrightarrow>
    main_run E args w (Exit 1) (unlocked E (w\<lparr>w_lock := L, w_device := e_device E c'\<rparr>))"
| no_server: "parse_args args default_options = Inr opt \<Longrightarrow> check_options opt = None \<Longrightarrow>
    acquire_instance_lock (e_lock E) (o_force_lock opt) (w_lock w) = (True, L) \<Longrightarrow>
    e_new E (choose_client opt) (w_device w) = Inr c \<Longrightarrow> \<not> o_run_selftest opt \<Longrightarrow>
    m_connect (e_ops E) c = (True, c1) \<Longrightarrow> \<not> e_listen E (listen_port opt) \<Longrightarrow>
    length cmds = 16 \<Longrightarrow> length stats = 32 \<Longrightarrow>
    (thread_step (e_ops E))\<^sup>*\<^sup>* (T_Start, started E opt (w_files w) c1 cmds stats) (pc, s) \<Longrightarrow>
    (thread_step (e_ops E))\<^sup>*\<^sup>* (pc, request_stop s) (T_Exited, s') \<Longrightarrow> modbus_client s' = Some c2 \<Longrightarrow>
    main_run E args w (Exit 1) (unlocked E (w\<lparr>w_lock := L, w_device := e_device E c2,
      w_files := after_callbacks E opt (settings_calls s') (w_files w)\<rparr>))"
| served: "parse_args args default_options = Inr opt \<Longrightarrow> check_options opt = None \<Longrightarrow>
    acquire_instance_lock (e_lock E) (o_force_lock opt) (w_lock w) = (True, L) \<Longrightarrow>
    e_new E (choose_client opt) (w_device w) = Inr c \<Longrightarrow> \<not> o_run_selftest opt \<Longrightarrow>
    m_connect (e_ops E) c = (True, c1) \<Longrightarrow>
    length cmds = 16 \<Longrightarrow> length stats = 32 \<Longrightarrow> s0 = started E opt (w_files w) c1 cmds stats \<Longrightarrow>
    WebServer_init (e_listen E (listen_port opt)) (resolve_static_dir (e_exe E) (e_is_dir E) (o_static_dir opt))
      (cmd_queue s0) (status_queue s0) True = Some web0 \<Longrightarrow>
    (serve_step (e_mongoose E) (e_ops E))\<^sup>*\<^sup>* (T_Start, s0, web0) (pc, s, web) \<Longrightarrow>
    (thread_step (e_ops E))\<^sup>*\<^sup>* (pc, request_stop s) (T_Exited, s') \<Longrightarrow> modbus_client s' = Some c2 \<Longrightarrow>
    main_run E args w (Exit 0) (unlocked E (w\<lparr>w_lock := L,
      w_device := device_off E opt (m_disconnect (e_ops E) c2),
      w_files := after_callbacks E opt (settings_calls s') (w_files w)\<rparr>))"

inductive_cases main_runE: "main_run E args w r w'"

section \<open>What holds at the end\<close>

lemma serve_step_controller: "serve_step mg ops x y \<Longrightarrow> controller_step mg ops x y"
  by (induction rule: serve_step.induct) (auto intro: controller_step.control controller_step.request)

lemma unlocked_sel [simp]:
  "g_lock_fd (fst (w_lock (unlocked E w))) = - 1" "w_device (unlocked E w) = w_device w" "w_files (unlocked E w) = w_files w"
  by (cases "w_lock w"; simp add: unlocked_def release_instance_lock_def Let_def)+

lemma release_fd: "g_lock_fd (fst (release_instance_lock os L)) = - 1"
  by (cases L) (simp add: release_instance_lock_def Let_def)

lemma unlocked_lock: "w_lock (unlocked E w) = release_instance_lock (e_lock E) (w_lock w)"
  by (simp add: unlocked_def)

lemma acquire_failed:
  "acquire_instance_lock os force gn = (False, gn') \<Longrightarrow> fst gn' = fst gn"
  by (auto simp: acquire_instance_lock_def Let_def split: prod.splits if_splits)

lemma exit_unlocked:
  assumes "main_run E args w (Exit code) w'" "g_lock_fd (fst (w_lock w)) = - 1"
  shows "g_lock_fd (fst (w_lock w')) = - 1"
  using assms(1) by (cases rule: main_run.cases) (use assms(2) in \<open>simp_all add: acquire_failed\<close>)

text \<open>The shutdown over a device that can be reached again.\<close>

lemma device_off_works:
  assumes "held_registers (e_ops E) ready reg held readable" "REG_RUNNING_MODE \<in> held" "\<not> o_demo_mode opt"
    and "e_new E (choose_client opt) (e_device E c) = Inr c0" "m_connect (e_ops E) c0 = (True, c1)"
    and "ready (m_flushBuffer (e_ops E) c1)"
    and "\<And>c. ready c \<Longrightarrow> dreg (e_device E (m_disconnect (e_ops E) c)) REG_RUNNING_MODE = reg c REG_RUNNING_MODE"
  shows "dreg (device_off E opt c) REG_RUNNING_MODE = 0"
proof -
  obtain c2 where c2: "shutdown_attempts 3 (e_ops E) c0 = (True, m_disconnect (e_ops E) c2)" "ready c2"
      "\<forall>s \<in> held. reg c2 s = ((reg (m_flushBuffer (e_ops E) c1))(REG_RUNNING_MODE := 0)) s"
    using held_registers.shutdown_works [OF assms(1,5,6,2), of 2]
    by (auto simp: numeral_3_eq_3 numeral_2_eq_2 simp del: fun_upd_apply)
  then have "device_off E opt c = e_device E (m_disconnect (e_ops E) c2)"
    using assms(3,4) by (simp add: device_off_def shutdown_off_def)
  with assms(7) [OF c2(2)] bspec [OF c2(3) assms(2)] show ?thesis by simp
qed

text \<open>A loop that is stopped before its thread runs publishes its first status and ends.\<close>

context write_guard
begin

lemma stop_at_start:
  assumes "guarded s" "running s"
  shows "\<exists>s' c. (thread_step ops)\<^sup>*\<^sup>* (T_Start, request_stop s) (T_Exited, s') \<and> modbus_client s' = Some c"
proof -
  let ?s = "publish_initial ops (request_stop s)"
  have "guarded (request_stop s)" "stop_requested (request_stop s)"
    using assms by (simp_all add: request_stop_def kick_def)
  then have s: "guarded ?s" "stop_requested ?s" using publish_initial_keeps [of "request_stop s"] by (auto simp: frame_def)
  then obtain c where "modbus_client ?s = Some c" by (elim guardedE)
  moreover have "(thread_step ops)\<^sup>*\<^sup>* (T_Start, request_stop s) (T_Exited, thread_exit ops ?s)"
    using thread_step.initial [of ops "request_stop s"] thread_step.leave [OF s(2), of ops]
    by (meson rtranclp.rtrancl_refl rtranclp.rtrancl_into_rtrancl)
  ultimately show ?thesis
    by (intro exI [of _ "thread_exit ops ?s"] exI [of _ "m_disconnect ops c"]) (simp add: thread_exit_def)
qed

end

text \<open>The controller of a gateway with a pump behind it.\<close>

definition gateway_env :: "(gateway ModbusClient, lock_file, string, gateway) env" where
  "gateway_env =
     \<lparr>e_lock = kernel_os 7, e_files = one_file, e_home = (Some ''/root'', None), e_exe = None, e_is_dir = (\<lambda>d. True),
      e_listen = (\<lambda>p. True), e_mongoose = test_mg, e_ops = tcp_ops (gateway_sockets 11 pump_registers 0),
      e_new = (\<lambda>choice d. case choice of Gateway ip port \<Rightarrow> ModbusClient_init True ip port MODBUS_SLAVE_ID d
                 | _ \<Rightarrow> Inl (ModbusException [])),
      e_device = snd\<rparr>"

definition gateway_world :: "(lock_file, string, gateway) world" where
  "gateway_world = \<lparr>w_lock = (lock_globals_init, \<lparr>lf_holder = None, lf_text = []\<rparr>), w_files = [], w_device = pump_wire\<rparr>"

definition gateway_conn :: modbus_client_t where
  "gateway_conn = \<lparr>mc_ip = MODBUS_GATEWAY_IP, mc_port = MODBUS_GATEWAY_PORT, mc_slave_id = MODBUS_SLAVE_ID,
     mc_socket_fd = 3, mc_connected = True\<rparr>"

lemma gateway_env_sel [simp]:
  "e_ops gateway_env = tcp_ops (gateway_sockets 11 pump_registers 0)" "e_device gateway_env = snd"
  "e_lock gateway_env = kernel_os 7" "e_listen gateway_env p"
  by (simp_all add: gateway_env_def)

lemma default_options_sel [simp]:
  "check_options default_options = None" "\<not> o_run_selftest default_options" "\<not> o_demo_mode default_options"
  "choose_client default_options = Gateway MODBUS_GATEWAY_IP MODBUS_GATEWAY_PORT"
  by (simp_all add: default_options_def check_options_def choose_client_def)

lemma gateway_new:
  "e_new gateway_env (choose_client default_options) d =
     Inr (Some (gateway_conn\<lparr>mc_socket_fd := INVALID_SOCKET, mc_connected := False\<rparr>), d)"
  by (simp add: gateway_env_def ModbusClient_init_def modbus_client_create_def gateway_conn_def)

lemma gateway_connect:
  "m_connect (e_ops gateway_env) (Some (gateway_conn\<lparr>mc_socket_fd := INVALID_SOCKET, mc_connected := False\<rparr>), d) =
     (True, (Some gateway_conn, d))"
  by (simp add: tcp_ops_def tcp_connect_def modbus_client_connect_def gateway_sockets_def gateway_conn_def)

lemma gateway_run: "\<exists>w'. main_run gateway_env [] gateway_world (Exit 0) w'"
proof -
  define s where "s = started gateway_env default_options (w_files gateway_world) (Some gateway_conn, w_device gateway_world)
    (replicate 16 noop) (replicate 32 StatusSnapshot_default)"
  have "running s" "gwp.wg.guarded 11 s"
    by (simp_all add: s_def started_def boot_def start_def setSettingsCallback_def setInitialSettings_def ControlLoop_init_def
        gwp.wg.guarded_def tcp_ready_def target_ok_Fin gateway_conn_def split: prod.split)
  then obtain s' c2 where t: "(thread_step (e_ops gateway_env))\<^sup>*\<^sup>* (T_Start, request_stop s) (T_Exited, s')" "modbus_client s' = Some c2"
    using gwp.wg.stop_at_start [where s = s] by fastforce
  obtain L where l: "acquire_instance_lock (e_lock gateway_env) (o_force_lock default_options) (w_lock gateway_world) = (True, L)"
    by (auto simp: gateway_world_def acquire_instance_lock_def kernel_os_def Let_def)
  obtain web where "WebServer_init (e_listen gateway_env (listen_port default_options))
      (resolve_static_dir (e_exe gateway_env) (e_is_dir gateway_env) (o_static_dir default_options))
      (cmd_queue s) (status_queue s) True = Some web"
    by (simp add: WebServer_init_def)
  from main_run.served [OF parse_args.simps(1) default_options_sel(1) l gateway_new default_options_sel(2) gateway_connect _ _ s_def this
      rtranclp.rtrancl_refl t] show ?thesis by auto
qed

end
