(* ===== verification/Settings_Run.thy ===== *)
theory Settings_Run
  imports Main_Run Control_Stable
begin

text \<open>
  The settings over a whole run: the control loop reports every change of the working mode through the
  callback that \<open>main\<close> installs, the callback saves the settings file, and the next start of the program
  reads it.
\<close>

section \<open>The reported mode\<close>

definition call_ok :: "Control_Loop.settings \<Rightarrow> bool" where
  "call_ok call \<longleftrightarrow> fst (snd call) \<in> {''dhw'', ''heating''}"

text \<open>The callback is installed, and the last call, if there was one since the mode was \<open>m0\<close>, had the wanted mode.\<close>

definition in_sync :: "int \<Rightarrow> 'c ControlLoop \<Rightarrow> bool" where
  "in_sync m0 s \<longleftrightarrow> settings_callback s \<and> list_all call_ok (settings_calls s) \<and>
     desired_working_mode s = (if settings_calls s = [] then m0 else fst (last (settings_calls s)))"

interpretation sync: stable_thread "in_sync m0" for m0 :: int
proof unfold_locales
  have prio: "priorityToString p \<in> {''dhw'', ''heating''}" for p by (cases p) auto
  show "in_sync m0 s \<Longrightarrow> in_sync m0 (fireSettingsCallback s)"
    "in_sync m0 s \<Longrightarrow> in_sync m0 (fireSettingsCallback (s\<lparr>desired_working_mode := m\<rparr>))" for s :: "'c ControlLoop" and m
    using prio [of "current_priority s"] by (simp_all add: in_sync_def fireSettingsCallback_def call_ok_def)
qed (simp_all add: in_sync_def)

lemma serve_step_in_sync: "serve_step mg ops x y \<Longrightarrow> in_sync m0 (fst (snd x)) \<Longrightarrow> in_sync m0 (fst (snd y))"
proof (induction rule: serve_step.induct)
  case (control pc s pc' s' w)
  then show ?case using sync.thread_step_stable [OF control(1), of m0] by simp
qed (simp add: after_request_def kick_def Let_def)

lemma serve_steps_in_sync: "(serve_step mg ops)\<^sup>*\<^sup>* x y \<Longrightarrow> in_sync m0 (fst (snd x)) \<Longrightarrow> in_sync m0 (fst (snd y))"
  by (induction rule: rtranclp_induct) (auto intro: serve_step_in_sync)

section \<open>The saved mode\<close>

text \<open>After any number of calls the file has the mode of the last one.\<close>

lemma callbacks_reachable:
  "list_all call_ok calls \<Longrightarrow> config_reachable files c \<Longrightarrow>
     config_reachable files (fst (fold (save_settings files path) calls (c, f)))"
proof (induction calls arbitrary: c f)
  case (Cons call calls)
  obtain m p d h where call: "call = (m, p, d, h)" by (cases call)
  obtain c' f' where s: "save_settings files path call (c, f) = (c', f')" by (cases "save_settings files path call (c, f)")
  have "config_reachable files c'"
    using config_reachable.save [OF Cons.prems(2), of p path m d h f] Cons.prems(1) s call by (simp add: call_ok_def)
  then show ?case using Cons.IH [of c' f'] Cons.prems(1) s by simp
qed simp

lemma saved_mode_loaded:
  assumes "config_reachable files c" "writable files path" "call_ok call" "- (2 ^ 31) \<le> fst call" "fst call < 2 ^ 31"
  shows "fst (load_settings (load_config files path (snd (save_settings files path call (c, f))))) = fst call"
proof -
  obtain m p d h where call: "call = (m, p, d, h)" by (cases call)
  define c' where "c' = fst (save_settings files path call (c, f))"
  have ok: "config_ok c'" unfolding c'_def call
    using config_reachable_ok [OF assms(1)] assms(3) call by (intro save_settings_ok) (auto simp: call_ok_def)
  have f': "snd (save_settings files path call (c, f)) = snd (Config_saveToFile files path c' f)"
    by (simp add: c'_def call save_settings_def Let_def)
  have "map_of c' ''ui.working_mode'' = Some (to_string m)" by (simp add: c'_def call save_settings_def Let_def)
  then have "map_of (load_config files path (snd (Config_saveToFile files path c' f))) ''ui.working_mode'' = Some (to_string m)"
    using saved_text(1) [OF assms(2), of c' f] load_saved [OF ok, of Config_init "''ui.working_mode''"]
    by (simp add: load_config_def Config_loadFromFile_def comment_key_def)
  then show ?thesis using stoi_to_string [of m] assms(4,5) unfolding f'
    by (simp add: load_settings_def Config_getInt_def call)
qed

lemma started_wanted:
  "desired_working_mode (started E opt f c cmds stats) = fst (load_settings (load_config (e_files E) (settings_path E opt) f))"
  by (simp add: started_def boot_def start_def setSettingsCallback_def setInitialSettings_def ControlLoop_init_def
      split: prod.split)

lemma started_in_sync:
  "in_sync (desired_working_mode (started E opt f c cmds stats)) (started E opt f c cmds stats)"
  by (simp add: in_sync_def started_def boot_def start_def setSettingsCallback_def setInitialSettings_def ControlLoop_init_def
      split: prod.split)

lemma loaded_mode_range: "- (2 ^ 31) \<le> fst (load_settings c) \<and> fst (load_settings c) < 2 ^ 31"
  by (auto simp: load_settings_def Config_getInt_def stoi_def Let_def split: option.splits if_splits)

text \<open>A file that cannot be opened for writing, such as one in a directory that does not exist, is never changed, and nobody is told.\<close>

lemma unwritable_settings_lost:
  assumes "\<And>text f. f_write (e_files E) (settings_path E opt) text f = (None, f)"
  shows "after_callbacks E opt calls f = f"
proof -
  have "snd (fold (save_settings (e_files E) (settings_path E opt)) calls cf) = snd cf" for cf
  proof (induction calls arbitrary: cf)
    case (Cons call calls)
    have "snd (save_settings (e_files E) (settings_path E opt) call cf) = snd cf"
      by (cases call; cases cf) (simp add: save_settings_def Config_saveToFile_def Let_def assms)
    then show ?case by (simp add: Cons.IH)
  qed simp
  then show ?thesis by (simp add: after_callbacks_def)
qed

interpretation stopping: stable stop_requested
  by unfold_locales (simp_all add: fireSettingsCallback_def)

lemma stopped_run:
  assumes "running s"
  shows "\<exists>s'. (thread_step ops)\<^sup>*\<^sup>* (T_Start, request_stop s) (T_Exited, s') \<and> desired_working_mode s' = desired_working_mode s"
proof -
  let ?s = "publish_initial ops (request_stop s)"
  have "stop_requested ?s" using assms by (intro stopping.publish_initial_stable) (simp add: request_stop_def kick_def)
  then have "(thread_step ops)\<^sup>*\<^sup>* (T_Start, request_stop s) (T_Exited, thread_exit ops ?s)"
    using thread_step.initial [of ops "request_stop s"] thread_step.leave [of ?s ops]
    by (meson rtranclp.rtrancl_refl rtranclp.rtrancl_into_rtrancl)
  moreover have "desired_working_mode ?s = desired_working_mode s"
    by (rule wanted.publish_initial_stable) (simp add: request_stop_def kick_def)
  ultimately show ?thesis by (intro exI [of _ "thread_exit ops ?s"]) (simp add: thread_exit_def)
qed

section \<open>Property\<close>

text \<open>
  C18. The working mode survives a restart: whatever requests arrive and whatever the device answers while
  the program runs, when the control thread has ended and the settings file can be written, the next start
  of the program begins with the working mode that was wanted at the end, whether it was changed in this run or not.
\<close>

theorem mode_survives_run:
  assumes "writable (e_files E) (settings_path E opt)"
    and "(serve_step (e_mongoose E) (e_ops E))\<^sup>*\<^sup>* (T_Start, started E opt f c cmds stats, web0) (pc, s, web)"
    and "(thread_step (e_ops E))\<^sup>*\<^sup>* (pc, request_stop s) (T_Exited, s')"
    and "- (2 ^ 31) \<le> desired_working_mode s'" "desired_working_mode s' < 2 ^ 31"
  shows "desired_working_mode (started E opt (after_callbacks E opt (settings_calls s') f) c2 cmds2 stats2) = desired_working_mode s'"
proof -
  let ?m0 = "desired_working_mode (started E opt f c cmds stats)" and ?path = "settings_path E opt"
  have "in_sync ?m0 s" using serve_steps_in_sync [OF assms(2)] started_in_sync [of E opt f c cmds stats] by simp
  then have "in_sync ?m0 (request_stop s)" by (rule sync.request_stop_stable)
  then have sync: "in_sync ?m0 s'" using sync.thread_steps_stable [OF assms(3), of ?m0] by simp
  show ?thesis
  proof (cases "settings_calls s'" rule: rev_cases)
    case Nil
    then show ?thesis using sync by (simp add: in_sync_def after_callbacks_def started_wanted)
  next
    case (snoc calls call)
    then have calls: "list_all call_ok calls" "call_ok call" "desired_working_mode s' = fst call"
      using sync by (simp_all add: in_sync_def)
    obtain cf f1 where f1: "fold (save_settings (e_files E) ?path) calls (load_config (e_files E) ?path f, f) = (cf, f1)"
      by (cases "fold (save_settings (e_files E) ?path) calls (load_config (e_files E) ?path f, f)")
    have "config_reachable (e_files E) (load_config (e_files E) ?path f)"
      unfolding load_config_def by (intro config_reachable.load config_reachable.init)
    from callbacks_reachable [OF calls(1) this, of ?path f] f1 have "config_reachable (e_files E) cf" by simp
    from saved_mode_loaded [OF this assms(1) calls(2), of f1] calls(3) assms(4,5)
    show ?thesis unfolding started_wanted after_callbacks_def snoc by (simp add: f1)
  qed
qed

theorem mode_survives_run_witness:
  "\<exists>s'. (thread_step (e_ops gateway_env))\<^sup>*\<^sup>* (T_Start, request_stop (started gateway_env default_options [] (Some gateway_conn, pump_wire)
        (replicate 16 noop) (replicate 32 StatusSnapshot_default))) (T_Exited, s') \<and>
    desired_working_mode (started gateway_env default_options (after_callbacks gateway_env default_options (settings_calls s') [])
      (Some gateway_conn, pump_wire) (replicate 16 noop) (replicate 32 StatusSnapshot_default)) = desired_working_mode s'"
proof -
  let ?s = "started gateway_env default_options [] (Some gateway_conn, pump_wire) (replicate 16 noop) (replicate 32 StatusSnapshot_default)"
  have "running ?s"
    by (simp add: started_def boot_def start_def setSettingsCallback_def setInitialSettings_def ControlLoop_init_def split: prod.split)
  then obtain s' where t: "(thread_step (e_ops gateway_env))\<^sup>*\<^sup>* (T_Start, request_stop ?s) (T_Exited, s')"
      "desired_working_mode s' = desired_working_mode ?s"
    using stopped_run [of ?s] by blast
  have w: "writable (e_files gateway_env) (settings_path gateway_env default_options)"
    by (simp add: gateway_env_def writable_def)
  have "- (2 ^ 31) \<le> desired_working_mode s'" "desired_working_mode s' < 2 ^ 31"
    unfolding t(2) started_wanted using loaded_mode_range by blast+
  from mode_survives_run [OF w rtranclp.rtrancl_refl t(1) this] t(1) show ?thesis by blast
qed

end
