(* ===== verification/Register_Map.thy ===== *)
theory Register_Map
  imports Device
begin

text \<open>
  The register map of the heat pump, \<open>docs/header_example.hpp\<close>: the registers with their access, scale
  and range, the values of the mode registers, the alarm bits and the conversions between registers and
  quantities. The header is what the repository keeps of the manual of the device; nothing is built from it, so
  it serves as the specification that the writes of the controller are compared with.
\<close>

section \<open>Types\<close>

definition kDefaultSlaveId :: u8 where "kDefaultSlaveId = 11"
definition kDefaultBaudRate :: u32 where "kDefaultBaudRate = 9600"

datatype Access = ReadOnly | ReadWrite

datatype Scale =
    Raw | TemperatureTimes10 | FrequencyTimes10 | TimeHHMM | Bitfield | RpmDiv10 | OpeningDegreeDiv4
  | FlowTimes100 | ValueDiv100

record RegisterInfo =
  ri_address :: u16
  ri_name :: string
  ri_access :: Access
  ri_scale :: Scale
  ri_min :: "int option"
  ri_max :: "int option"
  ri_defaultValue :: "int option"

text \<open>One row of the table, its members in the order of the struct.\<close>

abbreviation info ::
    "u16 \<Rightarrow> string \<Rightarrow> Access \<Rightarrow> Scale \<Rightarrow> int option \<Rightarrow> int option \<Rightarrow> int option \<Rightarrow> RegisterInfo" where
  "info a n acc sc lo hi dflt \<equiv> \<lparr>ri_address = a, ri_name = n, ri_access = acc, ri_scale = sc,
     ri_min = lo, ri_max = hi, ri_defaultValue = dflt\<rparr>"

section \<open>Registers\<close>

text \<open>The enumerators of \<open>Register\<close>, in order; two of them have the same value.\<close>

definition Register :: "(string \<times> u16) list" where
  "Register =
    [(''SettingMode'', 0x002C), (''RunningMode'', 0x002D),
     (''UserInterfaceType'', 0x0209), (''OccupancyMode'', 0x0029),
     (''NormalEcoSwitchStatus'', 0x0067), (''OutdoorAirTemperature'', 0x0001),
     (''IndoorAirTemperature'', 0x0002), (''EnteringWaterTemperatureTwIn'', 0x0003),
     (''LeavingWaterTemperatureT1'', 0x0004), (''RefrigerantTemperatureT2B'', 0x0005),
     (''DischargeTemperature'', 0x000A), (''AirExchangerTemperatureT3'', 0x000B),
     (''ActualCompressorFrequency'', 0x0017), (''FrequencyReductionNightMode'', 0x0044),
     (''CompressorRuntimeHours'', 0x0174), (''PumpRuntimeHours'', 0x0176),
     (''OccupiedHeatingAirSetpoint'', 0x01A5), (''UnoccupiedHeatingAirSetpointOffset'', 0x01A6),
     (''EconomicHeatingAirSetpointOffset'', 0x01A7), (''OccupiedCoolingAirSetpoint'', 0x01A8),
     (''UnoccupiedCoolingAirSetpointOffset'', 0x01A9), (''EconomicCoolingAirSetpointOffset'', 0x01AA),
     (''HeatingClimaticCurveSelection'', 0x0245), (''HeatingCurveMinOat'', 0x0246),
     (''HeatingCurveMaxOat'', 0x0247), (''HeatingCurveMinLwt'', 0x0248),
     (''HeatingCurveMaxLwt'', 0x0249), (''CoolingClimaticCurveSelection'', 0x024A),
     (''CoolingCurveMinOat'', 0x024B), (''CoolingCurveMaxOat'', 0x024C),
     (''CoolingCurveMinLwt'', 0x024D), (''CoolingCurveMaxLwt'', 0x024E),
     (''HeatingClimaticCurveMaxSetpointOffset'', 0x019C), (''CoolingClimaticCurveMinSetpointOffset'', 0x019D),
     (''OccupiedHeatingWaterSetpoint'', 0x0191), (''UnoccupiedHeatingWaterSetpointOffset'', 0x0192),
     (''EconomicHeatingWaterSetpointOffset'', 0x0193), (''OccupiedCoolingWaterSetpoint'', 0x0197),
     (''UnoccupiedCoolingWaterSetpointOffset'', 0x0198), (''EconomicCoolingWaterSetpointOffset'', 0x0199),
     (''PumpSpeed'', 0x0055), (''WaterControlPoint'', 0x0033),
     (''NightModeStartTime'', 0x0206), (''NightModeEndTime'', 0x0207),
     (''BackupType'', 0x0259), (''WarmupTimeMinutes'', 0x025A),
     (''BoosterDeltaTemperature'', 0x025B), (''BoosterOatThreshold'', 0x025C),
     (''MinimumOatForHeatingWithComp'', 0x0202), (''DhwTempNormalSetpoint'', 0x0194),
     (''DhwTempEconSetpoint'', 0x0196), (''DhwPriority'', 0x028F),
     (''DhwScheduledDays'', 0x02C7), (''DhwScheduledStartingTime'', 0x02C8),
     (''DhwScheduledStoppingTime'', 0x02C9), (''DhwMode'', 0x02C9),
     (''DhwTankTemperature'', 0x1C5B), (''DhwAntiLegionellaSetpoint'', 0x0195),
     (''AntiLegionellaScheduledDays'', 0x02CA), (''AntiLegionellaScheduledStartingTime'', 0x02CB),
     (''DiscreteInput5Type'', 0x01F6), (''DiscreteInput6Type'', 0x01F7),
     (''DiscreteInput7Type'', 0x01F8), (''DiscreteInput8Type'', 0x01F9),
     (''DiscreteOutput5Type'', 0x01FA), (''DiscreteOutput8Type'', 0x01FB),
     (''DiscreteOutput9Type'', 0x01FC), (''FlowSwitchStatus'', 0x0050),
     (''DiscreteInput5Status'', 0x006A), (''DiscreteInput6Status'', 0x006B),
     (''DiscreteInput7Status'', 0x006C), (''DiscreteInput8Status'', 0x006D),
     (''DiscreteOutput5Force'', 0x0140), (''DiscreteOutput8Force'', 0x0151),
     (''DiscreteOutput9Force'', 0x0152), (''DhwValveStatus'', 0x00D2),
     (''IduSideCapacityDemand'', 0x1001), (''CapacityDemandAfterOduReceive'', 0x1002),
     (''ActualCapacityOutput'', 0x1004), (''FanSpeed'', 0x1005),
     (''LwtAfterBpheInsideUnitTwOut'', 0x1008), (''ExvOpeningDegree'', 0x1012),
     (''IpmRefrigerantCoolPipeTemperature'', 0x1013), (''AcCurrent'', 0x1014),
     (''DcCurrent'', 0x1015), (''AcVoltage'', 0x1016),
     (''DcVoltage'', 0x1017), (''CompressorFrequencyLimitationReason1'', 0x1019),
     (''CompressorFrequencyLimitationReason2'', 0x1025), (''ProgramVersion'', 0x1020),
     (''EepromVersion'', 0x1021), (''P6ErrorReasonIpmProtection'', 0x1022),
     (''T9IpmTemperature'', 0x1023), (''T30DefrostLogicTemperature'', 0x1024),
     (''TargetDischargeTemperature'', 0x1026), (''OduPcbCrch'', 0x1027),
     (''OduPcbCrcl'', 0x1028), (''IduPcbCrch'', 0x1029),
     (''IduPcbCrcl'', 0x1030), (''ModbusBaudrate'', 0x1031),
     (''ModbusParityCheck'', 0x1032), (''ModbusId'', 0x1033),
     (''AlarmBitmap1'', 0x1009), (''AlarmBitmap2'', 0x100A),
     (''AlarmBitmap3'', 0x100B), (''AlarmBitmap4'', 0x100C),
     (''CapacityOfUnit'', 0x1006), (''AmbientOrWaterTempControl'', 0x100D),
     (''OduOutputStatus'', 0x100E), (''RequiredCompressorFrequency'', 0x100F),
     (''RequiredFanSpeedUpperMotor'', 0x101A), (''RequiredFanSpeedDownMotor'', 0x101B),
     (''RequiredOpeningDegreeOfExv'', 0x101C), (''ActualFanSpeedUpperMotor'', 0x101D),
     (''ActualFanSpeedDownMotor'', 0x101E), (''OutdoorUnitInputStatus'', 0x101F),
     (''WaterFlowFeedbackFromWaterPump'', 0x102A), (''WaterDeltaTSetpoint'', 0x0239)]"

definition address :: "string \<Rightarrow> u16 option" where
  "address reg = map_of Register reg"

section \<open>Values of the mode registers\<close>

datatype SettingMode = SM_Off | SM_CoolDhw | SM_HeatDhw | SM_CoolOnly | SM_HeatOnly | SM_DhwOnly

primrec SettingMode_value :: "SettingMode \<Rightarrow> u16" where
  "SettingMode_value SM_Off = 0"
| "SettingMode_value SM_CoolDhw = 1"
| "SettingMode_value SM_HeatDhw = 2"
| "SettingMode_value SM_CoolOnly = 3"
| "SettingMode_value SM_HeatOnly = 4"
| "SettingMode_value SM_DhwOnly = 5"

datatype RunningMode = RM_Off | RM_Cool | RM_Heat | RM_Dhw | RM_Defrost | RM_HomeAntiFreezeLogic

primrec RunningMode_value :: "RunningMode \<Rightarrow> u16" where
  "RunningMode_value RM_Off = 0"
| "RunningMode_value RM_Cool = 1"
| "RunningMode_value RM_Heat = 2"
| "RunningMode_value RM_Dhw = 4"
| "RunningMode_value RM_Defrost = 7"
| "RunningMode_value RM_HomeAntiFreezeLogic = 20"

datatype map_OccupancyMode = OM_Away | OM_Sleep | OM_Home

primrec map_OccupancyMode_value :: "map_OccupancyMode \<Rightarrow> u16" where
  "map_OccupancyMode_value OM_Away = 0"
| "map_OccupancyMode_value OM_Sleep = 1"
| "map_OccupancyMode_value OM_Home = 2"

datatype BackupType =
    MainWaterLoopEhs_DhwEhs_Boiler | MainWaterLoopEhs_DhwEhs | DhwEhs_Boiler | MainWaterLoopEhs_Boiler
  | DhwEhsOnly | BoilerOnly | MainWaterLoopEhsOnly | NoBackup

primrec BackupType_value :: "BackupType \<Rightarrow> u16" where
  "BackupType_value MainWaterLoopEhs_DhwEhs_Boiler = 0"
| "BackupType_value MainWaterLoopEhs_DhwEhs = 1"
| "BackupType_value DhwEhs_Boiler = 2"
| "BackupType_value MainWaterLoopEhs_Boiler = 3"
| "BackupType_value DhwEhsOnly = 4"
| "BackupType_value BoilerOnly = 5"
| "BackupType_value MainWaterLoopEhsOnly = 6"
| "BackupType_value NoBackup = 7"

section \<open>Alarms\<close>

definition AlarmBitmap1 :: "(string \<times> u16) list" where
  "AlarmBitmap1 =
    [(''Alarm1_WaterFlowSwitchFail'', push_bit 0 1), (''Alarm1_CommFailODUHydraulicPCB'', push_bit 1 1),
     (''Alarm1_LwtSensorAfterEhFail'', push_bit 2 1), (''Alarm1_RefrigerantSensorBpheOutletFail'', push_bit 3 1),
     (''Alarm1_RefrigerantSensorBpheInletFail'', push_bit 4 1), (''Alarm1_OduFail'', push_bit 5 1),
     (''Alarm1_DhwTankSensorFail'', push_bit 6 1), (''Alarm1_EwtOfBpheFail'', push_bit 7 1),
     (''Alarm1_LwtOfBpheFail'', push_bit 8 1), (''Alarm1_CommFailWiredControllerPCB'', push_bit 9 1),
     (''Alarm1_BiZoneSensorFail'', push_bit 10 1), (''Alarm1_AuxiliaryHeaterLwtSensorFail'', push_bit 11 1)]"

definition AlarmBitmap2 :: "(string \<times> u16) list" where
  "AlarmBitmap2 =
    [(''Alarm2_Reserved1'', push_bit 0 1), (''Alarm2_TempDifferenceEwtLwtTooHuge'', push_bit 1 1),
     (''Alarm2_WaterFlowRateShortage'', push_bit 2 1), (''Alarm2_TempDifferenceEwtLwtAbnormal'', push_bit 3 1),
     (''Alarm2_Reserved5'', push_bit 4 1), (''Alarm2_Reserved6'', push_bit 5 1),
     (''Alarm2_EHFeedbackProtect'', push_bit 6 1)]"

definition AlarmBitmap3 :: "(string \<times> u16) list" where
  "AlarmBitmap3 =
    [(''Alarm3_CondenserSensorFail'', push_bit 0 1), (''Alarm3_DischargeTempSensorFail'', push_bit 1 1),
     (''Alarm3_Reserved3'', push_bit 2 1), (''Alarm3_BpheOutletHighTempProtection'', push_bit 3 1),
     (''Alarm3_P6Error3TimesIn30min'', push_bit 4 1), (''Alarm3_AcVoltageAbnormal'', push_bit 5 1),
     (''Alarm3_OatSensorFail'', push_bit 6 1), (''Alarm3_OverCurrentProtection'', push_bit 7 1),
     (''Alarm3_IpmProtectionP6'', push_bit 8 1), (''Alarm3_HighDischargeTemp3TimesH6'', push_bit 9 1),
     (''Alarm3_IpmHighTemp3TimesH12'', push_bit 10 1), (''Alarm3_EepromAlarmE10'', push_bit 11 1),
     (''Alarm3_HighPressureProtectionP1'', push_bit 12 1), (''Alarm3_LowPressureProtectionH5'', push_bit 13 1),
     (''Alarm3_DcFanMotorAlarmH9'', push_bit 14 1), (''Alarm3_CondenserTempTooHighP5'', push_bit 15 1)]"

definition AlarmBitmap4 :: "(string \<times> u16) list" where
  "AlarmBitmap4 =
    [(''Alarm4_CommFailIDUODU_E2'', push_bit 0 1), (''Alarm4_OduFanMotorErrorP9'', push_bit 1 1),
     (''Alarm4_IpmTempTooHighPb'', push_bit 2 1), (''Alarm4_IdQtyDecreaseH7'', push_bit 3 1),
     (''Alarm4_OverCurrent3TimesH10'', push_bit 4 1), (''Alarm4_DischargeSensorFailP4'', push_bit 5 1),
     (''Alarm4_RefrigerantCoolPipeSensorFailEc'', push_bit 6 1), (''Alarm4_LowPressureProtectionP2'', push_bit 7 1)]"

definition hasFlag :: "u16 \<Rightarrow> u16 \<Rightarrow> bool" where
  "hasFlag bitmap flag \<longleftrightarrow> bitmap AND flag \<noteq> 0"

section \<open>The table\<close>

text \<open>
  The initialisers of \<open>kRegisterMap\<close>, in order. The array is declared with 99 elements; there are
  104 initialisers (\<open>kRegisterMap_length\<close> below).
\<close>

definition kRegisterMap :: "RegisterInfo list" where
  "kRegisterMap =
    [info 0x002C ''Setting mode'' ReadWrite Raw (Some 0) (Some 2) None,
     info 0x002D ''Running mode'' ReadOnly Raw (Some 0) (Some 20) None,
     info 0x0209 ''User interface type'' ReadWrite Raw (Some 0) (Some 0) None,
     info 0x0029 ''Occupancy mode'' ReadWrite Raw (Some 0) (Some 2) None,
     info 0x0067 ''Normal/Eco switch status'' ReadOnly Raw (Some 0) (Some 1) None,
     info 0x0001 ''Outdoor air temperature'' ReadOnly TemperatureTimes10 None None None,
     info 0x0002 ''Indoor air temperature'' ReadOnly TemperatureTimes10 None None None,
     info 0x0003 ''Entering water temperature Tw-in'' ReadOnly TemperatureTimes10 None None None,
     info 0x0004 ''Leaving water temperature T1'' ReadOnly TemperatureTimes10 None None None,
     info 0x0005 ''Refrigerant temperature T2B'' ReadOnly TemperatureTimes10 None None None,
     info 0x000A ''Discharge temperature'' ReadOnly TemperatureTimes10 None None None,
     info 0x000B ''Air exchanger temperature T3'' ReadOnly TemperatureTimes10 None None None,
     info 0x0017 ''Actual compressor frequency'' ReadOnly FrequencyTimes10 None None None,
     info 0x0044 ''Frequency reduction mode - night mode'' ReadOnly Raw (Some 0) (Some 1) (Some 0),
     info 0x0174 ''Compressor runtime'' ReadOnly Raw (Some 0) (Some 65535) None,
     info 0x0176 ''Pump runtime'' ReadOnly Raw (Some 0) (Some 65535) None,
     info 0x01A5 ''Occupied heating air setpoint'' ReadWrite TemperatureTimes10 (Some 160) (Some 320) (Some 250),
     info 0x01A6 ''Unoccupied heating air setpoint offset'' ReadWrite TemperatureTimes10 (Some (-200)) (Some 0) (Some (-40)),
     info 0x01A7 ''Economic heating air setpoint offset'' ReadWrite TemperatureTimes10 (Some (-200)) (Some 0) (Some (-20)),
     info 0x01A8 ''Occupied cooling air setpoint'' ReadWrite TemperatureTimes10 (Some 160) (Some 320) (Some 250),
     info 0x01A9 ''Unoccupied cooling air setpoint offset'' ReadWrite TemperatureTimes10 (Some 0) (Some 100) (Some 40),
     info 0x01AA ''Economic cooling air setpoint offset'' ReadWrite TemperatureTimes10 (Some 0) (Some 100) (Some 20),
     info 0x0245 ''Heating climatic curve selection'' ReadWrite Raw (Some (-1)) (Some 12) (Some (-1)),
     info 0x0246 ''Customized heating curve min OAT'' ReadWrite TemperatureTimes10 (Some (-300)) (Some 100) None,
     info 0x0247 ''Customized heating curve max OAT'' ReadWrite TemperatureTimes10 (Some 100) (Some 300) None,
     info 0x0248 ''Customized heating curve min LWT'' ReadWrite TemperatureTimes10 (Some 250) (Some 400) None,
     info 0x0249 ''Customized heating curve max LWT'' ReadWrite TemperatureTimes10 (Some 300) (Some 600) None,
     info 0x024A ''Cooling climatic curve selection'' ReadWrite Raw (Some (-1)) (Some 2) (Some (-1)),
     info 0x024B ''Customized cooling curve min OAT'' ReadWrite TemperatureTimes10 (Some 0) (Some 300) None,
     info 0x024C ''Customized cooling curve max OAT'' ReadWrite TemperatureTimes10 (Some 240) (Some 500) None,
     info 0x024D ''Customized cooling curve min LWT'' ReadWrite TemperatureTimes10 (Some 50) (Some 200) None,
     info 0x024E ''Customized cooling curve max LWT'' ReadWrite TemperatureTimes10 (Some 50) (Some 200) None,
     info 0x019C ''Heating climatic curve max setpoint offset'' ReadWrite TemperatureTimes10 (Some (-50)) (Some 50) (Some 0),
     info 0x019D ''Cooling climatic curve min setpoint offset'' ReadWrite TemperatureTimes10 (Some (-50)) (Some 50) (Some 0),
     info 0x0191 ''Occupied heating water setpoint'' ReadWrite TemperatureTimes10 (Some 250) (Some 630) None,
     info 0x0192 ''Unoccupied heating water setpoint offset'' ReadWrite TemperatureTimes10 (Some (-200)) (Some 0) (Some (-40)),
     info 0x0193 ''Economic heating water setpoint offset'' ReadWrite TemperatureTimes10 (Some (-200)) (Some 0) (Some (-20)),
     info 0x0197 ''Occupied cooling water setpoint'' ReadWrite TemperatureTimes10 (Some 50) (Some 250) None,
     info 0x0198 ''Unoccupied cooling water setpoint offset'' ReadWrite TemperatureTimes10 (Some 0) (Some 100) (Some 40),
     info 0x0199 ''Economic cooling water setpoint offset'' ReadWrite TemperatureTimes10 (Some 0) (Some 100) (Some 20),
     info 0x0055 ''Pump speed'' ReadOnly Raw (Some 0) (Some 100) None,
     info 0x0033 ''Water control point'' ReadWrite TemperatureTimes10 (Some 50) (Some 630) None,
     info 0x0206 ''Night mode start time'' ReadWrite TimeHHMM (Some 0) (Some 2359) (Some 0),
     info 0x0207 ''Night mode end time'' ReadWrite TimeHHMM (Some 0) (Some 2359) (Some 0),
     info 0x0259 ''Backup type'' ReadWrite Raw (Some 0) (Some 7) None,
     info 0x025A ''Warmup time'' ReadWrite Raw (Some 0) (Some 60) None,
     info 0x025B ''Booster delta temperature'' ReadWrite TemperatureTimes10 (Some 10) (Some 200) None,
     info 0x025C ''Booster OAT threshold'' ReadWrite TemperatureTimes10 (Some (-200)) (Some 150) None,
     info 0x0202 ''Minimum OAT for heating with compressor'' ReadWrite TemperatureTimes10 (Some (-250)) (Some 100) None,
     info 0x0194 ''DHW temp normal setpoint'' ReadWrite TemperatureTimes10 (Some 400) (Some 630) None,
     info 0x0196 ''DHW temp econ setpoint'' ReadWrite TemperatureTimes10 (Some 400) (Some 630) None,
     info 0x028F ''DHW priority'' ReadWrite Raw (Some 0) (Some 1) None,
     info 0x02C7 ''DHW scheduled days'' ReadWrite Bitfield (Some 0) (Some 254) None,
     info 0x02C8 ''DHW scheduled starting time'' ReadWrite TimeHHMM (Some 0) (Some 2359) (Some 0),
     info 0x02C9 ''DHW scheduled stopping time'' ReadWrite TimeHHMM (Some 0) (Some 2359) (Some 0),
     info 0x02C9 ''DHW mode - verify address'' ReadOnly Raw None None None,
     info 0x1C5B ''DHW tank temperature'' ReadOnly TemperatureTimes10 None None None,
     info 0x0195 ''DHW anti-legionella setpoint'' ReadWrite TemperatureTimes10 (Some 600) (Some 700) (Some 600),
     info 0x02CA ''Anti-legionella scheduled days'' ReadWrite Bitfield (Some 0) (Some 254) None,
     info 0x02CB ''Anti-legionella scheduled starting time'' ReadWrite TimeHHMM (Some 0) (Some 2359) (Some 0),
     info 0x0050 ''Flow switch status'' ReadOnly Raw (Some 0) (Some 1) None,
     info 0x006A ''Discrete input #5 status'' ReadOnly Raw (Some 0) (Some 1) None,
     info 0x006B ''Discrete input #6 status'' ReadOnly Raw (Some 0) (Some 1) None,
     info 0x006C ''Discrete input #7 status'' ReadOnly Raw (Some 0) (Some 1) None,
     info 0x006D ''Discrete input #8 status'' ReadOnly Raw (Some 0) (Some 1) None,
     info 0x00D2 ''DHW valve status'' ReadOnly Raw (Some 0) (Some 1) None,
     info 0x1001 ''IDU side capacity demand'' ReadOnly Raw None None None,
     info 0x1002 ''Capacity demand after ODU receive'' ReadOnly Raw None None None,
     info 0x1004 ''Actual capacity output'' ReadOnly Raw None None None,
     info 0x1005 ''Fan speed'' ReadOnly Raw (Some 0) (Some 8) None,
     info 0x1008 ''LWT after BPHE inside unit Tw-out'' ReadOnly TemperatureTimes10 None None None,
     info 0x1012 ''EXV opening degree'' ReadOnly OpeningDegreeDiv4 None None None,
     info 0x1013 ''IPM refrigerant cool pipe temperature'' ReadOnly TemperatureTimes10 None None None,
     info 0x1014 ''AC current'' ReadOnly Raw None None None,
     info 0x1015 ''DC current'' ReadOnly Raw None None None,
     info 0x1016 ''AC voltage'' ReadOnly Raw None None None,
     info 0x1017 ''DC voltage'' ReadOnly Raw None None None,
     info 0x1019 ''Compressor frequency limitation reason 1'' ReadOnly Raw None None None,
     info 0x1025 ''Compressor frequency limitation reason 2'' ReadOnly Raw (Some 0) (Some 1) None,
     info 0x1020 ''Program version'' ReadOnly Raw None None None,
     info 0x1021 ''EEPROM version'' ReadOnly Raw None None None,
     info 0x1022 ''P6 error reason / IPM protection reason'' ReadOnly Raw None None None,
     info 0x1023 ''T9 IPM temperature'' ReadOnly TemperatureTimes10 None None None,
     info 0x1024 ''T30 defrost logic temperature'' ReadOnly TemperatureTimes10 None None None,
     info 0x1026 ''Target discharge temperature'' ReadOnly TemperatureTimes10 None None None,
     info 0x1031 ''Modbus baudrate'' ReadOnly ValueDiv100 (Some 9600) (Some 38400) (Some 9600),
     info 0x1032 ''Modbus parity check'' ReadOnly Raw (Some 0) (Some 2) None,
     info 0x1033 ''Modbus ID'' ReadOnly Raw (Some 1) (Some 255) (Some 11),
     info 0x1009 ''Alarm bitmap #1'' ReadOnly Bitfield None None None,
     info 0x100A ''Alarm bitmap #2'' ReadOnly Bitfield None None None,
     info 0x100B ''Alarm bitmap #3'' ReadOnly Bitfield None None None,
     info 0x100C ''Alarm bitmap #4'' ReadOnly Bitfield None None None,
     info 0x1006 ''Capacity of unit'' ReadOnly Raw None None None,
     info 0x100D ''Ambient/water temperature control'' ReadWrite Raw None None None,
     info 0x100E ''ODU output status'' ReadOnly Bitfield None None None,
     info 0x100F ''Required compressor frequency'' ReadOnly FrequencyTimes10 None None None,
     info 0x101A ''Required fan speed upper motor'' ReadOnly RpmDiv10 None None None,
     info 0x101B ''Required fan speed down motor'' ReadOnly RpmDiv10 None None None,
     info 0x101C ''Required opening degree of EXV'' ReadOnly OpeningDegreeDiv4 None None None,
     info 0x101D ''Actual fan speed upper motor'' ReadOnly RpmDiv10 None None None,
     info 0x101E ''Actual fan speed down motor'' ReadOnly RpmDiv10 None None None,
     info 0x101F ''Outdoor unit input status'' ReadOnly Bitfield None None None,
     info 0x102A ''Water flow feedback from water pump'' ReadOnly FlowTimes100 None None None,
     info 0x0239 ''Water Delta T setpoint'' ReadWrite Raw (Some 35) None (Some 50)]"


section \<open>Conversions\<close>

definition encodeTemperature :: "fp \<Rightarrow> i16 option" where
  "encodeTemperature degC = fp_to_i16 (fp_mult f32 degC (Fin 10))"

definition decodeTemperature :: "i16 \<Rightarrow> fp" where
  "decodeTemperature raw = fp_div f32 (f32_of_int (sint raw)) (Fin 10)"

definition encodeFrequency :: "fp \<Rightarrow> u16 option" where
  "encodeFrequency hz = fp_to_u16 (fp_mult f32 hz (Fin 10))"

definition decodeFrequency :: "u16 \<Rightarrow> fp" where
  "decodeFrequency raw = fp_div f32 (f32_of_int (uint raw)) (Fin 10)"

definition encodeTimeHHMM :: "u8 \<Rightarrow> u8 \<Rightarrow> u16" where
  "encodeTimeHHMM hour minute = push_bit 8 (ucast hour) OR ucast minute"

definition decodeHour :: "u16 \<Rightarrow> u8" where
  "decodeHour raw = ucast (drop_bit 8 raw AND 0xFF)"

definition decodeMinute :: "u16 \<Rightarrow> u8" where
  "decodeMinute raw = ucast (raw AND 0xFF)"

definition decodeFlowM3h :: "u16 \<Rightarrow> fp" where
  "decodeFlowM3h raw = fp_div f32 (f32_of_int (uint raw)) (Fin 100)"

definition encodeFlowM3h :: "fp \<Rightarrow> u16 option" where
  "encodeFlowM3h m3h = fp_to_u16 (fp_mult f32 m3h (Fin 100))"

definition functionReadHoldingRegister :: u16 where "functionReadHoldingRegister = 0x03"
definition functionReadInputRegister :: u16 where "functionReadInputRegister = 0x04"
definition functionWriteSingleRegister :: u16 where "functionWriteSingleRegister = 0x06"
definition functionWriteMultipleRegs :: u16 where "functionWriteMultipleRegs = 0x10"

section \<open>What the table says\<close>

text \<open>A write the table permits: a writable register, and a value in its range.\<close>

definition in_limits :: "int option \<Rightarrow> int option \<Rightarrow> int \<Rightarrow> bool" where
  "in_limits lo hi i \<longleftrightarrow> (case lo of None \<Rightarrow> True | Some l \<Rightarrow> l \<le> i) \<and> (case hi of None \<Rightarrow> True | Some h \<Rightarrow> i \<le> h)"

definition permits :: "u16 \<Rightarrow> u16 \<Rightarrow> bool" where
  "permits a v \<longleftrightarrow>
     list_ex (\<lambda>r. ri_address r = a \<and> ri_access r = ReadWrite \<and> in_limits (ri_min r) (ri_max r) (sint v)) kRegisterMap"

lemma kRegisterMap_length: "length kRegisterMap = 104"
  by (simp add: kRegisterMap_def)

text \<open>The rows of a given address.\<close>

definition rows :: "u16 \<Rightarrow> RegisterInfo list" where
  "rows a = filter (\<lambda>r. ri_address r = a) kRegisterMap"

lemma permits_rows: "permits a v \<longleftrightarrow> (\<exists>r \<in> set (rows a). ri_access r = ReadWrite \<and> in_limits (ri_min r) (ri_max r) (sint v))"
  by (auto simp: permits_def rows_def list_ex_iff)

text \<open>The table is long, so its rows are looked up one rule at a time.\<close>

lemma filter_skip: "\<not> P x \<Longrightarrow> filter P xs = ys \<Longrightarrow> filter P (x # xs) = ys"
  by simp

lemma filter_keep: "P x \<Longrightarrow> filter P xs = ys \<Longrightarrow> filter P (x # xs) = x # ys"
  by simp

lemma map_step: "f x = y \<Longrightarrow> map f xs = ys \<Longrightarrow> map f (x # xs) = y # ys"
  by simp

lemma kRegisterMap_addresses:
  "map ri_address kRegisterMap =
     [0x002C, 0x002D, 0x0209, 0x0029, 0x0067, 0x0001, 0x0002, 0x0003, 0x0004, 0x0005, 0x000A, 0x000B,
      0x0017, 0x0044, 0x0174, 0x0176, 0x01A5, 0x01A6, 0x01A7, 0x01A8, 0x01A9, 0x01AA, 0x0245, 0x0246,
      0x0247, 0x0248, 0x0249, 0x024A, 0x024B, 0x024C, 0x024D, 0x024E, 0x019C, 0x019D, 0x0191, 0x0192,
      0x0193, 0x0197, 0x0198, 0x0199, 0x0055, 0x0033, 0x0206, 0x0207, 0x0259, 0x025A, 0x025B, 0x025C,
      0x0202, 0x0194, 0x0196, 0x028F, 0x02C7, 0x02C8, 0x02C9, 0x02C9, 0x1C5B, 0x0195, 0x02CA, 0x02CB,
      0x0050, 0x006A, 0x006B, 0x006C, 0x006D, 0x00D2, 0x1001, 0x1002, 0x1004, 0x1005, 0x1008, 0x1012,
      0x1013, 0x1014, 0x1015, 0x1016, 0x1017, 0x1019, 0x1025, 0x1020, 0x1021, 0x1022, 0x1023, 0x1024,
      0x1026, 0x1031, 0x1032, 0x1033, 0x1009, 0x100A, 0x100B, 0x100C, 0x1006, 0x100D, 0x100E, 0x100F,
      0x101A, 0x101B, 0x101C, 0x101D, 0x101E, 0x101F, 0x102A, 0x0239]"
  unfolding kRegisterMap_def by (rule map_step, rule RegisterInfo.select_convs)+ (rule list.map)

lemma rows_empty_iff: "rows a = [] \<longleftrightarrow> a \<notin> set (map ri_address kRegisterMap)"
  by (auto simp: rows_def filter_empty_conv)

section \<open>Round trips\<close>

lemma uint_u16_range: "0 \<le> uint (w::u16)" "uint (w::u16) \<le> 65535"
  using uint_bounded [of w] by simp_all

lemma sint_small_u16:
  assumes "uint (w::u16) < 32768"
  shows "sint w = uint w"
proof -
  have "- 32768 \<le> uint w" using uint_u16_range(1) [of w] by linarith
  then have "signed_take_bit 15 (uint w) = uint w" using assms by (intro signed_take_bit_int_eq_self; simp only:) simp_all
  then show ?thesis by (simp add: sint_uint)
qed

text \<open>The controller scales temperatures as the header does.\<close>

lemma temperature_conversions: "encodeTemperature = temp_to_raw" "decodeTemperature = raw_to_temp"
  by (simp_all add: fun_eq_iff encodeTemperature_def temp_to_raw_def decodeTemperature_def raw_to_temp_def)

text \<open>A scaled unsigned register as a float: the exact quotient, rounded.\<close>

lemma scaled_u16:
  assumes "1 \<le> d" "d \<le> 100"
  shows "fp_div f32 (f32_of_int (uint (w::u16))) (Fin (of_int d)) = Fin (r32 (of_int (uint w) / of_int d))"
proof -
  define n where "n = uint w"
  have n: "0 \<le> n" "n \<le> 65535" using uint_u16_range [of w] by (auto simp: n_def)
  have d: "1 \<le> (of_int d :: rat)" using assms(1) by simp
  have "(0::rat) \<le> of_int n" "of_int n \<le> (65535::rat)" using n by simp_all
  then have "of_int 0 \<le> (of_int n / of_int d :: rat)" "of_int n / of_int d \<le> (of_int 65535 :: rat)"
    using d mult_mono [of "of_int n" "65535::rat" 1 "of_int d"] by (auto simp: divide_le_eq)
  then obtain y where "f32 (of_int n / of_int d) = Fin y" "y = r32 (of_int n / of_int d)"
    by (rule f32_between) auto
  then show ?thesis
    using n d assms(1) by (simp add: f32_of_int_def f32_of_short_int flip: n_def)
qed

lemma encodeFrequency_decodeFrequency: "encodeFrequency (decodeFrequency raw) = Some raw"
proof -
  define n where "n = uint raw"
  have n: "0 \<le> n" "n \<le> 65535" using uint_u16_range [of raw] by (auto simp: n_def)
  have "r32 (r32 (of_int n / 10) * 10) = of_int n" using n by (intro r32_div_mult_10) auto
  then have "f32 (r32 (of_int n / 10) * 10) = Fin (of_int n)"
    using n by (simp add: f32_def fp_round_def Let_def)
  then show ?thesis
    using n scaled_u16 [of 10 raw]
    by (simp add: encodeFrequency_def decodeFrequency_def n_def [symmetric] Let_def) (simp add: n_def)
qed

text \<open>A clock time is two bytes, the hour in the high one.\<close>

lemma time_bytes: "encodeTimeHHMM = join_bytes" "decodeHour = hi_byte" "decodeMinute = lo_byte"
  by (simp_all add: fun_eq_iff encodeTimeHHMM_def join_bytes_def decodeHour_def hi_byte_def decodeMinute_def lo_byte_def)

lemma time_fields:
  "decodeHour (encodeTimeHHMM h m) = h" "decodeMinute (encodeTimeHHMM h m) = m"
  "encodeTimeHHMM (decodeHour t) (decodeMinute t) = t"
  by (simp_all add: time_bytes)

text \<open>
  A flow comes back as itself or one less: dividing and multiplying by 100 is exact up to a rounding
  error, and the conversion cuts off the fraction.
\<close>

lemma r32_half: "\<bar>m\<bar> < 2 ^ 24 \<Longrightarrow> r32 (of_int m / 2) = of_int m / 2"
  by (rule fround_exact [where m = m and q = "- 1"]) (auto simp: power_int_def short_int simp del: of_int_abs)

lemma hundredth_error:
  assumes "0 \<le> n" "n \<le> 65535"
  shows "\<bar>r32 (of_int n / 100) * 100 - of_int n\<bar> \<le> 1/2"
proof (cases "n = 0")
  case False
  define x where "x = (of_int n :: rat) / 100"
  have x: "0 < x" "x < 2 ^ 10" using assms False by (auto simp: x_def)
  then have "2 powi ilog2 x < (2::rat) powi 10"
    using ilog2_bounds(1) [of x] by (simp add: power_int_def [of _ 10])
  then have "ilog2 x < 10" by (rule powi_less_cancel)
  then have "ulp_exp 24 (- 149) x \<le> - 14" using x by (simp add: ulp_exp_def)
  then have "(2::rat) powi ulp_exp 24 (- 149) x \<le> 2 powi (- 14)" by (intro power_int_increasing) auto
  then have "\<bar>r32 x - x\<bar> \<le> 2 powi (- 14) / 2" using fround_error [of x 24 "- 149"] x by simp
  also have "(2::rat) powi (- 14) / 2 \<le> 1/200" by (simp add: power_int_def power_divide)
  finally show ?thesis by (simp add: x_def abs_if split: if_splits)
qed simp

lemma encodeFlow_decodeFlow:
  obtains w where "encodeFlowM3h (decodeFlowM3h raw) = Some w" "w = raw \<or> w = raw - 1 \<and> raw \<noteq> 0"
proof -
  define n where "n = uint raw"
  have n: "0 \<le> n" "n \<le> 65535" using uint_u16_range [of raw] by (auto simp: n_def)
  define y where "y = r32 (of_int n / 100) * 100"
  have y: "of_int n - 1/2 \<le> y" "y \<le> of_int n + 1/2" "0 \<le> y"
    using hundredth_error [OF n] fround_nonneg [of "of_int n / 100" 24 "- 149"] n
    by (auto simp: y_def abs_if split: if_splits)
  have "r32 (of_int (2 * n - 1) / 2) \<le> r32 y" "r32 y \<le> r32 (of_int (2 * n + 1) / 2)"
    using y by (intro fround_mono; simp add: field_simps)+
  moreover have "\<bar>2 * n - 1\<bar> < 2 ^ 24" "\<bar>2 * n + 1\<bar> < 2 ^ 24" using n by auto
  ultimately have z: "of_int n - 1/2 \<le> r32 y" "r32 y \<le> of_int n + 1/2"
    using r32_half [of "2 * n - 1"] r32_half [of "2 * n + 1"] by (simp_all add: field_simps)
  have z0: "0 \<le> r32 y" using y(3) by (rule fround_nonneg)
  have f: "f32 y = Fin (r32 y)"
    using z n z0 by (simp add: f32_def fp_round_def Let_def)
  have t: "Ieee_Float.truncate (r32 y) = n \<or> Ieee_Float.truncate (r32 y) = n - 1 \<and> 0 < n"
    using z z0 n by (auto simp: Ieee_Float.truncate_def) linarith+
  have "encodeFlowM3h (decodeFlowM3h raw) = Some (word_of_int (Ieee_Float.truncate (r32 y)))"
    using t n scaled_u16 [of 100 raw]
    by (auto simp: encodeFlowM3h_def decodeFlowM3h_def Let_def f n_def [symmetric] y_def [symmetric])
  moreover have "word_of_int (Ieee_Float.truncate (r32 y)) = raw \<or> word_of_int (Ieee_Float.truncate (r32 y)) = raw - 1 \<and> raw \<noteq> 0"
  proof -
    have "word_of_int n = raw" "word_of_int (n - 1) = raw - 1" by (simp_all add: n_def)
    moreover have "raw \<noteq> 0" if "0 < n" using that by (auto simp: n_def)
    ultimately show ?thesis using t by metis
  qed
  ultimately show thesis by (rule that)
qed

lemma flow_53: "encodeFlowM3h (decodeFlowM3h 53) = Some 52"
  by code_simp

section \<open>Alarm bits\<close>

lemma hasFlag_or: "hasFlag (a OR b) f \<longleftrightarrow> hasFlag a f \<or> hasFlag b f"
  by (auto simp: hasFlag_def and.commute [of _ f] bit.conj_disj_distrib or_eq_0_iff)

lemma hasFlag_fold: "hasFlag (foldr (OR) fs 0) f \<longleftrightarrow> (\<exists>g \<in> set fs. hasFlag g f)"
  by (induction fs) (simp_all add: hasFlag_or, simp add: hasFlag_def)

lemma list_all_four: "list_all P [a, b, c, d] \<Longrightarrow> x \<in> {a, b, c, d} \<Longrightarrow> P x"
  by auto

text \<open>The flags of one register are different single bits, so the alarms that are set can be read off it.\<close>

lemma alarm_flags_separate:
  assumes "AB \<in> {AlarmBitmap1, AlarmBitmap2, AlarmBitmap3, AlarmBitmap4}"
  shows "list_all (\<lambda>x. list_all (\<lambda>y. hasFlag (snd y) (snd x) = (x = y)) AB) AB"
proof -
  have "list_all (\<lambda>AB. list_all (\<lambda>x. list_all (\<lambda>y. hasFlag (snd y) (snd x) = (x = y)) AB) AB)
      [AlarmBitmap1, AlarmBitmap2, AlarmBitmap3, AlarmBitmap4]"
    by code_simp
  then show ?thesis using assms by (rule list_all_four)
qed

lemma alarms_read_back:
  assumes "AB \<in> {AlarmBitmap1, AlarmBitmap2, AlarmBitmap3, AlarmBitmap4}" "set on \<subseteq> set AB"
  shows "filter (\<lambda>x. hasFlag (foldr (OR) (map snd on) 0) (snd x)) AB = filter (\<lambda>x. x \<in> set on) AB"
proof (intro filter_cong refl)
  fix x
  assume "x \<in> set AB"
  then have "hasFlag (snd y) (snd x) \<longleftrightarrow> x = y" if "y \<in> set on" for y
    using alarm_flags_separate [OF assms(1)] assms(2) that by (auto simp: list_all_iff)
  then show "hasFlag (foldr (OR) (map snd on) 0) (snd x) \<longleftrightarrow> x \<in> set on"
    by (auto simp: hasFlag_fold)
qed

section \<open>The constants of the controller in the table\<close>

text \<open>The rows of the registers that the controller writes.\<close>

lemma written_rows:
  "rows REG_RUNNING_MODE = [info 0x002C ''Setting mode'' ReadWrite Raw (Some 0) (Some 2) None]"
  "rows REG_DHW_TARGET = [info 0x0194 ''DHW temp normal setpoint'' ReadWrite TemperatureTimes10 (Some 400) (Some 630) None]"
  "rows REG_HEATING_TARGET = [info 0x0191 ''Occupied heating water setpoint'' ReadWrite TemperatureTimes10 (Some 250) (Some 630) None]"
  "rows REG_OCCUPANCY_MODE = [info 0x0029 ''Occupancy mode'' ReadWrite Raw (Some 0) (Some 2) None]"
  "rows REG_DHW_PRIORITY = []"
  unfolding rows_def kRegisterMap_def
  by ((rule filter_skip, (simp; fail)) | (rule filter_keep, (simp; fail)) | rule filter.simps(1))+

lemma permits_written:
  "permits REG_RUNNING_MODE v \<longleftrightarrow> 0 \<le> sint v \<and> sint v \<le> 2"
  "permits REG_DHW_TARGET v \<longleftrightarrow> 400 \<le> sint v \<and> sint v \<le> 630"
  "permits REG_HEATING_TARGET v \<longleftrightarrow> 250 \<le> sint v \<and> sint v \<le> 630"
  "permits REG_OCCUPANCY_MODE v \<longleftrightarrow> 0 \<le> sint v \<and> sint v \<le> 2"
  "\<not> permits REG_DHW_PRIORITY v"
  by (simp_all add: permits_rows written_rows in_limits_def)

lemma safe_write_permitted:
  assumes "safe_write seen a v"
  shows "permits a v \<or> a \<in> {REG_DHW_TARGET, REG_HEATING_TARGET} \<and> v \<in> seen a \<or> a = REG_DHW_PRIORITY \<and> v \<in> {0, 1}"
  using assms unfolding safe_write_def by (auto simp: permits_written)

text \<open>
  The range of the clock times is that of the digits 23 59, while the register holds 256 times the hour plus
  the minute: the table rejects every time of day after 9:55.
\<close>

lemma night_mode_times:
  assumes "unat h < 24" "unat m < 60"
  shows "permits 0x0206 (encodeTimeHHMM h m) \<longleftrightarrow> 256 * unat h + unat m \<le> 2359"
proof -
  have "encodeTimeHHMM h m = push_bit 8 (ucast h) + ucast m"
    unfolding encodeTimeHHMM_def
    by (rule disjunctive_add [symmetric]) (auto simp: bit_simps dest: bit_imp_le_length)
  then have "unat (encodeTimeHHMM h m) = 256 * unat h + unat m"
    using assms by (simp add: push_bit_eq_mult unat_word_ariths unsigned_ucast_eq take_bit_nat_eq_self)
  then have u: "uint (encodeTimeHHMM h m) = int (256 * unat h + unat m)" by (simp only: uint_nat)
  have "int (256 * unat h + unat m) < 32768" using assms by linarith
  with u have "sint (encodeTimeHHMM h m) = int (256 * unat h + unat m)" by (simp only: sint_small_u16)
  moreover have "rows 0x0206 = [info 0x0206 ''Night mode start time'' ReadWrite TimeHHMM (Some 0) (Some 2359) (Some 0)]"
    unfolding rows_def kRegisterMap_def
    by ((rule filter_skip, (simp; fail)) | (rule filter_keep, (simp; fail)) | rule filter.simps(1))+
  ultimately show ?thesis by (simp add: permits_rows in_limits_def) (unfold uint_nat, presburger)
qed

section \<open>Property\<close>

text \<open>
  C38. The conversions of the header, of which the controller uses the one of temperatures: temperatures, frequencies and clock times survive the way from the
  register to the quantity and back, for every value of the register; a flow comes back as the same value or,
  because the conversion cuts off, as one less.
\<close>

theorem register_values_roundtrip:
  "encodeTemperature = temp_to_raw \<and> decodeTemperature = raw_to_temp \<and>
   encodeTemperature (decodeTemperature t) = Some t \<and> encodeFrequency (decodeFrequency f) = Some f \<and>
   decodeHour (encodeTimeHHMM h m) = h \<and> decodeMinute (encodeTimeHHMM h m) = m \<and>
   encodeTimeHHMM (decodeHour c) (decodeMinute c) = c \<and>
   (\<exists>w. encodeFlowM3h (decodeFlowM3h v) = Some w \<and> (w = v \<or> w = v - 1 \<and> v \<noteq> 0))"
proof -
  obtain w where "encodeFlowM3h (decodeFlowM3h v) = Some w" "w = v \<or> w = v - 1 \<and> v \<noteq> 0"
    by (rule encodeFlow_decodeFlow)
  then show ?thesis
    by (simp add: temperature_conversions temp_to_raw_raw_to_temp encodeFrequency_decodeFrequency time_fields)
qed

end
