(* ===== verification/Register_Conformance.thy ===== *)
theory Register_Conformance
  imports Register_Map Control_Status
begin

text \<open>
  The registers that the controller reads and writes, compared with the register map of the device:
  which writes the map permits, which reads it does not list, and the readings whose scale or range differs.
\<close>

section \<open>Writes\<close>

text \<open>
  A history of calls whose writes the map permits, apart from setpoints that give back a value the device
  reported before, and from the priority register, whose address \<open>0x02BF\<close> the map does not list.
\<close>

fun writes_in_map :: "client_event list \<Rightarrow> bool" where
  "writes_in_map [] = True"
| "writes_in_map (Ev_write a v # l) =
     ((permits a v \<or> a \<in> {REG_DHW_TARGET, REG_HEATING_TARGET} \<and> v \<in> reported l a \<or> a = REG_DHW_PRIORITY \<and> v \<in> {0, 1}) \<and>
      writes_in_map l)"
| "writes_in_map (_ # l) = writes_in_map l"

lemma writes_ok_in_map: "writes_ok l \<Longrightarrow> writes_in_map l"
  by (induction l rule: writes_in_map.induct) (auto dest: safe_write_permitted)

section \<open>Reads\<close>

text \<open>Of the 24 registers of a poll the map lists all but three: tank temperature, priority and hot-water mode.\<close>

lemma unlisted_reads:
  "filter (\<lambda>a. rows a = []) status_registers = [REG_DHW_TANK_TEMP, REG_DHW_PRIORITY, REG_DHW_MODE_STATUS]"
  unfolding rows_empty_iff kRegisterMap_addresses by (simp add: status_registers_def)

text \<open>
  The map gives the frequency of the compressor in tenths of a hertz, and runtimes up to 65535 hours. The
  controller takes the frequency as it is, and runtimes above 32767 hours as negative numbers.
\<close>

lemma frequency_not_scaled:
  "compressor_freq (status (snd (try_read bank_ops (diagnostic_blocks ! 1) ((\<lambda>a. 0)(REG_COMPRESSOR_FREQ := 600), x)))) = Fin 600"
  "decodeFrequency 600 = Fin 60"
  by (simp_all add: diagnostic_blocks_def try_read_def bank_ops_def f32_of_int_def fp_simps decodeFrequency_def)

lemma runtime_negative:
  "compressor_runtime_h (status (snd (try_read bank_ops (diagnostic_blocks ! 7) ((\<lambda>a. 0)(REG_COMPRESSOR_RUNTIME := 40000), x)))) = - 25536"
  by (simp add: diagnostic_blocks_def try_read_def bank_ops_def)

end
