(* ===== verification/Read_Example.thy ===== *)
theory Read_Example
  imports Rtu_Response Text_Format
begin

text \<open>
  The example program \<open>docs/read_example.cpp\<close>, which reads the running mode of the heat pump through the
  gateway with one request. The socket calls are the parameter \<open>os\<close> on a state \<open>'n\<close> of the network; a
  \<open>read\<close> that fails is \<open>None\<close>. The texts of \<open>perror\<close> are left out.
\<close>

record 'n example_os =
  ex_socket :: "'n \<Rightarrow> int \<times> 'n"
  ex_inet_pton :: "string \<Rightarrow> int"
  ex_connect :: "int \<Rightarrow> string \<Rightarrow> u16 \<Rightarrow> 'n \<Rightarrow> int \<times> 'n"
  ex_write :: "int \<Rightarrow> u8 list \<Rightarrow> 'n \<Rightarrow> int \<times> 'n"
  ex_read :: "int \<Rightarrow> nat \<Rightarrow> 'n \<Rightarrow> u8 list option \<times> 'n"
  ex_close :: "int \<Rightarrow> 'n \<Rightarrow> 'n"

definition modbus_crc16 :: "u8 list \<Rightarrow> nat \<Rightarrow> u16" where
  "modbus_crc16 buf len =
     foldl (\<lambda>crc b. ((\<lambda>crc. if crc AND 1 \<noteq> 0 then drop_bit 1 crc XOR 0xA001 else drop_bit 1 crc) ^^ 8) (crc XOR ucast b))
       0xFFFF (take len buf)"

definition mode_name :: "u16 \<Rightarrow> string" where
  "mode_name mode =
     (if mode = 0 then ''Off'' else if mode = 1 then ''Cool'' else if mode = 2 then ''Heat'' else if mode = 4 then ''DHW''
      else if mode = 7 then ''Defrost'' else if mode = 20 then ''Home Anti-Freeze'' else ''Unknown'')"

definition example_slave :: u8 where "example_slave = 11"

text \<open>The request, filled in byte by byte.\<close>

definition example_request :: "u8 list" where
  "example_request =
     (let req = replicate 8 0;
          req = req[0 := example_slave]; req = req[1 := 0x03]; req = req[2 := 0x00]; req = req[3 := 0x2D];
          req = req[4 := 0x00]; req = req[5 := 0x01];
          crc = modbus_crc16 req 6;
          req = req[6 := ucast (crc AND 0xFF)]; req = req[7 := ucast (drop_bit 8 crc AND 0xFF)]
      in req)"

text \<open>What is made of the result of \<open>read\<close>: the exit code and the output.\<close>

definition example_report :: "u8 list option \<Rightarrow> int \<times> string" where
  "example_report result =
     (let n = (case result of None \<Rightarrow> - 1 | Some bs \<Rightarrow> int (length bs))
      in if n < 7 then (1, ''Ongeldig of te kort antwoord, bytes='' @ fmt_d n @ [CHR 0x0A])
      else let resp = the result; k = nat n;
               resp_crc = ucast (resp ! (k - 2)) OR push_bit 8 (ucast (resp ! (k - 1)));
               calc_crc = modbus_crc16 resp (k - 2)
      in if resp_crc \<noteq> calc_crc then (1, ''CRC fout'' @ [CHR 0x0A])
      else if resp ! 0 \<noteq> example_slave \<or> resp ! 1 \<noteq> 0x03
      then (1, ''Modbus fout of verkeerde slave/function'' @ [CHR 0x0A])
      else let mode = push_bit 8 (ucast (resp ! 3)) OR ucast (resp ! 4)
      in (0, ''Running mode raw: '' @ fmt_d (uint mode) @ [CHR 0x0A] @ ''Running mode: '' @ mode_name mode @ [CHR 0x0A]))"

definition read_example_main :: "'n example_os \<Rightarrow> 'n \<Rightarrow> int \<times> string \<times> 'n" where
  "read_example_main os n =
     (case ex_socket os n of (sock, n) \<Rightarrow>
        if sock < 0 then (1, [], n)
        else if ex_inet_pton os ''192.168.1.50'' \<noteq> 1 then (1, [], ex_close os sock n)
        else case ex_connect os sock ''192.168.1.50'' 4196 n of (rc, n) \<Rightarrow>
          if rc < 0 then (1, [], ex_close os sock n)
          else case ex_write os sock example_request n of (written, n) \<Rightarrow>
            if written \<noteq> 8 then (1, [], ex_close os sock n)
            else case ex_read os sock 256 n of (result, n) \<Rightarrow>
              case example_report result of (code, out) \<Rightarrow> (code, out, ex_close os sock n))"

section \<open>The checks of the example and of the clients\<close>

lemma modbus_crc16_eq: "modbus_crc16 buf len = crc16 (take len buf)"
proof -
  have "(\<lambda>crc. if crc AND 1 \<noteq> 0 then drop_bit 1 crc XOR 0xA001 else drop_bit 1 crc) = crc16_bit"
    by (simp add: fun_eq_iff crc16_bit_def)
  then show ?thesis by (simp add: modbus_crc16_def crc16_def crc16_byte_def [abs_def])
qed

text \<open>The request is the frame that the clients of the controller build for the running status.\<close>

lemma example_request_eq: "example_request = read_request 11 REG_RUNNING_STATUS"
proof -
  have "hi_byte REG_RUNNING_STATUS = 0" "lo_byte REG_RUNNING_STATUS = 0x2D" by (simp_all add: hi_byte_def lo_byte_def)
  then show ?thesis
    unfolding example_request_def hi_byte_def [symmetric] unfolding lo_byte_def [symmetric]
    by (simp add: example_slave_def modbus_crc16_eq read_request_def with_crc_def Let_def numeral_eq_Suc)
qed

definition mode_report :: "u16 \<Rightarrow> string" where
  "mode_report mode = ''Running mode raw: '' @ fmt_d (uint mode) @ [CHR 0x0A] @ ''Running mode: '' @ mode_name mode @ [CHR 0x0A]"

lemma example_report_ok:
  "example_report (Some bs) = (0, out) \<longleftrightarrow>
     7 \<le> length bs \<and> crc_matches bs \<and> bs ! 0 = 11 \<and> bs ! 1 = 3 \<and> out = mode_report (join_bytes (bs ! 3) (bs ! 4))"
  by (auto simp: example_report_def crc_matches_def modbus_crc16_eq example_slave_def join_bytes_def mode_report_def
      or.commute Let_def)

text \<open>Unlike the clients of the controller the example does not look at the byte count.\<close>

lemma byte_count_not_checked: "example_report (Some (with_crc [11, 3, count, hi_byte v, lo_byte v])) = (0, mode_report v)"
  by (simp add: example_report_ok crc_matches_with_crc with_crc_nth)

lemma example_report_None: "fst (example_report None) = 1"
  by (simp add: example_report_def)

section \<open>On a gateway that answers\<close>

text \<open>
  A network on which the calls succeed and one \<open>read\<close> gives the whole answer of a device with the registers
  \<open>reg\<close>, which change only when they are written.
\<close>

locale mode_gateway =
  fixes os :: "'n example_os" and reg :: "'n \<Rightarrow> u16 \<Rightarrow> i16" and held readable :: "u16 set"
  assumes socket: "ex_socket os n = (sock, n1) \<Longrightarrow> 0 \<le> sock \<and> reg n1 = reg n"
    and pton: "ex_inet_pton os ''192.168.1.50'' = 1"
    and connect: "ex_connect os sock ip port n = (rc, n1) \<Longrightarrow> 0 \<le> rc \<and> reg n1 = reg n"
    and exchange: "ex_write os sock f n = (w, n1) \<Longrightarrow> ex_read os sock 256 n1 = (b, n2) \<Longrightarrow>
      w = int (length f) \<and> (\<exists>bs. b = Some bs \<and> rtu_answers 11 held readable f (reg n) bs (reg n2))"
    and close: "reg (ex_close os sock n) = reg n"
begin

lemma prints_mode:
  assumes "REG_RUNNING_STATUS \<in> held" "REG_RUNNING_STATUS \<in> readable"
  shows "\<exists>n'. read_example_main os n = (0, mode_report (reg n REG_RUNNING_STATUS), n') \<and> (\<forall>s \<in> held. reg n' s = reg n s)"
proof -
  obtain sock n1 where 1: "ex_socket os n = (sock, n1)" "0 \<le> sock" "reg n1 = reg n"
    using socket by (metis surj_pair)
  obtain rc n2 where 2: "ex_connect os sock ''192.168.1.50'' 4196 n1 = (rc, n2)" "0 \<le> rc" "reg n2 = reg n"
    using connect 1 by (metis surj_pair)
  obtain w n3 b n4 where 3: "ex_write os sock example_request n2 = (w, n3)" "ex_read os sock 256 n3 = (b, n4)"
    by (metis surj_pair)
  obtain bs where bs: "b = Some bs" "rtu_answers 11 held readable example_request (reg n) bs (reg n4)" and w: "w = 8"
    using exchange [OF 3] 2(3) by (auto simp: example_request_eq)
  obtain v where "bs = [11, 3, 2] @ value_tail 11 v" "\<forall>s \<in> held. reg n4 s = reg n s" "v = reg n REG_RUNNING_STATUS"
    using bs(2) assms unfolding example_request_eq by (auto elim!: rtu_answers_read)
  moreover have "value_tail 11 v ! 0 = hi_byte v" "value_tail 11 v ! Suc 0 = lo_byte v"
    by (simp_all add: value_tail_def with_crc_def)
  ultimately have "example_report b = (0, mode_report (reg n REG_RUNNING_STATUS))"
    unfolding bs(1) example_report_ok using value_response [of 11 v] by (simp add: numeral_eq_Suc)
  then show ?thesis
    using 1 2 3 w pton close \<open>\<forall>s \<in> held. reg n4 s = reg n s\<close> by (simp add: read_example_main_def)
qed

end

text \<open>The instance for the concrete runs: the registers of the device and the answer that is on its way.\<close>

definition example_gateway :: "u16 list \<Rightarrow> ((u16 \<Rightarrow> i16) \<times> u8 list) example_os" where
  "example_gateway served =
     \<lparr>ex_socket = (\<lambda>n. (3, n)), ex_inet_pton = (\<lambda>ip. 1), ex_connect = (\<lambda>sock ip port n. (0, n)),
      ex_write = (\<lambda>sock f (r, rx). case rtu_device 11 served f r of (bs, r) \<Rightarrow> (int (length f), (r, bs))),
      ex_read = (\<lambda>sock k (r, rx). (Some (take k rx), (r, drop k rx))), ex_close = (\<lambda>sock n. n)\<rparr>"

lemma rtu_device_take:
  assumes "rtu_device 11 served f r = (bs, r')"
  shows "rtu_answers 11 (set served) (set served) f r (take 256 bs) r'"
proof -
  have "length bs \<le> 256" using assms by (auto simp: rtu_device_def Let_def split: if_splits)
  with rtu_device_answers [OF assms] show ?thesis by simp
qed

interpretation eg: mode_gateway "example_gateway served" fst "set served" "set served" for served
  by unfold_locales (auto simp: example_gateway_def split: prod.splits intro: rtu_device_take)

section \<open>Property\<close>

text \<open>
  C40. The example program reports a mode only on evidence: whatever the network does, its exit code is 0 or
  1, and with 0 it has sent the request that the controller's own clients send for the running status, and the
  mode it prints is in a response of at least seven bytes whose checksum is right, from slave 11 and for
  function 3. A socket that was opened is closed at the end on every path.
\<close>

theorem read_example_sound:
  assumes "read_example_main os n = (code, out, n')" "ex_socket os n = (sock, n0)"
  shows "(code = 0 \<or> code = 1) \<and> (0 \<le> sock \<longrightarrow> (\<exists>m. n' = ex_close os sock m)) \<and>
    (code = 0 \<longrightarrow> (\<exists>n1 n2 n3 bs. ex_write os sock (read_request 11 REG_RUNNING_STATUS) n1 = (8, n2) \<and>
       ex_read os sock 256 n2 = (Some bs, n3) \<and> 7 \<le> length bs \<and> crc16 bs = 0 \<and> bs ! 0 = 11 \<and> bs ! 1 = 3 \<and>
       out = mode_report (join_bytes (bs ! 3) (bs ! 4))))"
proof -
  have codes: "fst (example_report r) = 0 \<or> fst (example_report r) = 1" for r
    by (auto simp: example_report_def Let_def)
  have good: "\<exists>bs. r = Some bs \<and> 7 \<le> length bs \<and> crc16 bs = 0 \<and> bs ! 0 = 11 \<and> bs ! 1 = 3 \<and>
      out = mode_report (join_bytes (bs ! 3) (bs ! 4))" if "example_report r = (0, out)" for r
    using that example_report_ok crc_matches_residue example_report_None by (cases r) fastforce+
  show ?thesis
    using assms codes good unfolding read_example_main_def example_request_eq
    by (auto split: prod.splits if_splits) (metis fst_conv)+
qed

theorem read_example_sound_witness:
  "\<exists>n' bs. read_example_main (example_gateway [REG_RUNNING_STATUS]) ((\<lambda>a. 2), []) = (0, mode_report 2, n') \<and>
     7 \<le> length bs \<and> crc16 bs = 0 \<and> bs ! 0 = 11 \<and> mode_report 2 = mode_report (join_bytes (bs ! 3) (bs ! 4))"
proof -
  obtain n' where r: "read_example_main (example_gateway [REG_RUNNING_STATUS]) ((\<lambda>a. 2), []) = (0, mode_report 2, n')"
    using eg.prints_mode [of "[REG_RUNNING_STATUS]" "(\<lambda>a. 2, [])"] by auto
  obtain sock n0 where "ex_socket (example_gateway [REG_RUNNING_STATUS]) ((\<lambda>a. 2), []) = (sock, n0)"
    by (metis surj_pair)
  from read_example_sound [OF r this] obtain bs :: "u8 list" where
    "7 \<le> length bs" "crc16 bs = 0" "bs ! 0 = 11" "mode_report 2 = mode_report (join_bytes (bs ! 3) (bs ! 4))"
    by blast
  with r show ?thesis by blast
qed

end
