(* ===== verification/Timed_Wait.thy ===== *)
theory Timed_Wait
  imports Platform_Services
begin

text \<open>
  The timed wait of a condition variable, \<open>ConditionVariable::wait_for\<close> of \<open>src/utils/Platform.cpp\<close> in the POSIX
  build, with the deadline it computes, under the loop of \<open>include/utils/Platform.hpp\<close>. The clock and
  \<open>pthread_cond_timedwait\<close> are parameters.
\<close>

record timespec =
  tv_sec :: int
  tv_nsec :: int

text \<open>The point in time after \<open>ms\<close> milliseconds; the products and quotients of \<open>ms\<close> are unsigned 32-bit numbers.\<close>

definition wait_deadline :: "u32 \<Rightarrow> timespec \<Rightarrow> timespec" where
  "wait_deadline ms ts =
     (let ts = ts\<lparr>tv_nsec := tv_nsec ts + uint ((ms mod 1000) * 1000000)\<rparr>;
          ts = ts\<lparr>tv_sec := tv_sec ts + uint (ms div 1000 + (if tv_nsec ts \<ge> 1000000000 then 1 else 0))\<rparr>
      in if tv_nsec ts \<ge> 1000000000 then ts\<lparr>tv_nsec := tv_nsec ts - 1000000000\<rparr> else ts)"

definition cv_timed_wait :: "('s \<Rightarrow> timespec) \<Rightarrow> (timespec \<Rightarrow> 's \<Rightarrow> int \<times> 's) \<Rightarrow> u32 \<Rightarrow> 's \<Rightarrow> bool \<times> 's" where
  "cv_timed_wait clock timedwait ms s =
     (case timedwait (wait_deadline ms (clock s)) s of (rc, s) \<Rightarrow> (rc = 0, s))"

section \<open>The deadline\<close>

definition time_ns :: "timespec \<Rightarrow> int" where
  "time_ns ts = tv_sec ts * 1000000000 + tv_nsec ts"

definition timespec_ok :: "timespec \<Rightarrow> bool" where
  "timespec_ok ts \<longleftrightarrow> 0 \<le> tv_nsec ts \<and> tv_nsec ts < 1000000000"

text \<open>None of the 32-bit operations wraps around.\<close>

lemma ms_parts:
  fixes ms :: u32
  shows "uint ((ms mod 1000) * 1000000) = (uint ms mod 1000) * 1000000"
    and "uint (ms div 1000 + (if b then 1 else 0)) = uint ms div 1000 + (if b then 1 else 0)"
proof -
  have small: "uint ms mod 1000 * 1000000 < 2 ^ 32" "uint ms div 1000 + 1 < 2 ^ 32"
    using uint_lt2p [of ms] pos_mod_bound [of 1000 "uint ms"] by auto
  show "uint ((ms mod 1000) * 1000000) = (uint ms mod 1000) * 1000000"
    using small(1) by (simp add: uint_word_ariths uint_mod take_bit_eq_mod)
  show "uint (ms div 1000 + (if b then 1 else 0)) = uint ms div 1000 + (if b then 1 else 0)"
    using small(2) pos_imp_zdiv_nonneg_iff [of 1000 "uint ms"] by (simp add: uint_word_ariths uint_div take_bit_eq_mod)
qed

lemma wait_deadline_exact:
  assumes "timespec_ok ts"
  shows "timespec_ok (wait_deadline ms ts)" "time_ns (wait_deadline ms ts) = time_ns ts + uint ms * 1000000"
proof -
  have "uint ms mod 1000 \<le> 999" "0 \<le> uint ms mod 1000" by simp_all
  then show "timespec_ok (wait_deadline ms ts)"
    using assms by (simp add: wait_deadline_def ms_parts Let_def timespec_ok_def)
  show "time_ns (wait_deadline ms ts) = time_ns ts + uint ms * 1000000"
    by (simp add: wait_deadline_def ms_parts Let_def time_ns_def algebra_simps) (simp add: minus_mult_div_eq_mod [symmetric])
qed

section \<open>Waiting\<close>

text \<open>
  A clock that does not run backwards, and a \<open>pthread_cond_timedwait\<close> that reports anything but 0 only when the
  deadline is over, provided the deadline is a proper time (another one is refused at once).
\<close>

locale monotonic_wait =
  fixes clock :: "'s \<Rightarrow> timespec" and timedwait :: "timespec \<Rightarrow> 's \<Rightarrow> int \<times> 's"
  assumes clock_ok: "timespec_ok (clock s)"
    and monotonic: "timedwait d s = (rc, s') \<Longrightarrow> time_ns (clock s) \<le> time_ns (clock s')"
    and timeout: "timespec_ok d \<Longrightarrow> timedwait d s = (rc, s') \<Longrightarrow> rc \<noteq> 0 \<Longrightarrow> time_ns d \<le> time_ns (clock s')"
begin

lemma timed_wait_cases:
  assumes "cv_timed_wait clock timedwait ms s = (b, s')"
  shows "time_ns (clock s) \<le> time_ns (clock s')" "\<not> b \<Longrightarrow> time_ns (clock s) + uint ms * 1000000 \<le> time_ns (clock s')"
proof -
  obtain rc where t: "timedwait (wait_deadline ms (clock s)) s = (rc, s')" "b = (rc = 0)"
    using assms by (auto simp: cv_timed_wait_def split: prod.splits)
  then show "time_ns (clock s) \<le> time_ns (clock s')" by (blast intro: monotonic)
  show "time_ns (clock s) + uint ms * 1000000 \<le> time_ns (clock s')" if "\<not> b"
    using timeout [OF wait_deadline_exact(1) [OF clock_ok] t(1)] t(2) that
    by (simp add: wait_deadline_exact(2) [OF clock_ok])
qed

lemma wait_for_not_early:
  assumes "cv_wait_for pred (cv_timed_wait clock timedwait ms) s = Some r" "\<not> fst r"
  shows "time_ns (clock s) + uint ms * 1000000 \<le> time_ns (clock (snd r))"
proof -
  let ?P = "\<lambda>pred block s r. block = cv_timed_wait clock timedwait ms \<longrightarrow> \<not> fst r \<longrightarrow>
      time_ns (clock s) + uint ms * 1000000 \<le> time_ns (clock (snd r))"
  have "?P pred (cv_timed_wait clock timedwait ms) s r"
  proof (rule cv_wait_for.raw_induct [OF _ assms(1), of ?P])
    fix rec :: "('s \<Rightarrow> bool) \<Rightarrow> ('s \<Rightarrow> bool \<times> 's) \<Rightarrow> 's \<Rightarrow> (bool \<times> 's) option" and pred block s r
    assume IH: "\<And>pred block s r. rec pred block s = Some r \<Longrightarrow> ?P pred block s r"
      and run: "(if pred s then Some (True, s) else case block s of (notified, s) \<Rightarrow>
        if notified then rec pred block s else Some (pred s, s)) = Some r"
    obtain b s1 where w: "block s = (b, s1)" by (cases "block s")
    show "?P pred block s r"
    proof (intro impI)
      assume *: "block = cv_timed_wait clock timedwait ms" "\<not> fst r"
      note t = timed_wait_cases [OF w [unfolded *(1)]]
      show "time_ns (clock s) + uint ms * 1000000 \<le> time_ns (clock (snd r))"
        using run * w t IH [of pred block s1 r] by (auto split: if_splits)
    qed
  qed
  with assms(2) show ?thesis by simp
qed

end

text \<open>The instance for the concrete runs: the time in nanoseconds and the times of the notifications to come.\<close>

definition tick_clock :: "nat \<times> nat list \<Rightarrow> timespec" where
  "tick_clock s = \<lparr>tv_sec = int (fst s) div 1000000000, tv_nsec = int (fst s) mod 1000000000\<rparr>"

fun tick_wait :: "timespec \<Rightarrow> nat \<times> nat list \<Rightarrow> int \<times> nat \<times> nat list" where
  "tick_wait d (now, []) = (110, max now (nat (time_ns d)), [])"
| "tick_wait d (now, t # ts) =
     (if int t \<le> time_ns d then (0, max now t, ts) else (110, max now (nat (time_ns d)), t # ts))"

lemma tick_clock_ns [simp]: "time_ns (tick_clock s) = int (fst s)"
  by (simp add: time_ns_def tick_clock_def)

interpretation tw: monotonic_wait tick_clock tick_wait
proof
  show "timespec_ok (tick_clock s)" for s by (simp add: timespec_ok_def tick_clock_def)
  show "time_ns (tick_clock s) \<le> time_ns (tick_clock s')" if "tick_wait d s = (rc, s')" for d s rc s'
    using that by (cases "(d, s)" rule: tick_wait.cases) (auto split: if_splits)
  show "time_ns d \<le> time_ns (tick_clock s')" if "tick_wait d s = (rc, s')" "rc \<noteq> 0" for d s rc s'
    using that by (cases "(d, s)" rule: tick_wait.cases) (auto split: if_splits)
qed

section \<open>Property\<close>

text \<open>
  C39. A timed wait never gives up early: when \<open>wait_for\<close> with a predicate returns false, the predicate does
  not hold and at least \<open>ms\<close> milliseconds have passed on the monotonic clock since the call, however often the
  thread was woken in between, for every \<open>ms\<close> that 32 bits can hold.
\<close>

theorem timed_wait_not_early:
  assumes "monotonic_wait clock timedwait"
    and "cv_wait_for pred (cv_timed_wait clock timedwait ms) s = Some (False, s')"
  shows "\<not> pred s' \<and> time_ns (clock s) + uint ms * 1000000 \<le> time_ns (clock s')"
  using monotonic_wait.wait_for_not_early [OF assms] cv_wait_for_result [OF assms(2)] by simp

text \<open>A wait of 1.5 seconds that is woken once in vain, at 0.7 seconds, ends after 2.2 seconds.\<close>

lemma tick_run:
  "cv_wait_for (\<lambda>s. False) (cv_timed_wait tick_clock tick_wait 1500) (0, [700000000]) = Some (False, (2200000000, []))"
  by (subst cv_wait_for.simps, simp add: cv_timed_wait_def wait_deadline_def tick_clock_def time_ns_def Let_def)
    (subst cv_wait_for.simps, simp add: cv_timed_wait_def wait_deadline_def tick_clock_def time_ns_def Let_def)

theorem timed_wait_not_early_witness:
  "time_ns (tick_clock (0, [700000000])) + uint (1500 :: u32) * 1000000 \<le> time_ns (tick_clock (2200000000, []))"
  using timed_wait_not_early [OF tw.monotonic_wait_axioms tick_run] by simp

end
