(* ===== verification/Request_Effect.thy ===== *)
theory Request_Effect
  imports Controller Control_Stable Tcp_Correct
begin

text \<open>
  From the web page to the device: what a request to \<open>/api/set-mode\<close> or \<open>/api/set-dhw\<close> does to the registers of
  the heat pump, through the handler, the command queue and the next iteration of the control loop, over any
  client that reaches a working device.
\<close>

section \<open>The last command\<close>

lemma exec_all_snoc: "exec_all ops (cmds @ [cmd]) s = Option.bind (exec_all ops cmds s) (exec_command ops cmd)"
  by (induction cmds arbitrary: s) (simp_all split: Option.bind_splits)

lemma exec_mode_wanted:
  assumes "cmd_type cmd = CMD_SET_RUNNING_MODE" "exec_command ops cmd s = Some s'"
  shows "desired_working_mode s' = int_val cmd"
proof -
  let ?s = "fireSettingsCallback (s\<lparr>desired_working_mode := int_val cmd\<rparr>)"
  obtain rc s1 where s1: "setRunningMode ops (device_mode (int_val cmd)) ?s = (rc, s1)" by (metis surj_pair)
  have w: "desired_working_mode s1 = int_val cmd"
    by (rule wanted.setRunningMode_stable [OF s1]) (simp add: fireSettingsCallback_def)
  show ?thesis
    using assms s1 w wanted.mode_overrides_stable [of ops "int_val cmd" "s1\<lparr>current_mode := device_mode (int_val cmd)\<rparr>" s']
    by (auto simp: exec_command_def set_working_mode_def split: if_splits)
qed

text \<open>The device reports one of its modes, and the saved targets convert to register values.\<close>

definition in_step :: "('c \<Rightarrow> u16 \<Rightarrow> i16) \<Rightarrow> 'c \<Rightarrow> 'c ControlLoop \<Rightarrow> bool" where
  "in_step reg c s \<longleftrightarrow> modbus_client s = Some c \<and> sint (reg c REG_RUNNING_MODE) \<in> {0, 1, 2} \<and>
     target_ok UNIV 40 63 (saved_dhw_target s) \<and> target_ok UNIV 25 63 (saved_heating_target s)"

context heat_pump
begin

lemma in_step_good:
  assumes "in_step reg c s" "ready c"
  shows "coherent (dev s REG_DHW_PRIORITY, current_priority s) s" "wg.guarded s"
  using assms by (auto simp: in_step_def coherent_def up_def dev_def wg.guarded_def)

text \<open>An iteration, cut after the last of the commands that are waiting.\<close>

lemma iteration_parts:
  assumes c: "coherent z s" and g: "wg.guarded s" and q: "cmd_queue s = Some q" "queue_valid q" "cq_list q = cmds @ [cmd]"
  obtains s0 s1 q' s' where "coherent z s0" "exec_command ops cmd s0 = Some s1" "coherent z s1" "wg.guarded s1"
    "read_and_control ops (s1\<lparr>cmd_queue := Some q'\<rparr>) = Some s'" "loop_iteration ops stops s = Some s'"
proof -
  have v: "cq_inv q" "list_all cmd_valid cmds" "cmd_valid cmd"
    using q(2,3) by (auto simp: queue_valid_def simp del: cmd_valid.simps)
  obtain cl where "modbus_client s = Some cl" "ready cl" using c by (auto simp: coherent_def up_def)
  then have e: "ensure_connected ops stops s = Some (True, s)" using connected by (simp add: ensure_connected_def)
  have "queue_valid q1" if "cmd_queue s = Some q1" for q1 using that q by simp
  from wg.processCommands_keeps [OF g this] obtain s2 where s2: "processCommands ops s = Some s2" "wg.guarded s2" by blast
  obtain q' s1 where s1: "exec_all ops (cmds @ [cmd]) s = Some s1" "s2 = s1\<lparr>cmd_queue := Some q'\<rparr>"
    using process_queue_exec_all [OF v(1), of ops s] s2(1) q by (auto simp: processCommands_def bind_eq_Some_conv)
  then obtain s0 where s0: "exec_all ops cmds s = Some s0" "exec_command ops cmd s0 = Some s1"
    by (auto simp: exec_all_snoc bind_eq_Some_conv)
  have c0: "coherent z s0" using exec_all_coherent [OF c v(2) s0(1)] .
  have c1: "coherent z s1" using exec_command_coherent [OF c0 v(3) s0(2)] .
  have g1: "wg.guarded s1" using s2(2) s1(2) by simp
  obtain s' where "read_and_control ops s2 = Some s'"
    using read_and_control_up [of z s2] c1 s2(2) s1(2) by auto
  then show thesis using c0 s0(2) c1 g1 e s2(1) s1(2) by (intro that [of s0 s1 q' s']) (auto simp: loop_iteration_def)
qed

lemma mode_command_effect:
  assumes "coherent z s" "wg.guarded s" "cmd_queue s = Some q" "queue_valid q" "cq_list q = cmds @ [cmd]"
    and "cmd_type cmd = CMD_SET_RUNNING_MODE"
  shows "\<exists>s'. loop_iteration ops stops s = Some s' \<and> up s' \<and> mode_table (dev s') s' \<and> desired_working_mode s' = int_val cmd"
proof -
  obtain s0 s1 q' s' where p: "coherent z s0" "exec_command ops cmd s0 = Some s1" "coherent z s1" "wg.guarded s1"
      "read_and_control ops (s1\<lparr>cmd_queue := Some q'\<rparr>) = Some s'" "loop_iteration ops stops s = Some s'"
    using assms(1-5) by (rule iteration_parts)
  let ?s = "s1\<lparr>cmd_queue := Some q'\<rparr>"
  have r: "coherent z s' \<and> controlled ?s s'" using read_and_control_up [of z ?s] p by simp
  have w: "desired_working_mode s' = int_val cmd"
    using read_and_control_wanted [OF p(5)] exec_mode_wanted [OF assms(6) p(2)] by simp
  have "mode_table (dev s') s'"
  proof (cases "int_val cmd \<in> {1, 2, 3}")
    case True
    have "cmd_valid cmd" using assms(4,5) by (simp add: queue_valid_def del: cmd_valid.simps)
    then have "agrees s1" using exec_command_agrees [OF p(1) _ _ p(2)] True assms(6) by (simp add: sets_priority_def)
    then have "coherent (1, Dhw) ?s" using coherent_any [OF p(3)] by simp
    from read_and_control_up [OF this] p(4,5) have "agrees s'" by (auto simp: coherent_agrees)
    with r show ?thesis by (simp add: controlled_def)
  next
    case False
    with r w show ?thesis by (auto simp: controlled_def mode_table_split priority_table_def)
  qed
  then show ?thesis using p(6) r w coherent_up by blast
qed

text \<open>
  A hot-water target: when the register and the saved target agree on the raw value \<open>w\<close>, a poll leaves the register
  alone or writes \<open>w\<close> again, except in the mode that is for heating only.
\<close>

lemma enforce_targets_dhw:
  assumes c: "coherent z s" and w: "temp_to_raw (saved_dhw_target s) = Some w" "dev s REG_DHW_TARGET = w"
    and v: "temp_to_raw (saved_heating_target s) = Some v" and m: "desired_working_mode s \<noteq> 2"
    and e: "enforce_targets ops st s = Some s'"
  shows "dev s' REG_DHW_TARGET = w"
proof -
  have dhw: "dev s1 REG_DHW_TARGET = w \<and> up s1 \<and> saved_heating_target s1 = saved_heating_target s"
    if "setDhwTarget ops (saved_dhw_target s) s = Some (r, s1)" for r s1
    using setDhwTarget_up [OF coherent_up [OF c] w(1)] that by (auto simp: wrote_def control_def)
  have heat: "dev s2 REG_DHW_TARGET = w"
    if "setHeatingTarget ops t s1 = Some (r, s2)" "up s1" "dev s1 REG_DHW_TARGET = w" "temp_to_raw t = Some x" for t r s1 s2 x
    using setHeatingTarget_up [OF that(2,4)] that(1,3) by (auto simp: wrote_def)
  show ?thesis
    using e m w v c dhw heat minima_raw(1)
    by (auto simp: enforce_targets_def bind_eq_Some_conv coherent_up split: if_splits)
qed

lemma readStatus_dhw:
  assumes "coherent z s" "temp_to_raw (saved_dhw_target s) = Some (dev s REG_DHW_TARGET)" "readStatus ops st s = (b, st', s')"
  shows "dev s' REG_DHW_TARGET = dev s REG_DHW_TARGET" "temp_to_raw (saved_dhw_target s') = Some (dev s REG_DHW_TARGET)"
proof -
  obtain c where c: "modbus_client s = Some c" "ready c" using assms(1) by (auto simp: coherent_def up_def)
  obtain c' where "same_held c c'" and s': "s' = (seen_heating (reg c REG_HEATING_TARGET)
      (seen_dhw (reg c REG_DHW_TARGET) (seen_mode (reg c REG_RUNNING_MODE) s)))
        \<lparr>modbus_client := Some c', saved_targets_initialized := True\<rparr>"
    using readStatus_ready [OF c assms(3)] by blast
  then show "dev s' REG_DHW_TARGET = dev s REG_DHW_TARGET" using c(1) by (simp add: dev_def same_held_def)
  show "temp_to_raw (saved_dhw_target s') = Some (dev s REG_DHW_TARGET)"
    using assms(2) c(1) s' temp_to_raw_raw_to_temp
    by (auto simp: seen_heating_def seen_dhw_def seen_mode_def dev_def Let_def)
qed

lemma applyControlLogic_dhw:
  assumes "coherent z s" "wg.guarded s" "current_mode s = sint (dev s REG_RUNNING_MODE)" "desired_working_mode s \<noteq> 2"
    and "temp_to_raw (saved_dhw_target s) = Some (dev s REG_DHW_TARGET)" "applyControlLogic ops st s = Some s'"
    and d: "dhw_target st = raw_to_temp (dev s REG_DHW_TARGET)"
    and h: "heating_target st = raw_to_temp (dev s REG_HEATING_TARGET)"
  shows "dev s' REG_DHW_TARGET = dev s REG_DHW_TARGET"
proof -
  let ?s = "correct_mode ops s"
  note cm = correct_mode_up [OF assms(1,3)]
  have g: "wg.guarded ?s" using wg.correct_mode_keeps [OF assms(2)] by (simp add: wg.keeps_def)
  obtain v where v: "temp_to_raw (saved_heating_target ?s) = Some v" using g by (rule guarded_saved_raw)
  obtain s1 where s1: "enforce_targets ops st ?s = Some s1" "enforce_priority ops s1 = Some s'"
    using assms(6) by (auto simp: applyControlLogic_def bind_eq_Some_conv)
  have "dev s1 REG_DHW_TARGET = dev s REG_DHW_TARGET"
    using enforce_targets_dhw [OF _ _ _ v _ s1(1), of z] cm assms(4,5) by simp
  moreover have "coherent z s1" using enforce_targets_up [OF _ g, of z st] cm d h s1(1) by auto
  ultimately show ?thesis using enforce_priority_up [of z s1] s1(2) by auto
qed

lemma read_and_control_dhw:
  assumes "coherent z s" "wg.guarded s" "temp_to_raw (saved_dhw_target s) = Some (dev s REG_DHW_TARGET)"
    and "desired_working_mode s \<noteq> 2" "read_and_control ops s = Some s'"
  shows "dev s' REG_DHW_TARGET = dev s REG_DHW_TARGET"
proof -
  obtain b st s1 where r: "readStatus ops StatusSnapshot_default s = (b, st, s1)" by (metis surj_pair)
  note k = readStatus_coherent [OF assms(1) r] and d = readStatus_dhw [OF assms(1,3) r]
  have g: "wg.guarded s1" using wg.readStatus_keeps [OF assms(2) r] by blast
  obtain s2 where s2: "applyControlLogic ops st s1 = Some s2" "dev s' = dev s2"
    using assms(5) r k by (auto simp: read_and_control_def bind_eq_Some_conv)
  have "dev s2 REG_DHW_TARGET = dev s1 REG_DHW_TARGET"
    by (rule applyControlLogic_dhw [OF _ g _ _ _ s2(1)]) (use k d assms(4) in auto)
  with s2(2) d(1) show ?thesis by simp
qed

lemma dhw_command_effect:
  assumes "coherent z s" "wg.guarded s" "cmd_queue s = Some q" "queue_valid q" "cq_list q = cmds @ [cmd]"
    and "cmd_type cmd = CMD_SET_DHW_TEMP" "temp_to_raw (float_val cmd) = Some w"
  shows "\<exists>s'. loop_iteration ops stops s = Some s' \<and> up s' \<and> (desired_working_mode s' \<noteq> 2 \<longrightarrow> dev s' REG_DHW_TARGET = w)"
proof -
  obtain s0 s1 q' s' where p: "coherent z s0" "exec_command ops cmd s0 = Some s1" "coherent z s1" "wg.guarded s1"
      "read_and_control ops (s1\<lparr>cmd_queue := Some q'\<rparr>) = Some s'" "loop_iteration ops stops s = Some s'"
    using assms(1-5) by (rule iteration_parts)
  obtain s2 where "setDhwTarget ops (float_val cmd) s0 = Some (0, s2)" "wrote REG_DHW_TARGET w s0 s2"
    using setDhwTarget_up [OF coherent_up [OF p(1)] assms(7)] by blast
  then have s1: "dev s1 REG_DHW_TARGET = w" "saved_dhw_target s1 = float_val cmd"
    using p(2) assms(6) by (auto simp: exec_command_def wrote_def)
  have "dev s' REG_DHW_TARGET = w" if "desired_working_mode s' \<noteq> 2"
    using read_and_control_dhw [OF _ _ _ _ p(5)] read_and_control_wanted [OF p(5)] p(3,4) s1 assms(7) that by simp
  moreover have "up s'" using read_and_control_up [of z "s1\<lparr>cmd_queue := Some q'\<rparr>"] p(3-5) coherent_up [of z s'] by auto
  ultimately show ?thesis using p(6) by blast
qed

lemma mode_effect:
  assumes "in_step reg c s" "ready c" "cmd_queue s = Some q" "queue_valid q" "cq_list q = cmds @ [cmd]"
    and "cmd_type cmd = CMD_SET_RUNNING_MODE"
  shows "\<exists>s' c'. loop_iteration ops stops s = Some s' \<and> modbus_client s' = Some c' \<and> ready c' \<and>
    desired_working_mode s' = int_val cmd \<and> mode_table (reg c') s'"
  using mode_command_effect [OF in_step_good [OF assms(1,2)] assms(3-), of stops]
  by (auto simp: up_def dev_def)

lemma dhw_effect:
  assumes "in_step reg c s" "ready c" "cmd_queue s = Some q" "queue_valid q" "cq_list q = cmds @ [cmd]"
    and "cmd_type cmd = CMD_SET_DHW_TEMP" "temp_to_raw (float_val cmd) = Some w"
  shows "\<exists>s' c'. loop_iteration ops stops s = Some s' \<and> modbus_client s' = Some c' \<and> ready c' \<and>
    (desired_working_mode s' \<noteq> 2 \<longrightarrow> reg c' REG_DHW_TARGET = w)"
  using dhw_command_effect [OF in_step_good [OF assms(1,2)] assms(3-), of stops]
  by (auto simp: up_def dev_def)

end

section \<open>Requests\<close>

text \<open>A push through the web server, seen from the control loop.\<close>

lemma pushed_request:
  assumes "cmd_queue s = Some q" "queue_valid q" "length (cq_list q) < 15" "cmd_valid cmd" "in_step reg c s"
  obtains reply w' q' where "queue_command cmd (with_queues s w) = (JsonReply 202 reply, w')"
    "cmd_queue (after_request w w' s) = Some q'" "queue_valid q'" "cq_list q' = cq_list q @ [cmd]"
    "in_step reg c (after_request w w' s)"
proof -
  have inv: "cq_inv q" using assms(2) by (simp add: queue_valid_def)
  obtain reply w' q' where w': "queue_command cmd (with_queues s w) = (JsonReply 202 reply, w')"
      "w_cmd_queue w' = Some q'" "cq_inv q'" "cq_list q' = cq_list q @ [cmd]"
    using cq.push_ok [OF inv, of cmd] assms(1,3)
    by (auto simp: queue_command_def with_queues_def sendJsonReply_def Let_def)
  have "in_step reg c (after_request w w' s)"
    using assms(5) by (simp add: in_step_def after_request_def kick_def Let_def)
  moreover have "cmd_queue (after_request w w' s) = Some q'" using w'(2) by (simp add: after_request_def kick_def Let_def)
  moreover have "queue_valid q'" using assms(2,4) w'(3,4) by (simp add: queue_valid_def del: cmd_valid.simps)
  ultimately show thesis using w'(1,4) by (intro that)
qed

text \<open>How the server's dispatch compares: the library's comparisons return 0 on equal text.\<close>

definition compares :: "mongoose \<Rightarrow> bool" where
  "compares mg \<longleftrightarrow> (\<forall>a b. mg_strcmp mg a b = 0 \<longleftrightarrow> a = b) \<and> (\<forall>a. mg_strcasecmp mg a a = 0)"

lemma to_int32_mode: "0 \<le> i \<Longrightarrow> i \<le> 3 \<Longrightarrow> to_int32 i = i"
  by (auto simp: to_int32_def signed_take_bit_int_eq_self sint_sbintrunc')

lemma mode_request_pushes:
  assumes "compares mg" "\<not> shutting_down w" "body \<noteq> []" "mg_json_get_long mg body ''$.mode'' (- 1) = m" "0 \<le> m" "m \<le> 3"
  shows "handleRequest mg \<lparr>hm_method = ''POST'', hm_uri = ''/api/set-mode'', hm_body = body\<rparr> (with_queues s w) =
    queue_command \<lparr>cmd_type = CMD_SET_RUNNING_MODE, float_val = Fin 0, int_val = m\<rparr> (with_queues s w)"
  using assms to_int32_mode [of m]
  by (simp add: handleRequest_def compares_def apiSetModeHandler_def isShuttingDown_def with_queues_def Let_def)

lemma dhw_request_pushes:
  assumes "compares mg" "\<not> shutting_down w" "body \<noteq> []" "mg_json_get_num mg body ''$.temperature'' = Some (Fin t)"
    and "40 \<le> t" "t \<le> 63"
  shows "handleRequest mg \<lparr>hm_method = ''POST'', hm_uri = ''/api/set-dhw'', hm_body = body\<rparr> (with_queues s w) =
    queue_command \<lparr>cmd_type = CMD_SET_DHW_TEMP, float_val = fp_to_f32 (Fin t), int_val = 0\<rparr> (with_queues s w)"
  using assms
  by (simp add: handleRequest_def compares_def apiSetDhwHandler_def isShuttingDown_def with_queues_def Let_def)

text \<open>A device behind the gateway, one command waiting, and requests for mode 3 and for 50 degrees.\<close>

abbreviation mode_mg :: mongoose where
  "mode_mg \<equiv> test_mg\<lparr>mg_json_get_long := (\<lambda>body path d. 3)\<rparr>"

abbreviation web_loop :: "gateway ModbusClient ControlLoop" where
  "web_loop \<equiv> ControlLoop_init\<lparr>modbus_client := Some tcp_pump, cmd_queue := Some demo_queue\<rparr>"

lemma web_loop_in_step:
  "in_step (\<lambda>m. gw_regs (snd m)) tcp_pump web_loop" "cmd_queue web_loop = Some demo_queue"
  "length (cq_list demo_queue) < 15" "tcp_ready 11 3 (\<lambda>g. True) tcp_pump" "compares test_mg" "compares mode_mg"
  "\<not> shutting_down test_server"
  by (simp_all add: in_step_def ControlLoop_init_def target_ok_Fin tcp_ready_def compares_def WebServer_init_def
      cq_list_def CmdQueue_push_def CmdQueue_init_def ring_len_def Let_def)

lemmas tcp_heat_pump = rtu_heat_pump.as_heat_pump [OF gwp.rtu_heat_pump_axioms]

section \<open>Properties\<close>

text \<open>
  C4. A request to change the working mode reaches the device: if the server is not shutting down, the body names
  a mode from 0 to 3, the queue has room, the device is reached and reports one of its modes, and the saved targets are in
  range or as the device reported them, then the request is answered 202, and the iteration that follows it
  returns with that mode as the wanted one and with the registers of the device as the table of that mode says,
  whatever valid commands were waiting before it.
\<close>

theorem mode_request_reaches_device:
  assumes "heat_pump ops ready reg held readable" "in_step reg c s" "ready c"
    and "cmd_queue s = Some q" "queue_valid q" "length (cq_list q) < 15"
    and "compares mg" "\<not> shutting_down w" "body \<noteq> []"
    and "mg_json_get_long mg body ''$.mode'' (- 1) = m" "0 \<le> m" "m \<le> 3"
  shows "\<exists>reply w' s' c'.
    handleRequest mg \<lparr>hm_method = ''POST'', hm_uri = ''/api/set-mode'', hm_body = body\<rparr> (with_queues s w) = (JsonReply 202 reply, w') \<and>
    loop_iteration ops stops (after_request w w' s) = Some s' \<and> modbus_client s' = Some c' \<and> ready c' \<and>
    desired_working_mode s' = m \<and> mode_table (reg c') s'"
proof -
  let ?cmd = "\<lparr>cmd_type = CMD_SET_RUNNING_MODE, float_val = Fin 0, int_val = m\<rparr>"
  have v: "cmd_valid ?cmd" by simp
  obtain reply w' q' where "queue_command ?cmd (with_queues s w) = (JsonReply 202 reply, w')"
      and s: "cmd_queue (after_request w w' s) = Some q'" "queue_valid q'" "cq_list q' = cq_list q @ [?cmd]"
      and "in_step reg c (after_request w w' s)"
    by (rule pushed_request [OF assms(4-6) v assms(2)])
  with heat_pump.mode_effect [OF assms(1) _ assms(3) s, of stops] mode_request_pushes [OF assms(7-12), of s] show ?thesis by auto
qed

theorem mode_request_reaches_device_witness:
  "\<exists>reply w' s' c'.
    handleRequest mode_mg \<lparr>hm_method = ''POST'', hm_uri = ''/api/set-mode'', hm_body = ''x''\<rparr> (with_queues web_loop test_server) =
      (JsonReply 202 reply, w') \<and>
    loop_iteration (tcp_ops (gateway_sockets 11 pump_registers 1)) (\<lambda>n. False) (after_request test_server w' web_loop) = Some s' \<and>
    modbus_client s' = Some c' \<and> tcp_ready 11 3 (\<lambda>g. True) c' \<and> desired_working_mode s' = 3 \<and> mode_table (gw_regs (snd c')) s'"
  by (rule mode_request_reaches_device [OF tcp_heat_pump web_loop_in_step(1,4,2) demo_queue_valid web_loop_in_step(3,6,7)])
    simp_all

text \<open>
  C5. A request to change the hot-water target reaches the device: with a temperature from 40 to 63 degrees and room
  in the queue, over a device that is reached and reports one of its modes, and with saved targets in range or as the
  device reported them, the request is answered 202, and the iteration that follows it returns with the target register
  holding the raw value of that temperature, between 400 and 630, unless the working mode by then is heating only,
  which keeps the hot-water target at its minimum.
\<close>

theorem dhw_request_reaches_device:
  assumes "heat_pump ops ready reg held readable" "in_step reg c s" "ready c"
    and "cmd_queue s = Some q" "queue_valid q" "length (cq_list q) < 15"
    and "compares mg" "\<not> shutting_down w" "body \<noteq> []"
    and "mg_json_get_num mg body ''$.temperature'' = Some (Fin t)" "40 \<le> t" "t \<le> 63"
  shows "\<exists>reply w' s' c' raw.
    handleRequest mg \<lparr>hm_method = ''POST'', hm_uri = ''/api/set-dhw'', hm_body = body\<rparr> (with_queues s w) = (JsonReply 202 reply, w') \<and>
    loop_iteration ops stops (after_request w w' s) = Some s' \<and> modbus_client s' = Some c' \<and> ready c' \<and>
    temp_to_raw (fp_to_f32 (Fin t)) = Some raw \<and> 400 \<le> sint raw \<and> sint raw \<le> 630 \<and>
    (desired_working_mode s' = 2 \<or> reg c' REG_DHW_TARGET = raw)"
proof -
  let ?cmd = "\<lparr>cmd_type = CMD_SET_DHW_TEMP, float_val = fp_to_f32 (Fin t), int_val = 0\<rparr>"
  obtain y where y: "fp_to_f32 (Fin t) = Fin y" "40 \<le> y" "y \<le> 63" using f32_in_range [of "Fin t" 40 63] assms(11,12) by auto
  then obtain raw where raw: "temp_to_raw (fp_to_f32 (Fin t)) = Some raw" "400 \<le> sint raw" "sint raw \<le> 630"
    using temp_to_raw_between [of 40 y 63] by auto
  have v: "cmd_valid ?cmd" using y by simp
  obtain reply w' q' where "queue_command ?cmd (with_queues s w) = (JsonReply 202 reply, w')"
      and s: "cmd_queue (after_request w w' s) = Some q'" "queue_valid q'" "cq_list q' = cq_list q @ [?cmd]"
      and "in_step reg c (after_request w w' s)"
    by (rule pushed_request [OF assms(4-6) v assms(2)])
  with heat_pump.dhw_effect [OF assms(1) _ assms(3) s, of raw stops] dhw_request_pushes [OF assms(7-12), of s] raw
  show ?thesis by auto
qed

theorem dhw_request_reaches_device_witness:
  "\<exists>reply w' s' c' raw.
    handleRequest test_mg \<lparr>hm_method = ''POST'', hm_uri = ''/api/set-dhw'', hm_body = ''x''\<rparr> (with_queues web_loop test_server) =
      (JsonReply 202 reply, w') \<and>
    loop_iteration (tcp_ops (gateway_sockets 11 pump_registers 1)) (\<lambda>n. False) (after_request test_server w' web_loop) = Some s' \<and>
    modbus_client s' = Some c' \<and> tcp_ready 11 3 (\<lambda>g. True) c' \<and>
    temp_to_raw (fp_to_f32 (Fin 50)) = Some raw \<and> 400 \<le> sint raw \<and> sint raw \<le> 630 \<and>
    (desired_working_mode s' = 2 \<or> gw_regs (snd c') REG_DHW_TARGET = raw)"
  by (rule dhw_request_reaches_device [OF tcp_heat_pump web_loop_in_step(1,4,2) demo_queue_valid web_loop_in_step(3,5,7)])
    simp_all

end
