(* ===== verification/Spec2Isabelle.thy ===== *)
theory Spec2Isabelle
  imports Control_Status Wakeup Spsc_Queue Status_Reader Selftest_C Status_Json Platform_Windows Settings_Run
    Register_Conformance Read_Example Timed_Wait Request_Effect
begin

text \<open>
  A verification of the Windmi heat-pump controller: one program that polls a heat pump over
  Modbus, applies the commands of a small web interface and keeps the device in the working mode
  the user chose.

  \<^bold>\<open>The program.\<close> \<open>main\<close> (\<open>src/main.cpp\<close>) reads the command line, takes the instance lock, chooses one of
  three clients that implement \<open>IModbusClient\<close> (the network gateway, a serial line, or a simulation),
  loads the settings file, starts the control thread (\<open>ControlLoop\<close>) and then serves HTTP requests
  (\<open>WebServer\<close>) until a signal arrives. The web thread and the control thread share a command queue, a
  status queue and a wake-up counter. At shutdown the control thread is stopped and a client of its own
  switches the heat pump off.

  \<^bold>\<open>The theories\<close>, in the order of their dependence:

  \<^item> \<open>Prelude\<close>: machine types, collections of simplification rules, generic lemmas. \<open>Ieee_Float\<close>: \<open>float\<close>
    and \<open>double\<close> as exact rationals with rounding to nearest even, infinities and not-a-number.
    \<open>Text_Format\<close>: the conversions between numbers and text of the C and C++ library.
  \<^item> \<open>Ring\<close>: the contents of a ring buffer and the contract of a bounded queue (locale \<open>bounded_fifo\<close>).
    \<open>Cmd_Queue\<close>, \<open>Status_Queue\<close>: the two queues of \<open>src/core/ControlLoop.cpp\<close>, the first also access by
    access for two threads. \<open>Status_Reader\<close>: the status queue access by access, with a reader beside the
    writer. \<open>Spsc_Queue\<close>: the template \<open>SpscQueue\<close> and the queues of \<open>src/spsc_queue.h\<close>.
  \<^item> \<open>Device\<close>: constants of \<open>include/config.h\<close>, temperature registers, the client interface as a record
    of operations, and its contracts as locales: \<open>held_registers\<close> (a device that keeps what is written),
    \<open>write_guard\<close> and \<open>closing_guard\<close> (a client that watches its writes).
  \<^item> \<open>Control_Loop\<close>: every operation of \<open>ControlLoop\<close>, one definition per function or per block of a long
    one, on a record of its members. \<open>Control_Safety\<close>: what each operation keeps, for any client.
    \<open>Control_Converge\<close>: what an iteration achieves on a working device (locale \<open>heat_pump\<close>).
    \<open>Control_Stable\<close>: facts that survive every operation (locales \<open>stable\<close>, \<open>stable_thread\<close>).
    \<open>Control_Status\<close>: what is reported, and \<open>StatusMonitor\<close>. \<open>Control_Thread\<close>: the thread and its
    environment as a step relation. \<open>Wakeup\<close>: the sleep of the thread and \<open>kick\<close>, with mutex and
    condition variable.
  \<^item> \<open>Rtu_Frame\<close>, \<open>Rtu_Response\<close>: checksum, request frames and checks on responses. \<open>Tcp_Client\<close>,
    \<open>Tcp_Correct\<close>: \<open>src/modbus_client.c\<close> and the class \<open>ModbusClient\<close> (locale \<open>rtu_link\<close> for a network that
    delivers bytes). \<open>Serial_Port\<close>, \<open>Serial_Client\<close>, \<open>Serial_Correct\<close>: the serial port, the functions of
    \<open>src/modbus/modbus_serial_client.c\<close> and the class around them (locale \<open>rtu_line\<close>). \<open>Sim_Client\<close>: the
    simulation. All three are instances of \<open>heat_pump\<close>, so the convergence of the loop is proved once.
  \<^item> \<open>Web_Server\<close>: routing, the API handlers and the status reply. \<open>Json_Helpers\<close>: the helpers of
    \<open>src/utils/JsonHelpers.cpp\<close> and a reader of flat JSON objects. \<open>Status_Json\<close>: the status reply as a
    client reads it. \<open>Selftest\<close>: the self-test on any client. \<open>Selftest_C\<close>: the self-test in C of
    \<open>src/selftest.c\<close> on the functions of the network client, and the printed report.
  \<^item> \<open>Config_Store\<close>: the settings file. \<open>Logger\<close>: the logger, its macros and its bridge to C.
    \<open>Platform_Services\<close>: the POSIX build of \<open>src/utils/Platform.cpp\<close>: instance lock (locale \<open>flock_os\<close>),
    directories, signals, sleeping, thread wrapper, scoped lock, and the two waits of a condition
    variable. \<open>Timed_Wait\<close>: the timed wait below them, with its deadline (locale \<open>monotonic_wait\<close>).
    \<open>Platform_Windows\<close>: the Windows build of the same operations and of the serial port (locales
    \<open>named_mutex\<close>, \<open>comm_line\<close>, \<open>tty_line\<close>), compared with the POSIX build.
  \<^item> \<open>Main_Program\<close>: command line, usage text, log setup, choice of the client, shutdown.
    \<open>Controller\<close>: the threads together. \<open>Main_Run\<close>: a whole run of \<open>main\<close> as a relation between
    the command line, the world before and after (lock, settings file, device) and the exit code.
    \<open>Settings_Run\<close>: the settings file over such a run. \<open>Request_Effect\<close>: a request through handler, queue and
    loop down to the registers.
  \<^item> \<open>Register_Map\<close>: the register map of the device in \<open>docs/header_example.hpp\<close>, with its tables, enumerations
    and conversions. \<open>Register_Conformance\<close>: the controller's reads and writes held against that map.
    \<open>Read_Example\<close>: the program \<open>docs/read_example.cpp\<close> (locale \<open>mode_gateway\<close>).
  \<^item> This theory: the properties of the whole.

  \<^bold>\<open>What is shown.\<close> Safety for every request, device and interleaving: no undefined behaviour and only
  writes in the ranges of the device (\<open>controller_safe\<close>). A run that ends well leaves the heat pump off and
  the instance lock as it was before (\<open>main_leaves_pump_off\<close>). Every write of the controller is one that the
  register map permits, or restores a setpoint the device reported (\<open>writes_in_register_map\<close>). Convergence: one iteration brings the registers in
  line with the working mode, over each of the three clients, but for a priority register that disagreed with the
  loop before (\<open>stale_priority_kept\<close>: the loop never compares it); a request for a mode or for a hot-water
  target that finds room in the queue is in the registers after the next iteration
  (\<open>mode_request_reaches_device\<close>, \<open>dhw_request_reaches_device\<close>). The evidence behind a successful read and
  write, bounds of the frame buffers, and that a flush returns if the peer sends finitely much. The queues: order, capacity, the
  interleaving of two threads, the wrap-around of the status counters, and a reader that never gets a snapshot
  which is half overwritten. Liveness: a stop ends the
  thread within 19 steps of its own, no wake-up is lost, and a timed wait does not end before its time
  (\<open>timed_wait_not_early\<close>). Round trips of frames, temperatures, register values (\<open>register_values_roundtrip\<close>)
  and settings; the working mode at the end of a run is the one of the next start
  (\<open>mode_survives_run\<close>), and the status reply reads back as the snapshot (\<open>status_reply_reads_back\<close>).
  What the self-test and the shutdown do to the device, and what the example program reports of it; the self-test in C agrees with the one in C++,
  and the POSIX and the Windows build accept the same serial settings and set the line alike. Errors
  of the code are stated as theorems too, such as the network client that cannot be used again
  after \<open>disconnect\<close>.

  \<^bold>\<open>How the code is represented.\<close> Undefined behaviour and calls that do not return are \<open>None\<close>; an exception is
  the left value of a sum. The interface of a client is total: its calls return a value or an exception, so
  undefined behaviour inside a client is not visible to the loop. There is one such place, the conversion to
  \<open>int16_t\<close> in the simulation, whose result outside the range is the parameter \<open>narrow\<close> (\<open>sim_temperature_diverges\<close>
  shows that it is reached); and a flush of the network client that never returns is shown as an exception. Members keep their width (16-, 32- and 64-bit words), except for the \<open>int\<close>
  variables whose range is shown to be small, which are integers with the conversions written out.
  Loops are recursive functions with termination proofs. Four are partial functions: the command loop,
  which \<open>processCommands_in_order\<close> shows to return; the flush of the network client, which has no
  bound in the source (\<open>flush_returns\<close>, \<open>flush_diverges\<close> say when it returns); and the two waits of a condition
  variable, which end when their predicate or the clock says so. There is no fuel. Code outside the sources is a parameter: sockets, terminal, files, locks, the clock, the
  mongoose library (requests and JSON), and the result of float-to-integer conversions that the C++
  standard leaves undefined. What is assumed of them is the \<open>assumes\<close> part of a locale or a hypothesis,
  and each has a concrete instance.

  \<^bold>\<open>Not modelled.\<close> The log lines that the operations write on their way (the logger itself is
  modelled); delays and the time an operation takes; the sign of a floating-point zero, which only the texts of numbers would show; the memory
  model below sequential consistency (the release and acquire operations are treated as atomic
  accesses in program order); the members of \<open>Mutex\<close> and \<open>ConditionVariable\<close> that only forward to the
  operating system; HTML and JavaScript; mongoose.
\<close>

section \<open>The whole controller\<close>

text \<open>
  C1. The whole controller is safe: from boot, for any sequence of HTTP requests with any content,
  any answers of the device, and any interleaving of the web thread, the control thread and the
  shutdown, the control thread never runs into undefined behaviour, and every register write it
  asks for is a safe one. Of the JSON getter it is assumed that it returns numbers. The client is a
  parameter whose calls return a value or an exception, so what is shown is about the code of the loop and
  the server, not about the code inside a client.
\<close>

theorem controller_safe:
  assumes "length cmds = 16" "json_numbers mg"
    and "(controller_step mg (logged ops))\<^sup>*\<^sup>* (T_Start, boot m p d h (c, []) cmds stats, w0) (pc, s, w)"
  shows "pc \<noteq> T_Crashed \<and> (\<exists>c' l. modbus_client s = Some (c', l) \<and> writes_ok l)"
  using lg.system_inv [OF controller_refines_system [OF assms(2,3)] boot_inv [OF assms(1)]]
  by (auto simp: lg.thread_inv_def lg.guarded_def split: if_splits)

theorem controller_safe_witness:
  "T_Start \<noteq> T_Crashed \<and>
   (\<exists>c' l. modbus_client (after_request test_server
        (snd (handleRequest test_mg \<lparr>hm_method = ''POST'', hm_uri = ''/api/set-mode'', hm_body = ''x''\<rparr>
          (with_queues booted test_server))) booted) = Some (c', l) \<and> writes_ok l)"
proof (rule controller_safe)
  show "length (replicate 16 noop) = 16" by simp
  show "json_numbers test_mg" by (simp add: json_numbers_def)
  show "(controller_step test_mg (logged bank_ops))\<^sup>*\<^sup>* (T_Start, booted, test_server)
    (T_Start, after_request test_server
        (snd (handleRequest test_mg \<lparr>hm_method = ''POST'', hm_uri = ''/api/set-mode'', hm_body = ''x''\<rparr>
          (with_queues booted test_server))) booted,
     snd (handleRequest test_mg \<lparr>hm_method = ''POST'', hm_uri = ''/api/set-mode'', hm_body = ''x''\<rparr>
          (with_queues booted test_server)))"
    by (intro r_into_rtranclp controller_step.request) (rule prod.collapse [symmetric])
qed

text \<open>
  C3. The writes of the whole controller keep to the register map of the device: from boot, for any
  requests, device answers and interleaving, every register write it asks for goes to a register that the
  map in \<open>docs/header_example.hpp\<close> lists as writable, with a value in its range there, or gives a setpoint back
  that the device itself reported before, or sets the priority register, whose address the map does not list.
\<close>

theorem writes_in_register_map:
  assumes "length cmds = 16" "json_numbers mg"
    and "(controller_step mg (logged ops))\<^sup>*\<^sup>* (T_Start, boot m p d h (c, []) cmds stats, w0) (pc, s, w)"
  shows "\<exists>c' l. modbus_client s = Some (c', l) \<and> writes_in_map l"
proof -
  have "lg.thread_inv (pc, s)"
    using lg.system_inv [OF controller_refines_system [OF assms(2,3)] boot_inv [OF assms(1)]] by simp
  then obtain c' l where "modbus_client s = Some (c', l)" "writes_ok l"
    by (auto simp: lg.thread_inv_def lg.guarded_def split: if_splits)
  then show ?thesis by (blast intro: writes_ok_in_map)
qed

theorem writes_in_register_map_witness:
  "\<exists>c' l. modbus_client (after_request test_server
        (snd (handleRequest test_mg \<lparr>hm_method = ''POST'', hm_uri = ''/api/set-mode'', hm_body = ''x''\<rparr>
          (with_queues booted test_server))) booted) = Some (c', l) \<and> writes_in_map l"
proof (rule writes_in_register_map)
  show "length (replicate 16 noop) = 16" by simp
  show "json_numbers test_mg" by (simp add: json_numbers_def)
  show "(controller_step test_mg (logged bank_ops))\<^sup>*\<^sup>* (T_Start, booted, test_server)
    (T_Start, after_request test_server
        (snd (handleRequest test_mg \<lparr>hm_method = ''POST'', hm_uri = ''/api/set-mode'', hm_body = ''x''\<rparr>
          (with_queues booted test_server))) booted,
     snd (handleRequest test_mg \<lparr>hm_method = ''POST'', hm_uri = ''/api/set-mode'', hm_body = ''x''\<rparr>
          (with_queues booted test_server)))"
    by (intro r_into_rtranclp controller_step.request) (rule prod.collapse [symmetric])
qed

section \<open>A whole run\<close>

text \<open>
  C2. The program leaves the heat pump off: when a run whose command line is accepted, with neither \<open>--demo\<close> nor
  \<open>--selftest\<close> (and not one that only prints the usage text), ends with exit code 0, whatever requests it served and
  whatever the threads did in between, and a new client can reach the device at the end, then the running mode of the
  device is off. The instance lock is given back: the process has closed its lock file, so the lock is with who had it before
  the run, which is nobody unless the run was started with \<open>--force\<close>.
\<close>

theorem main_leaves_pump_off:
  assumes "held_registers (e_ops E) ready reg held readable" "REG_RUNNING_MODE \<in> held"
    and "\<And>d. \<exists>c c1. e_new E (choose_client opt) d = Inr c \<and> m_connect (e_ops E) c = (True, c1) \<and>
           ready (m_flushBuffer (e_ops E) c1)"
    and "\<And>c. ready c \<Longrightarrow> dreg (e_device E (m_disconnect (e_ops E) c)) REG_RUNNING_MODE = reg c REG_RUNNING_MODE"
    and "flock_os os holder" "e_lock E = os p"
    and "parse_args args default_options = Inr opt" "\<not> o_demo_mode opt" "\<not> o_run_selftest opt"
    and "main_run E args w (Exit 0) w'"
  shows "dreg (w_device w') REG_RUNNING_MODE = 0 \<and> g_lock_fd (fst (w_lock w')) = - 1 \<and>
    holder (snd (w_lock w')) = holder (snd (w_lock w)) \<and> (\<not> o_force_lock opt \<longrightarrow> holder (snd (w_lock w')) = None)"
  using assms(10)
proof (cases rule: main_run.cases)
  case (served opt' L c c1 cmds stats s0 web0 pc s web s' c2)
  obtain c0 c1 where "e_new E (choose_client opt) (e_device E (m_disconnect (e_ops E) c2)) = Inr c0"
      "m_connect (e_ops E) c0 = (True, c1)" "ready (m_flushBuffer (e_ops E) c1)"
    using assms(3) by blast
  then have "dreg (device_off E opt (m_disconnect (e_ops E) c2)) REG_RUNNING_MODE = 0"
    by (rule device_off_works [OF assms(1,2,8), where dreg = dreg]) (rule assms(4))
  moreover have "holder (snd (release_instance_lock (os p) L)) = holder (snd (w_lock w)) \<and>
      (\<not> o_force_lock opt \<longrightarrow> holder (snd (w_lock w)) = None)"
    using flock_os.acquire_release [OF assms(5), of p "o_force_lock opt" "fst (w_lock w)" "snd (w_lock w)" "fst L" "snd L"]
      served assms(6,7) by simp
  ultimately show ?thesis using served assms(6,7) by (simp add: unlocked_lock release_fd)
qed (use assms(7,9) in \<open>auto simp: check_options_def split: if_splits\<close>)

theorem main_leaves_pump_off_witness:
  "\<exists>w'. main_run gateway_env [] gateway_world (Exit 0) w' \<and> gw_regs (w_device w') REG_RUNNING_MODE = 0 \<and>
    g_lock_fd (fst (w_lock w')) = - 1 \<and> lf_holder (snd (w_lock w')) = None"
proof -
  obtain w' where r: "main_run gateway_env [] gateway_world (Exit 0) w'" using gateway_run ..
  have "gw_regs (w_device w') REG_RUNNING_MODE = 0 \<and> g_lock_fd (fst (w_lock w')) = - 1 \<and>
    lf_holder (snd (w_lock w')) = lf_holder (snd (w_lock gateway_world)) \<and>
    (\<not> o_force_lock default_options \<longrightarrow> lf_holder (snd (w_lock w')) = None)"
  proof (rule main_leaves_pump_off [OF _ _ _ _ kl.flock_os_axioms _ _ _ _ r])
    show "held_registers (e_ops gateway_env) (tcp_ready 11 3 (\<lambda>g. True)) (\<lambda>m. gw_regs (snd m)) (set pump_registers) (set pump_registers)"
      using gw.held_registers_axioms by simp
    show "REG_RUNNING_MODE \<in> set pump_registers" by (simp add: pump_registers_def)
    show "parse_args [] default_options = Inr default_options" by simp
    show "\<exists>c c1. e_new gateway_env (choose_client default_options) d = Inr c \<and>
        m_connect (e_ops gateway_env) c = (True, c1) \<and> tcp_ready 11 3 (\<lambda>g. True) (m_flushBuffer (e_ops gateway_env) c1)" for d
      unfolding gateway_new
      by (intro exI conjI, rule refl, rule gateway_connect)
        (simp add: tcp_ready_def tcp_ops_def tcp_flushBuffer_def gateway_conn_def split: option.split)
    show "gw_regs (e_device gateway_env (m_disconnect (e_ops gateway_env) c)) REG_RUNNING_MODE = gw_regs (snd c) REG_RUNNING_MODE"
      if "tcp_ready 11 3 (\<lambda>g. True) c" for c
      by (cases c) (auto simp: tcp_ops_def tcp_disconnect_def modbus_client_destroy_def modbus_client_disconnect_def
          gateway_sockets_def split: option.split)
    show "e_lock gateway_env = kernel_os 7" by simp
  qed simp_all
  with r show ?thesis by (auto simp: gateway_world_def)
qed

end
